(* ===== verification/Prelude.thy ===== *)
theory Prelude
  imports Main "HOL-Library.Word" "HOL-Library.Monad_Syntax" "HOL-Library.Multiset"
    "HOL-Library.AList" "HOL-Library.Char_ord" "HOL-Library.List_Lexorder"
begin

text \<open>
  Vocabulary shared by the whole development: the Go types at their width, Go maps with their
  nil value, the error values of the API machinery, decimal printing and parsing
  (\<^verbatim>\<open>fmt\<close> \<open>%d\<close>, \<^verbatim>\<open>strconv.ParseInt\<close>), ASCII case conversion, and the lemma collections the
  component proofs draw from.

  Conventions of the model:
  \<^item> \<open>int32\<close> and \<open>int64\<close> are machine words, so \<open>+\<close> and \<open>-\<close> wrap as in Go and \<open>sint\<close> is the signed
    value; Go's \<open>int\<close>, used for slice lengths and ordinals, is \<open>int\<close>.
  \<^item> a Go function that can panic returns an \<open>option\<close>, \<open>None\<close> being the panic; a Go error result is
    \<open>error option\<close> (\<open>None\<close> is nil) or \<open>error + 'a\<close>.
  \<^item> a Go pointer or nil-able slice/map that the code compares with nil is an \<open>option\<close>.
\<close>

section \<open>Lemma collections\<close>

named_theorems go_simps \<open>evaluation of the Go primitives\<close>
named_theorems call_simps \<open>which API calls an operation issues\<close>
named_theorems wf_intros \<open>an operation does not panic\<close>

section \<open>Integers, time and bytes\<close>

type_synonym int32 = "32 word"
type_synonym int64 = "64 word"
type_synonym time = int
type_synonym bytes = string

section \<open>Errors\<close>

text \<open>
  The reasons the code distinguishes (\<^verbatim>\<open>errors.IsNotFound\<close> and its kin); \<open>Errorf\<close> carries the text of
  an error the code builds itself or of any other failure.
\<close>

datatype error = NotFound | AlreadyExists | Conflict | Invalid | NoMatch | Errorf string

definition IsNotFound :: "error option \<Rightarrow> bool" where
  "IsNotFound e \<longleftrightarrow> e = Some NotFound"

definition IsAlreadyExists :: "error option \<Rightarrow> bool" where
  "IsAlreadyExists e \<longleftrightarrow> e = Some AlreadyExists"

definition IsConflict :: "error option \<Rightarrow> bool" where
  "IsConflict e \<longleftrightarrow> e = Some Conflict"

section \<open>Go maps\<close>

text \<open>A \<^verbatim>\<open>map[string]string\<close>: \<open>None\<close> is the nil map, on which a read gives the zero value.\<close>

type_synonym gomap = "(string \<rightharpoonup> string) option"

definition mapGet :: "gomap \<Rightarrow> string \<Rightarrow> string" where
  "mapGet m k = (case m of None \<Rightarrow> [] | Some f \<Rightarrow> (case f k of None \<Rightarrow> [] | Some v \<Rightarrow> v))"

definition mapLookup :: "gomap \<Rightarrow> string \<Rightarrow> string option" where
  "mapLookup m k = (case m of None \<Rightarrow> None | Some f \<Rightarrow> f k)"

definition mapPut :: "gomap \<Rightarrow> string \<Rightarrow> string \<Rightarrow> gomap" where
  \<comment> \<open>the idiom \<open>if m == nil { m = make(map...) }; m[k] = v\<close>\<close>
  "mapPut m k v = Some ((case m of None \<Rightarrow> Map.empty | Some f \<Rightarrow> f)(k \<mapsto> v))"

definition mapAssign :: "gomap \<Rightarrow> string \<Rightarrow> string \<Rightarrow> gomap option" where
  \<comment> \<open>a bare \<open>m[k] = v\<close>: it panics on the nil map\<close>
  "mapAssign m k v = (case m of None \<Rightarrow> None | Some f \<Rightarrow> Some (Some (f(k \<mapsto> v))))"

lemma mapGet_mapPut [simp, go_simps]: "mapGet (mapPut m k v) k' = (if k' = k then v else mapGet m k')"
  by (auto simp: mapGet_def mapPut_def split: option.splits)

lemma mapLookup_mapPut [simp, go_simps]:
  "mapLookup (mapPut m k v) k' = (if k' = k then Some v else mapLookup m k')"
  by (auto simp: mapLookup_def mapPut_def split: option.splits)

lemma mapPut_not_nil [simp]: "mapPut m k v \<noteq> None"
  by (simp add: mapPut_def)

section \<open>Nil-able slices\<close>

definition slice :: "'a list option \<Rightarrow> 'a list" where
  "slice xs = (case xs of None \<Rightarrow> [] | Some ys \<Rightarrow> ys)"

lemma slice_simps [simp, go_simps]: "slice None = []" "slice (Some xs) = xs"
  by (simp_all add: slice_def)

section \<open>Decimal numbers\<close>

definition isDigit :: "char \<Rightarrow> bool" where
  "isDigit c \<longleftrightarrow> (let n = (of_char c :: nat) in 48 \<le> n \<and> n \<le> 57)"

definition digitChar :: "nat \<Rightarrow> char" where
  "digitChar d = char_of (48 + d)"

definition digitVal :: "char \<Rightarrow> nat" where
  "digitVal c = of_char c - 48"

fun showNat :: "nat \<Rightarrow> string" where
  "showNat n = (if n < 10 then [digitChar n] else showNat (n div 10) @ [digitChar (n mod 10)])"

declare showNat.simps [simp del]

definition showInt :: "int \<Rightarrow> string" where
  "showInt i = (if i < 0 then CHR ''-'' # showNat (nat (- i)) else showNat (nat i))"

definition readNat :: "string \<Rightarrow> nat" where
  "readNat s = foldl (\<lambda>a c. 10 * a + digitVal c) 0 s"

lemma of_char_digitChar [simp]: "d < 10 \<Longrightarrow> (of_char (digitChar d) :: nat) = 48 + d"
  by (simp add: digitChar_def)

lemma isDigit_digitChar [simp]: "d < 10 \<Longrightarrow> isDigit (digitChar d)"
  by (simp add: isDigit_def)

lemma digitVal_digitChar [simp]: "d < 10 \<Longrightarrow> digitVal (digitChar d) = d"
  by (simp add: digitVal_def)

lemma dash_not_digit [simp]: "\<not> isDigit (CHR ''-'')"
  by (simp add: isDigit_def)

lemma newline_not_digit [simp]: "\<not> isDigit (CHR 0x0A)"
  by (simp add: isDigit_def)

lemma showNat_nonempty [simp]: "showNat n \<noteq> []"
  by (subst showNat.simps) simp

lemma showNat_digits: "c \<in> set (showNat n) \<Longrightarrow> isDigit c"
proof (induction n rule: showNat.induct)
  case (1 n)
  from "1.prems" have "c \<in> set (if n < 10 then [digitChar n] else showNat (n div 10) @ [digitChar (n mod 10)])"
    by (subst (asm) showNat.simps)
  with "1.IH" show ?case by (auto split: if_splits)
qed

lemma list_all_showNat [simp]: "list_all isDigit (showNat n)"
  by (auto simp: list_all_iff dest: showNat_digits)

lemma readNat_snoc: "readNat (s @ [c]) = 10 * readNat s + digitVal c"
  by (simp add: readNat_def)

lemma readNat_showNat [simp]: "readNat (showNat n) = n"
proof (induction n rule: showNat.induct)
  case (1 n)
  show ?case
  proof (cases "n < 10")
    case True
    then show ?thesis by (subst showNat.simps) (simp add: readNat_def)
  next
    case False
    with 1 show ?thesis by (subst showNat.simps) (simp add: readNat_snoc)
  qed
qed

text \<open>\<^verbatim>\<open>strconv.ParseInt(s, 10, 32)\<close> on a string of digits: out of range is an error.\<close>

definition ParseInt32 :: "string \<Rightarrow> int option" where
  "ParseInt32 s = (if s \<noteq> [] \<and> list_all isDigit s \<and> int (readNat s) \<le> 2147483647
                   then Some (int (readNat s)) else None)"

lemma ParseInt32_bounds: "ParseInt32 s = Some i \<Longrightarrow> 0 \<le> i \<and> i \<le> 2147483647"
  by (auto simp: ParseInt32_def split: if_splits)

lemma ParseInt32_showNat: "n \<le> 2147483647 \<Longrightarrow> ParseInt32 (showNat n) = Some (int n)"
  by (simp add: ParseInt32_def)

section \<open>ASCII case conversion\<close>

definition lowerChar :: "char \<Rightarrow> char" where
  "lowerChar c = (let n = (of_char c :: nat) in if 65 \<le> n \<and> n \<le> 90 then char_of (n + 32) else c)"

definition upperChar :: "char \<Rightarrow> char" where
  "upperChar c = (let n = (of_char c :: nat) in if 97 \<le> n \<and> n \<le> 122 then char_of (n - 32) else c)"

text \<open>\<^verbatim>\<open>strings.ToLower\<close> on ASCII text, and \<^verbatim>\<open>strings.Title\<close> on a single word.\<close>

definition ToLower :: "string \<Rightarrow> string" where
  "ToLower s = map lowerChar s"

definition Title :: "string \<Rightarrow> string" where
  "Title s = (case s of [] \<Rightarrow> [] | c # cs \<Rightarrow> upperChar c # cs)"

lemma lowerChar_idem [simp]: "lowerChar (lowerChar c) = lowerChar c"
  by (simp add: lowerChar_def Let_def)

lemma ToLower_idem [simp]: "ToLower (ToLower s) = ToLower s"
  by (simp add: ToLower_def)

lemma ToLower_simps [simp]: "ToLower [] = []" "ToLower (c # s) = lowerChar c # ToLower s"
  by (simp_all add: ToLower_def)

lemma ToLower_append [simp]: "ToLower (s @ t) = ToLower s @ ToLower t"
  by (simp add: ToLower_def)

section \<open>Lists\<close>

lemma last_filter_eq: "filter P xs \<noteq> [] \<Longrightarrow> P (last (filter P xs)) \<and> last (filter P xs) \<in> set xs"
  using last_in_set [of "filter P xs"] by simp

lemma list_update_all: "list_all P xs \<Longrightarrow> P x \<Longrightarrow> list_all P (xs[i := x])"
  by (auto simp: list_all_iff dest: subsetD [OF set_update_subset_insert])

end
