(* ===== verification/Api_Types.thy ===== *)
theory Api_Types
  imports Prelude
begin

text \<open>
  The data the controllers work on. The resources nuwa declares itself (\<^verbatim>\<open>api/v1/*_types.go\<close>,
  \<^verbatim>\<open>coordinate.go\<close>, \<^verbatim>\<open>strategy.go\<close>, \<^verbatim>\<open>update_priortity.go\<close>) have a record field per Go field. Of the
  Kubernetes objects they embed, a record has the fields the code reads or writes, and one \<open>rest\<close> field
  that stands for everything the code only carries along (copies, compares or sends as a whole).
\<close>

section \<open>Object metadata\<close>

record ownerReference =
  or_APIVersion :: string
  or_Kind :: string
  or_Name :: string
  or_UID :: string
  or_Controller :: "bool option"
  or_BlockOwnerDeletion :: "bool option"

record objectMeta =
  Name :: string
  GenerateName :: string
  Namespace :: string
  UID :: string
  ResourceVersion :: string
  Generation :: int64
  DeletionTimestamp :: "time option"
  Labels :: gomap
  Annotations :: gomap
  OwnerReferences :: "ownerReference list"
  Finalizers :: "string list"

definition emptyMeta :: objectMeta where
  "emptyMeta = \<lparr>Name = [], GenerateName = [], Namespace = [], UID = [], ResourceVersion = [],
     Generation = 0, DeletionTimestamp = None, Labels = None, Annotations = None,
     OwnerReferences = [], Finalizers = []\<rparr>"

record groupVersionKind =
  gvk_Group :: string
  gvk_Version :: string
  gvk_Kind :: string

record objectKey =
  key_Namespace :: string
  key_Name :: string

definition metaKey :: "objectMeta \<Rightarrow> objectKey" where
  "metaKey m = \<lparr>key_Namespace = Namespace m, key_Name = Name m\<rparr>"

record labelSelector =
  MatchLabels :: gomap
  sel_rest :: string

section \<open>Coordinates and strategies of nuwa\<close>

record coordinate =
  Zone :: string
  Rack :: string
  Host :: string
  co_Replicas :: int32

type_synonym coordinates = "coordinate list"

type_synonym strategyType = string

definition Alpha :: strategyType where "Alpha = ''Alpha''"
definition Beta :: strategyType where "Beta = ''Beta''"
definition Omega :: strategyType where "Omega = ''Omega''"
definition Release :: strategyType where "Release = ''Release''"

lemmas strategy_defs = Alpha_def Beta_def Omega_def Release_def

section \<open>Node affinity\<close>

record nodeSelectorRequirement =
  nsr_Key :: string
  nsr_Operator :: string
  nsr_Values :: "string list"

type_synonym nodeSelectorTerm = "nodeSelectorRequirement list"

record preferredSchedulingTerm =
  Weight :: int32
  Preference :: nodeSelectorTerm

record nodeAffinity =
  RequiredTerms :: "nodeSelectorTerm list option"
  PreferredTerms :: "preferredSchedulingTerm list"

record affinity =
  NodeAffinity :: "nodeAffinity option"
  aff_rest :: string

section \<open>Pods\<close>

record container =
  c_Name :: string
  c_Image :: string
  c_rest :: string

record pvcSource =
  ClaimName :: string
  ReadOnly :: bool

record volume =
  v_Name :: string
  v_PVC :: "pvcSource option"
  v_rest :: string

record podSpec =
  Containers :: "container list"
  Volumes :: "volume list option"
  Affinity :: "affinity option"
  ReadinessGates :: "string list"
  Hostname :: string
  Subdomain :: string
  NodeName :: string
  ps_rest :: string

record podTemplate =
  t_Meta :: objectMeta
  t_Spec :: podSpec

record containerStatus =
  cs_Name :: string
  cs_ImageID :: string
  cs_rest :: string

record podCondition =
  pc_Type :: string
  pc_Status :: string
  pc_Reason :: string

record podStatus =
  Phase :: string
  Conditions :: "podCondition list"
  ContainerStatuses :: "containerStatus list"
  pst_rest :: string

record pod =
  p_Meta :: objectMeta
  p_Spec :: podSpec
  p_Status :: podStatus

record persistentVolumeClaim =
  pvc_Meta :: objectMeta
  pvc_rest :: string

abbreviation podName :: "pod \<Rightarrow> string" where "podName p \<equiv> Name (p_Meta p)"
abbreviation podKey :: "pod \<Rightarrow> objectKey" where "podKey p \<equiv> metaKey (p_Meta p)"
abbreviation podLabels :: "pod \<Rightarrow> gomap" where "podLabels p \<equiv> Labels (p_Meta p)"

section \<open>The nuwa StatefulSet\<close>

datatype intOrString = IntVal int32 | StrVal string

record updatePriorityOrderTerm =
  OrderedKey :: string

record updatePriorityWeightTerm =
  upw_Weight :: int32
  MatchSelector :: labelSelector

record updatePriorityStrategy =
  OrderPriority :: "updatePriorityOrderTerm list"
  WeightPriority :: "updatePriorityWeightTerm list"

record rollingUpdateStatefulSetStrategy =
  Partition :: "int32 option"
  MaxUnavailable :: "intOrString option"
  PodUpdatePolicy :: string
  Paused :: bool
  PriorityStrategy :: "updatePriorityStrategy option"

record statefulSetUpdateStrategy =
  us_Type :: string
  RollingUpdate :: "rollingUpdateStatefulSetStrategy option"

record statefulSetSpec =
  Replicas :: "int32 option"
  Selector :: "labelSelector option"
  Template :: podTemplate
  VolumeClaimTemplates :: "persistentVolumeClaim list"
  ServiceName :: string
  PodManagementPolicy :: string
  UpdateStrategy :: "statefulSetUpdateStrategy option"
  RevisionHistoryLimit :: int32

record statefulSetCondition =
  sc_Type :: string
  sc_Status :: string
  LastTransitionTime :: time
  sc_Reason :: string
  sc_Message :: string

record statefulSetStatus =
  ObservedGeneration :: int64
  st_Replicas :: int32
  ReadyReplicas :: int32
  CurrentReplicas :: int32
  UpdatedReplicas :: int32
  CurrentRevision :: string
  UpdateRevision :: string
  CollisionCount :: "int32 option"
  st_Conditions :: "statefulSetCondition list"

record statefulSet =
  set_Meta :: objectMeta
  set_Spec :: statefulSetSpec
  set_Status :: statefulSetStatus

abbreviation setName :: "statefulSet \<Rightarrow> string" where "setName s \<equiv> Name (set_Meta s)"
abbreviation setNamespace :: "statefulSet \<Rightarrow> string" where "setNamespace s \<equiv> Namespace (set_Meta s)"

text \<open>String enumerations of the StatefulSet API.\<close>

definition RecreatePodUpdateStrategyType :: string where
  "RecreatePodUpdateStrategyType = ''ReCreate''"
definition InPlaceIfPossiblePodUpdateStrategyType :: string where
  "InPlaceIfPossiblePodUpdateStrategyType = ''InPlaceIfPossible''"
definition InPlaceOnlyPodUpdateStrategyType :: string where
  "InPlaceOnlyPodUpdateStrategyType = ''InPlaceOnly''"
definition StatefulSetInPlaceUpdateReady :: string where
  "StatefulSetInPlaceUpdateReady = ''InPlaceUpdateReady''"
definition StatefulSetInPlaceUpdateStateAnnotation :: string where
  "StatefulSetInPlaceUpdateStateAnnotation = ''inplace-update-state''"
definition FailedCreatePod :: string where "FailedCreatePod = ''FailedCreatePod''"
definition FailedUpdatePod :: string where "FailedUpdatePod = ''FailedUpdatePod''"

lemmas update_policy_defs = RecreatePodUpdateStrategyType_def
  InPlaceIfPossiblePodUpdateStrategyType_def InPlaceOnlyPodUpdateStrategyType_def

text \<open>Constants of \<^verbatim>\<open>k8s.io/api\<close> the code names.\<close>

abbreviation "OnDeleteStatefulSetStrategyType \<equiv> ''OnDelete''"
abbreviation "RollingUpdateStatefulSetStrategyType \<equiv> ''RollingUpdate''"
abbreviation "ParallelPodManagement \<equiv> ''Parallel''"
abbreviation "StatefulSetPodNameLabel \<equiv> ''statefulset.kubernetes.io/pod-name''"
abbreviation "StatefulSetRevisionLabel \<equiv> ''controller-revision-hash''"
abbreviation "PodRunning \<equiv> ''Running''"
abbreviation "PodFailed \<equiv> ''Failed''"
abbreviation "ConditionTrue \<equiv> ''True''"
abbreviation "ConditionFalse \<equiv> ''False''"
abbreviation "NodeSelectorOpIn \<equiv> ''In''"

section \<open>In-place update state\<close>

record inPlaceUpdateContainerStatus =
  ipc_ImageID :: string

record inPlaceUpdateState =
  ips_Revision :: string
  UpdateTimestamp :: time
  LastContainerStatuses :: "(string \<times> inPlaceUpdateContainerStatus) list"

section \<open>Controller revisions\<close>

record controllerRevision =
  cr_Meta :: objectMeta
  cr_Raw :: bytes
  Revision :: int64

abbreviation revName :: "controllerRevision \<Rightarrow> string" where "revName r \<equiv> Name (cr_Meta r)"

section \<open>Services and Deployments\<close>

record servicePort =
  port_Name :: string
  port_rest :: string

record serviceSpec =
  Ports :: "servicePort list"
  svc_Selector :: gomap
  svc_rest :: string

record service =
  svc_Meta :: objectMeta
  svc_Spec :: serviceSpec

record deployment =
  d_Meta :: objectMeta
  d_Replicas :: "int32 option"
  d_Selector :: "labelSelector option"
  d_Template :: podTemplate
  d_rest :: string

section \<open>Water, Stone and Injector\<close>

record waterSpec =
  w_Template :: podTemplate
  w_Strategy :: strategyType
  w_Coordinates :: coordinates
  w_Service :: serviceSpec

record waterStatus =
  DesiredReplicas :: int32
  AlreadyReplicas :: int32
  DesiredDeployment :: int32
  AlreadyDeployment :: int32

record water =
  w_Meta :: objectMeta
  w_Spec :: waterSpec
  w_Status :: waterStatus

record coordinatesGroup =
  Group :: string
  Zoneset :: coordinates
  cg_Replicas :: "int32 option"

record stoneSpec =
  sn_Template :: podTemplate
  sn_VolumeClaimTemplates :: "persistentVolumeClaim list"
  sn_Strategy :: strategyType
  sn_Coordinates :: "coordinatesGroup list"
  sn_Service :: serviceSpec

record stoneStatus =
  sns_Replicas :: int32
  sns_StatefulSet :: int32

record stone =
  sn_Meta :: objectMeta
  sn_Spec :: stoneSpec
  sn_Status :: stoneStatus

record injectorSpec =
  PreContainers :: "container list option"
  PostContainers :: "container list option"
  ResourceType :: string
  inj_NameSpace :: string
  inj_Name :: string
  inj_Volumes :: "volume list option"
  inj_Selector :: labelSelector

record injector =
  inj_Meta :: objectMeta
  inj_Spec :: injectorSpec

record namespaceObj =
  ns_Meta :: objectMeta

end
