(* ===== verification/Libraries.thy ===== *)
theory Libraries
  imports Api_Types
begin

text \<open>
  The functions of third-party packages that the sources call, as parameters of the model: each record
  groups the pure functions of one package family, and a definition that uses one takes the record as an
  argument. Nothing is assumed of them here. Where a property relies on documented behaviour, that
  behaviour is a named hypothesis of the property, one of the predicates of the last section.
\<close>

section \<open>API machinery and core helpers\<close>

record coreLib =
  lib_ErrorString :: "error \<Rightarrow> string"
    \<comment> \<open>\<open>err.Error()\<close>\<close>
  lib_RetryAgain :: "nat \<Rightarrow> error \<Rightarrow> bool"
    \<comment> \<open>\<open>retry.RetryOnConflict\<close>: is the closure run again after its \<open>k\<close>-th failure with this error?\<close>
  lib_DefaultRetrySteps :: nat
  lib_DefaultBackoffSteps :: nat
  lib_SelectorError :: "labelSelector option \<Rightarrow> error option"
    \<comment> \<open>the error result of \<open>metav1.LabelSelectorAsSelector\<close>\<close>
  lib_SelectorMatches :: "labelSelector option \<Rightarrow> gomap \<Rightarrow> bool"
    \<comment> \<open>\<open>selector.Matches(labels.Set(...))\<close> of the converted selector\<close>
  lib_NewControllerRef :: "objectMeta \<Rightarrow> groupVersionKind \<Rightarrow> ownerReference"
  lib_GetControllerOf :: "objectMeta \<Rightarrow> ownerReference option"
  lib_IsPodReady :: "pod \<Rightarrow> bool"
    \<comment> \<open>\<open>podutil.IsPodReady\<close>\<close>
  lib_GetPodFromTemplate :: "podTemplate \<Rightarrow> objectMeta \<Rightarrow> ownerReference option \<Rightarrow> pod option"
    \<comment> \<open>\<open>controller.GetPodFromTemplate\<close>; \<open>None\<close> is its nil pod\<close>
  lib_GetValueFromIntOrPercent :: "intOrString \<Rightarrow> int \<Rightarrow> bool \<Rightarrow> error + int"
  lib_RangeClaims :: "(string \<times> persistentVolumeClaim) list \<Rightarrow> (string \<times> persistentVolumeClaim) list"
    \<comment> \<open>the order in which a \<open>range\<close> loop visits the claims map\<close>
  lib_Sort :: "(pod \<Rightarrow> int) \<Rightarrow> pod list \<Rightarrow> pod list"
    \<comment> \<open>\<open>sort.Sort\<close> with the order of an integer key: it is not stable, so equal keys may come in any order\<close>
  lib_NewAggregate :: "error list \<Rightarrow> error"
    \<comment> \<open>\<open>errorutils.NewAggregate\<close> of a non-empty list\<close>
  lib_SetControllerReference :: "objectMeta \<Rightarrow> objectMeta \<Rightarrow> error + objectMeta"
    \<comment> \<open>\<open>controllerutil.SetControllerReference(owner, object, scheme)\<close>, on the object's metadata\<close>
  lib_WithStack :: "error \<Rightarrow> error"
    \<comment> \<open>\<open>errors.WithStack\<close> of a non-nil error\<close>
  lib_ValidPodNamePrefix :: "string \<Rightarrow> bool"
    \<comment> \<open>\<open>len(validation.ValidatePodName(prefix, true)) == 0\<close>\<close>

section \<open>Controller history\<close>

record historyLib =
  lib_SortControllerRevisions :: "controllerRevision list \<Rightarrow> controllerRevision list"
  lib_EqualRevision :: "controllerRevision \<Rightarrow> controllerRevision \<Rightarrow> bool"
  lib_FindEqualRevisions :: "controllerRevision list \<Rightarrow> controllerRevision \<Rightarrow> controllerRevision list"
  lib_NewControllerRevision ::
    "objectMeta \<Rightarrow> groupVersionKind \<Rightarrow> gomap \<Rightarrow> bytes \<Rightarrow> int64 \<Rightarrow> int32 \<Rightarrow> error + controllerRevision"
  lib_HashControllerRevision :: "controllerRevision \<Rightarrow> int32 \<Rightarrow> string"
  lib_ControllerRevisionName :: "string \<Rightarrow> string \<Rightarrow> string"

section \<open>Encoding and patching\<close>

datatype json =
    JNull
  | JBool bool
  | JNum string
  | JStr string
  | JArr "json list"
  | JObj "(string \<times> json) list"

record jsonPatchOperation =
  Operation :: string
  Path :: string
  Value :: json

record codecLib =
  lib_EncodeSet :: "statefulSet \<Rightarrow> error + bytes"
    \<comment> \<open>\<open>runtime.Encode(patchCodec, set)\<close>\<close>
  lib_ParseJson :: "bytes \<Rightarrow> json option"
  lib_PrintJson :: "json \<Rightarrow> bytes"
  lib_StrategicMergePatch :: "bytes \<Rightarrow> bytes \<Rightarrow> error + bytes"
  lib_DecodeSet :: "bytes \<Rightarrow> error + statefulSet"
  lib_CreatePatch :: "bytes \<Rightarrow> bytes \<Rightarrow> error + jsonPatchOperation list"
  lib_DecodePatchTemplate :: "bytes \<Rightarrow> error + podTemplate option"
    \<comment> \<open>\<open>json.Unmarshal\<close> into the anonymous patch object; \<open>None\<close> is its nil pointer\<close>
  lib_MarshalCoordinates :: "coordinates \<Rightarrow> string"
  lib_UnmarshalCoordinates :: "string \<Rightarrow> error + coordinates"
  lib_MarshalInPlaceState :: "inPlaceUpdateState \<Rightarrow> string"
  lib_UnmarshalInPlaceState :: "string \<Rightarrow> error + inPlaceUpdateState"
  lib_MarshalPatches :: "jsonPatchOperation list \<Rightarrow> bytes"
  lib_DecodePatch :: "bytes \<Rightarrow> error + bytes"
  lib_MarshalPod :: "pod \<Rightarrow> bytes"
  lib_ApplyPatch :: "bytes \<Rightarrow> bytes \<Rightarrow> error + bytes"
  lib_UnmarshalPod :: "bytes \<Rightarrow> error + pod option"
  lib_MarshalWaterSpec :: "waterSpec \<Rightarrow> error + string"
  lib_UnmarshalWaterSpec :: "string \<Rightarrow> error + waterSpec"
  lib_MarshalStoneSpec :: "stoneSpec \<Rightarrow> error + string"

section \<open>Documented behaviour the properties rely on\<close>

text \<open>A \<open>range\<close> loop visits every map entry exactly once, in an unspecified order.\<close>

definition ranges_all :: "coreLib \<Rightarrow> bool" where
  "ranges_all L \<longleftrightarrow> (\<forall>cs. mset (lib_RangeClaims L cs) = mset cs)"

lemma ranges_all_set: "ranges_all L \<Longrightarrow> set (lib_RangeClaims L cs) = set cs"
  by (metis ranges_all_def set_mset_mset)

text \<open>What \<^verbatim>\<open>retry.RetryOnConflict\<close> documents: an error that is not a conflict is not retried.\<close>

definition retries_conflicts :: "coreLib \<Rightarrow> bool" where
  "retries_conflicts L \<longleftrightarrow> (\<forall>k err. err \<noteq> Conflict \<longrightarrow> \<not> lib_RetryAgain L k err)"

text \<open>\<^verbatim>\<open>SetControllerReference\<close> fails with errors of its own, which are not conflicts.\<close>

definition owner_errors :: "coreLib \<Rightarrow> bool" where
  "owner_errors L \<longleftrightarrow> (\<forall>owner m err. lib_SetControllerReference L owner m = Inl err
     \<longrightarrow> err \<noteq> Conflict \<and> lib_WithStack L err \<noteq> Conflict)"

text \<open>\<^verbatim>\<open>sort.Sort\<close> sorts.\<close>

definition sorts_pods :: "coreLib \<Rightarrow> bool" where
  "sorts_pods L \<longleftrightarrow> (\<forall>key ps. mset (lib_Sort L key ps) = mset ps \<and> sorted (map key (lib_Sort L key ps)))"

lemma sorts_pods_set: "sorts_pods L \<Longrightarrow> set (lib_Sort L key ps) = set ps"
  by (metis sorts_pods_def set_mset_mset)

text \<open>\<^verbatim>\<open>GetPodFromTemplate\<close> gives a pod that is not yet created (no phase) and has the template's spec.\<close>

definition fresh_pods :: "coreLib \<Rightarrow> bool" where
  "fresh_pods L \<longleftrightarrow> (\<forall>t m r. \<exists>p. lib_GetPodFromTemplate L t m r = Some p
      \<and> Phase (p_Status p) = [] \<and> DeletionTimestamp (p_Meta p) = None \<and> p_Spec p = t_Spec t)"

lemma fresh_podsE:
  assumes "fresh_pods L"
  obtains p where "lib_GetPodFromTemplate L t m r = Some p" "Phase (p_Status p) = []"
    "DeletionTimestamp (p_Meta p) = None" "p_Spec p = t_Spec t"
  using assms by (auto simp: fresh_pods_def) metis

text \<open>
  \<^verbatim>\<open>SortControllerRevisions\<close> sorts by \<open>Revision\<close> (ties are broken by other fields), and
  \<^verbatim>\<open>FindEqualRevisions\<close> keeps, in order, the revisions that \<^verbatim>\<open>EqualRevision\<close> relates to the given one.
\<close>

definition sorts_revisions :: "historyLib \<Rightarrow> bool" where
  "sorts_revisions H \<longleftrightarrow>
     (\<forall>rs. mset (lib_SortControllerRevisions H rs) = mset rs
        \<and> sorted_wrt (\<lambda>a b. sint (Revision a) \<le> sint (Revision b)) (lib_SortControllerRevisions H rs))"

definition finds_equal :: "historyLib \<Rightarrow> bool" where
  "finds_equal H \<longleftrightarrow> (\<forall>rs r. lib_FindEqualRevisions H rs r = filter (\<lambda>x. lib_EqualRevision H x r) rs)"

lemma sorts_revisions_set: "sorts_revisions H \<Longrightarrow> set (lib_SortControllerRevisions H rs) = set rs"
  by (metis sorts_revisions_def set_mset_mset)

end
