(* ===== verification/Util.thy ===== *)
theory Util
  imports Libraries
begin

text \<open>
  \<^verbatim>\<open>controllers/util.go\<close>: the update expectations (which in-place updates the controller still waits to
  see in its cache), the keys and the names of child objects. The interface \<^verbatim>\<open>UpdateExpectations\<close> is the
  locale \<open>update_expectations\<close>, stated on the set of pods still awaited for a revision; its
  interpretation \<open>real\<close> discharges the laws for \<^verbatim>\<open>realUpdateExpectations\<close>.
\<close>

section \<open>Keys and child names\<close>

definition getKey :: "objectMeta \<Rightarrow> string" where
  "getKey obj = Namespace obj @ ''/'' @ Name obj"

text \<open>\<^verbatim>\<open>GroupVersion\<close> of \<^verbatim>\<open>api/v1/groupversion_info.go\<close>.\<close>

definition GroupVersion_Group :: string where "GroupVersion_Group = ''nuwa.nip.io''"
definition GroupVersion_Version :: string where "GroupVersion_Version = ''v1''"

definition ownerReference_of :: "coreLib \<Rightarrow> objectMeta \<Rightarrow> string \<Rightarrow> ownerReference list" where
  "ownerReference_of L obj kindName =
     [lib_NewControllerRef L obj
        \<lparr>gvk_Group = GroupVersion_Group, gvk_Version = GroupVersion_Version, gvk_Kind = kindName\<rparr>]"

definition deploymentName :: "string \<Rightarrow> water \<Rightarrow> string" where
  "deploymentName coordName wts = Name (w_Meta wts) @ ''-'' @ ToLower coordName"

definition statefulSetName :: "stone \<Rightarrow> string \<Rightarrow> int \<Rightarrow> string" where
  "statefulSetName ste grp index =
     ToLower (Name (sn_Meta ste) @ ''-'' @ showInt index @ ''-'' @ grp)"

section \<open>Update expectations\<close>

record realControllerUpdateExpectations =
  exp_revision :: string
  objsUpdated :: "string set"

type_synonym controllerCache = "string \<rightharpoonup> realControllerUpdateExpectations"

definition NewUpdateExpectations :: controllerCache where
  "NewUpdateExpectations = Map.empty"

definition ExpectUpdated :: "string \<Rightarrow> string \<Rightarrow> objectMeta \<Rightarrow> controllerCache \<Rightarrow> controllerCache" where
  "ExpectUpdated controllerKey revision obj cache =
     (let expectations =
        (case cache controllerKey of
           None \<Rightarrow> \<lparr>exp_revision = revision, objsUpdated = {}\<rparr>
         | Some ex \<Rightarrow> if exp_revision ex \<noteq> revision
                     then \<lparr>exp_revision = revision, objsUpdated = {}\<rparr> else ex)
      in cache(controllerKey \<mapsto> expectations\<lparr>objsUpdated := insert (getKey obj) (objsUpdated expectations)\<rparr>))"

definition ObserveUpdated ::
  "(objectMeta \<Rightarrow> string) \<Rightarrow> string \<Rightarrow> string \<Rightarrow> objectMeta \<Rightarrow> controllerCache \<Rightarrow> controllerCache" where
  "ObserveUpdated getRevision controllerKey revision obj cache =
     (case cache controllerKey of
        None \<Rightarrow> cache
      | Some ex \<Rightarrow>
          let ex' = (if exp_revision ex = revision \<and> getKey obj \<in> objsUpdated ex \<and> getRevision obj = revision
                     then ex\<lparr>objsUpdated := objsUpdated ex - {getKey obj}\<rparr> else ex)
          in if exp_revision ex' \<noteq> revision \<or> objsUpdated ex' = {}
             then cache(controllerKey := None) else cache(controllerKey \<mapsto> ex'))"

definition SatisfiedExpectations :: "string \<Rightarrow> string \<Rightarrow> controllerCache \<Rightarrow> bool \<times> string list" where
  "SatisfiedExpectations controllerKey revision cache =
     (case cache controllerKey of
        None \<Rightarrow> (True, [])
      | Some ex \<Rightarrow>
          if exp_revision ex \<noteq> revision then (True, [])
          else (objsUpdated ex = {}, sorted_list_of_set (objsUpdated ex)))"

definition DeleteExpectations :: "string \<Rightarrow> controllerCache \<Rightarrow> controllerCache" where
  "DeleteExpectations controllerKey cache = cache(controllerKey := None)"

text \<open>The abstract view of a cache: the keys still awaited for a controller at a revision.\<close>

definition awaited :: "controllerCache \<Rightarrow> string \<Rightarrow> string \<Rightarrow> string set" where
  "awaited cache k r =
     (case cache k of None \<Rightarrow> {} | Some ex \<Rightarrow> if exp_revision ex = r then objsUpdated ex else {})"

section \<open>The interface and its implementation\<close>

locale update_expectations =
  fixes getRev :: "objectMeta \<Rightarrow> string"
    and expect :: "string \<Rightarrow> string \<Rightarrow> objectMeta \<Rightarrow> 'x \<Rightarrow> 'x"
    and observe :: "string \<Rightarrow> string \<Rightarrow> objectMeta \<Rightarrow> 'x \<Rightarrow> 'x"
    and satisfied :: "string \<Rightarrow> string \<Rightarrow> 'x \<Rightarrow> bool \<times> string list"
    and forget :: "string \<Rightarrow> 'x \<Rightarrow> 'x"
    and outstanding :: "'x \<Rightarrow> string \<Rightarrow> string \<Rightarrow> string set"
  assumes satisfied_iff: "fst (satisfied k r x) \<longleftrightarrow> outstanding x k r = {}"
    and outstanding_expect: "outstanding (expect k r p x) k' r' =
          (if k' \<noteq> k then outstanding x k' r'
           else if r' = r then insert (getKey p) (outstanding x k r) else {})"
    and outstanding_observe: "outstanding (observe k r p x) k' r' =
          (if k' \<noteq> k then outstanding x k' r'
           else if r' = r then outstanding x k r - (if getRev p = r then {getKey p} else {}) else {})"
    and outstanding_forget: "outstanding (forget k x) k' r' = (if k' = k then {} else outstanding x k' r')"
begin

lemma expect_not_satisfied: "\<not> fst (satisfied k r (expect k r p x))"
  by (simp add: satisfied_iff outstanding_expect)

lemma outstanding_observe_all:
  "outstanding (fold (observe k r) ps x) k r
     = outstanding x k r - getKey ` {p \<in> set ps. getRev p = r}"
  by (induction ps arbitrary: x) (auto simp: outstanding_observe)

lemma observe_all_other: "k' \<noteq> k \<Longrightarrow> outstanding (fold (observe k r) ps x) k' r' = outstanding x k' r'"
  by (induction ps arbitrary: x) (auto simp: outstanding_observe)

lemma satisfied_observe_all:
  "fst (satisfied k r (fold (observe k r) ps x))
     \<longleftrightarrow> outstanding x k r \<subseteq> getKey ` {p \<in> set ps. getRev p = r}"
  by (auto simp: satisfied_iff outstanding_observe_all)

end

lemma awaited_simps [simp]:
  "awaited (cache(k := None)) k' r = (if k' = k then {} else awaited cache k' r)"
  "awaited (cache(k \<mapsto> ex)) k' r =
     (if k' = k then (if exp_revision ex = r then objsUpdated ex else {}) else awaited cache k' r)"
  by (simp_all add: awaited_def)

interpretation real: update_expectations getRev ExpectUpdated "ObserveUpdated getRev"
    SatisfiedExpectations DeleteExpectations awaited
  for getRev
proof unfold_locales
  fix k r p x k' r'
  show "awaited (ExpectUpdated k r p x) k' r' =
      (if k' \<noteq> k then awaited x k' r'
       else if r' = r then insert (getKey p) (awaited x k r) else {})"
    by (auto simp: ExpectUpdated_def awaited_def Let_def split: option.splits if_splits)
  show "awaited (ObserveUpdated getRev k r p x) k' r' =
      (if k' \<noteq> k then awaited x k' r'
       else if r' = r then awaited x k r - (if getRev p = r then {getKey p} else {}) else {})"
    by (cases "k' = k") (auto simp: ObserveUpdated_def awaited_def Let_def split: option.splits)
  show "awaited (DeleteExpectations k x) k' r' = (if k' = k then {} else awaited x k' r')"
    by (simp add: DeleteExpectations_def)
qed (auto simp: SatisfiedExpectations_def awaited_def split: option.splits)

section \<open>Names\<close>

lemma showNat_lower [simp]: "ToLower (showNat n) = showNat n"
proof -
  have "lowerChar c = c" if "isDigit c" for c
    using that by (simp add: isDigit_def lowerChar_def Let_def)
  then show ?thesis by (simp add: ToLower_def map_idI showNat_digits)
qed

lemma dash_split:
  assumes "a @ CHR ''-'' # b = a' @ CHR ''-'' # b'" and "CHR ''-'' \<notin> set a" and "CHR ''-'' \<notin> set a'"
  shows "a = a' \<and> b = b'"
  using assms
proof (induction a arbitrary: a')
  case Nil
  then show ?case by (cases a') auto
next
  case (Cons x a)
  then show ?case by (cases a') auto
qed

lemma dash_notin_showNat [simp]: "CHR ''-'' \<notin> set (showNat n)"
  using showNat_digits [of "CHR ''-''" n] by auto

lemma lower_dash [simp]: "lowerChar (CHR ''-'') = CHR ''-''"
  by (simp add: lowerChar_def)

lemma statefulSetName_inj:
  assumes "statefulSetName ste g i = statefulSetName ste g' j" and "0 \<le> i" and "0 \<le> j"
  shows "i = j"
proof -
  from assms have "showNat (nat i) @ CHR ''-'' # ToLower g = showNat (nat j) @ CHR ''-'' # ToLower g'"
    by (simp add: statefulSetName_def showInt_def)
  then have "showNat (nat i) = showNat (nat j)"
    by (auto dest: dash_split)
  then have "nat i = nat j" by (metis readNat_showNat)
  with assms show ?thesis by simp
qed

section \<open>Properties\<close>

text \<open>
  C27. After an in-place update of an object is recorded and the controller has seen the objects \<open>ms\<close>, the
  expectations of that revision are satisfied exactly when every object awaited for it, the new one included, was
  seen with the revision.
\<close>

theorem expectations_satisfied:
  "fst (SatisfiedExpectations k r (fold (ObserveUpdated getRev k r) ms (ExpectUpdated k r m cache)))
     \<longleftrightarrow> insert (getKey m) (awaited cache k r) \<subseteq> getKey ` {x \<in> set ms. getRev x = r}"
  by (simp add: real.satisfied_observe_all real.outstanding_expect)

end
