(* ===== verification/Coordinate.thy ===== *)
theory Coordinate
  imports Util
begin

text \<open>
  \<^verbatim>\<open>api/v1/coordinate.go\<close> (comparison and difference of coordinates) and \<^verbatim>\<open>controllers/coordinator.go\<close> (the
  local coordinators of a Water and the node affinity a coordinate stands for).
\<close>

section \<open>Comparing coordinates\<close>

definition NuwaZoneFlag :: string where "NuwaZoneFlag = ''nuwa.kubernetes.io/zone''"
definition NuwaRackFlag :: string where "NuwaRackFlag = ''nuwa.kubernetes.io/rack''"
definition NuwaHostFlag :: string where "NuwaHostFlag = ''nuwa.kubernetes.io/host''"
definition NuwaLimitFlag :: string where
  "NuwaLimitFlag = ''nuwa.kubernetes.io/default_resource_limit''"

lemmas flag_defs = NuwaZoneFlag_def NuwaRackFlag_def NuwaHostFlag_def NuwaLimitFlag_def

definition Equal :: "coordinate \<Rightarrow> coordinate \<Rightarrow> bool" where
  "Equal c c1 =
     (if Zone c \<noteq> Zone c1 then False
      else if Rack c \<noteq> Rack c1 then False
      else if Host c \<noteq> Host c1 then False
      else True)"

text \<open>The \<^verbatim>\<open>sort.Interface\<close> of \<^verbatim>\<open>Coordinates\<close>; an index out of range panics.\<close>

definition Coordinates_Len :: "coordinates \<Rightarrow> int" where
  "Coordinates_Len c = int (length c)"

definition Coordinates_Less :: "coordinates \<Rightarrow> nat \<Rightarrow> nat \<Rightarrow> bool option" where
  "Coordinates_Less c i j =
     (if Coordinates_Len c \<le> 1 then Some False
      else if length c \<le> i \<or> length c \<le> j then None
      else if Zone (c ! j) \<le> Zone (c ! i) then Some False
      else Some True)"

definition Coordinates_Swap :: "coordinates \<Rightarrow> nat \<Rightarrow> nat \<Rightarrow> coordinates option" where
  "Coordinates_Swap c i j =
     (if length c \<le> i \<or> length c \<le> j then None else Some (c[i := c ! j, j := c ! i]))"

fun found :: "coordinate \<Rightarrow> coordinates \<Rightarrow> bool" where
  "found s1 [] = False"
| "found s1 (s2 # sl2) = (if Equal s1 s2 then True else found s1 sl2)"

fun diffLoop :: "coordinates \<Rightarrow> coordinates \<Rightarrow> coordinates \<Rightarrow> coordinates" where
  "diffLoop [] sl2 diff = diff"
| "diffLoop (s1 # sl1) sl2 diff =
     diffLoop sl1 sl2 (if \<not> found s1 sl2 then diff @ [s1] else diff)"

definition Difference :: "coordinates \<Rightarrow> coordinates \<Rightarrow> coordinates" where
  "Difference sl1 sl2 = diffLoop sl2 sl1 (diffLoop sl1 sl2 [])"

fun In :: "coordinates \<Rightarrow> coordinate \<Rightarrow> bool" where
  "In [] c = False"
| "In (s # ss) c = (if Equal s c then True else In ss c)"

section \<open>Coordinators\<close>

definition coordinateName :: "coordinate \<Rightarrow> string" where
  "coordinateName c = Zone c @ ''-'' @ Rack c"

definition requirement :: "string \<Rightarrow> string list \<Rightarrow> nodeSelectorRequirement" where
  "requirement k vs = \<lparr>nsr_Key = k, nsr_Operator = NodeSelectorOpIn, nsr_Values = vs\<rparr>"

definition organizationNodeAffinity :: "coordinate \<Rightarrow> nodeAffinity" where
  "organizationNodeAffinity c =
     (let reqs = [requirement NuwaZoneFlag [Zone c]];
          reqs = (if Rack c \<noteq> [] then reqs @ [requirement NuwaRackFlag [Rack c]] else reqs);
          reqs = (if Host c \<noteq> [] then reqs @ [requirement NuwaHostFlag [Host c]] else reqs)
      in \<lparr>RequiredTerms = Some [[requirement NuwaZoneFlag [Zone c]]],
          PreferredTerms = [\<lparr>Weight = 100, Preference = reqs\<rparr>]\<rparr>)"

record coordinator =
  Index :: int
  co_Name :: string
  Coordinate :: coordinate
  co_NodeAffinity :: nodeAffinity

definition newLocalCoordinate :: "int \<Rightarrow> coordinate \<Rightarrow> coordinator" where
  "newLocalCoordinate index c =
     \<lparr>Index = index, co_Name = coordinateName c, Coordinate = c,
      co_NodeAffinity = organizationNodeAffinity c\<rparr>"

fun makeLocalCoordinates_from :: "int \<Rightarrow> coordinates \<Rightarrow> coordinator list" where
  "makeLocalCoordinates_from index [] = []"
| "makeLocalCoordinates_from index (item # items) =
     newLocalCoordinate index item # makeLocalCoordinates_from (index + 1) items"

definition makeLocalCoordinates :: "coordinates \<Rightarrow> coordinator list" where
  "makeLocalCoordinates cs = makeLocalCoordinates_from 0 cs"

section \<open>Facts\<close>

definition place :: "coordinate \<Rightarrow> string \<times> string \<times> string" where
  "place c = (Zone c, Rack c, Host c)"

lemma Equal_place [simp]: "Equal c d \<longleftrightarrow> place c = place d"
  by (auto simp: Equal_def place_def)

lemma found_iff [simp]: "found c ds \<longleftrightarrow> place c \<in> place ` set ds"
  by (induction ds) auto

lemma In_iff [simp]: "In ds c \<longleftrightarrow> place c \<in> place ` set ds"
  by (induction ds) auto

lemma diffLoop_filter: "diffLoop a b acc = acc @ filter (\<lambda>c. place c \<notin> place ` set b) a"
  by (induction a arbitrary: acc) auto

lemma Difference_filter:
  "Difference a b = filter (\<lambda>c. place c \<notin> place ` set b) a @ filter (\<lambda>c. place c \<notin> place ` set a) b"
  by (simp add: Difference_def diffLoop_filter)

lemma makeLocalCoordinates_from_eq:
  "makeLocalCoordinates_from k cs
     = map (\<lambda>i. newLocalCoordinate (k + int i) (cs ! i)) [0..<length cs]"
proof (induction cs arbitrary: k)
  case Nil
  then show ?case by simp
next
  case (Cons c cs)
  have "[0..<length (c # cs)] = 0 # map Suc [0..<length cs]"
    by (simp add: map_Suc_upt upt_conv_Cons del: upt_Suc)
  with Cons show ?case by (simp add: algebra_simps comp_def del: upt_Suc)
qed

section \<open>Properties\<close>

text \<open>
  \<open>Difference\<close> is the symmetric difference of two lists of coordinates up to their replicas: a coordinate is in
  it exactly when it is in one list and no coordinate of the same zone, rack and host is in the other; so it is
  empty exactly when both name the same places.
\<close>

theorem Difference_symmetric:
  "set (Difference a b) = {c \<in> set a. \<not> In b c} \<union> {c \<in> set b. \<not> In a c}
     \<and> (Difference a b = [] \<longleftrightarrow> place ` set a = place ` set b)"
  by (auto simp: Difference_filter filter_empty_conv)

end
