(* ===== verification/Client.thy ===== *)
theory Client
  imports Util
begin

text \<open>
  The cluster seen through \<^verbatim>\<open>sigs.k8s.io/controller-runtime\<close>'s \<^verbatim>\<open>client.Client\<close>. The API server is a
  parameter: one function that answers a call and moves to a next state of the outside world, of an
  arbitrary type \<open>'w\<close>. As that function may change the world in any way at every call, all other actors
  of the cluster (kubelets, users, other controllers) interleave with the controller's steps.

  The controller's own state is the record \<open>sys\<close>: the world, the trace of the calls issued so far with
  their replies, the events sent to the recorder, and the global \<^verbatim>\<open>updateExpectations\<close>. The trace is what
  the properties about ordering and about what is (not) written speak of.
\<close>

section \<open>Calls, replies and the controller's state\<close>

datatype kind = PodK | PvcK | RevK | SetK | SvcK | DeployK | WaterK | StoneK | InjK | NsK

datatype obj =
    PodObj pod
  | PvcObj persistentVolumeClaim
  | RevObj controllerRevision
  | SetObj statefulSet
  | SvcObj service
  | DeployObj deployment
  | WaterObj water
  | StoneObj stone
  | InjObj injector
  | NsObj namespaceObj

datatype call =
    GetCall kind objectKey
  | ListCall kind string "labelSelector option option"
  | CreateCall obj
  | UpdateCall obj
  | StatusUpdateCall obj
  | DeleteCall obj
  | PatchCall obj bytes

datatype reply = Fail error | Got obj | Listed "obj list" | Done

record eventRecord =
  ev_Type :: string
  ev_Reason :: string
  ev_Message :: string

record 'w sys =
  world :: 'w
  trace :: "(call \<times> reply) list"
  events :: "eventRecord list"
  expectations :: controllerCache

record 'w k8s =
  api :: "call \<Rightarrow> 'w \<Rightarrow> reply \<times> 'w"
  clock :: "'w \<Rightarrow> time"
  core :: coreLib
  hist :: historyLib
  codec :: codecLib

definition request :: "'w k8s \<Rightarrow> call \<Rightarrow> 'w sys \<Rightarrow> reply \<times> 'w sys" where
  "request e c s =
     (let (r, w) = api e c (world s) in (r, s\<lparr>world := w, trace := trace s @ [(c, r)]\<rparr>))"

definition recordEvent :: "string \<Rightarrow> string \<Rightarrow> string \<Rightarrow> 'w sys \<Rightarrow> 'w sys" where
  "recordEvent ty reason msg s =
     s\<lparr>events := events s @ [\<lparr>ev_Type = ty, ev_Reason = reason, ev_Message = msg\<rparr>]\<rparr>"

section \<open>The client's methods\<close>

text \<open>
  A successful \<^verbatim>\<open>Create\<close>, \<^verbatim>\<open>Update\<close> or \<^verbatim>\<open>Status().Update\<close> overwrites the object it was given with the
  server's answer; a failed one leaves it alone. \<^verbatim>\<open>Delete\<close> never writes to its argument.
\<close>

definition clientWrite :: "'w k8s \<Rightarrow> call \<Rightarrow> 'w sys \<Rightarrow> error option \<times> obj option \<times> 'w sys" where
  "clientWrite e c s =
     (case request e c s of
        (Fail x, s') \<Rightarrow> (Some x, None, s')
      | (Got y, s') \<Rightarrow> (None, Some y, s')
      | (_, s') \<Rightarrow> (None, None, s'))"

definition clientGet :: "'w k8s \<Rightarrow> kind \<Rightarrow> objectKey \<Rightarrow> 'w sys \<Rightarrow> (error + obj) \<times> 'w sys" where
  "clientGet e k key s =
     (case request e (GetCall k key) s of
        (Got y, s') \<Rightarrow> (Inr y, s')
      | (Fail x, s') \<Rightarrow> (Inl x, s')
      | (_, s') \<Rightarrow> (Inl (Errorf ''malformed reply''), s'))"

definition clientList ::
  "'w k8s \<Rightarrow> kind \<Rightarrow> string \<Rightarrow> labelSelector option option \<Rightarrow> 'w sys \<Rightarrow> (error + obj list) \<times> 'w sys" where
  "clientList e k ns sel s =
     (case request e (ListCall k ns sel) s of
        (Listed ys, s') \<Rightarrow> (Inr ys, s')
      | (Fail x, s') \<Rightarrow> (Inl x, s')
      | (_, s') \<Rightarrow> (Inl (Errorf ''malformed reply''), s'))"

text \<open>Decoding into the type the caller asked for.\<close>

definition badKind :: "error + 'a" where "badKind = Inl (Errorf ''malformed reply'')"

fun asPod :: "obj \<Rightarrow> error + pod" where "asPod (PodObj p) = Inr p" | "asPod _ = badKind"
fun asPvc :: "obj \<Rightarrow> error + persistentVolumeClaim" where "asPvc (PvcObj p) = Inr p" | "asPvc _ = badKind"
fun asRev :: "obj \<Rightarrow> error + controllerRevision" where "asRev (RevObj p) = Inr p" | "asRev _ = badKind"
fun asSet :: "obj \<Rightarrow> error + statefulSet" where "asSet (SetObj p) = Inr p" | "asSet _ = badKind"
fun asSvc :: "obj \<Rightarrow> error + service" where "asSvc (SvcObj p) = Inr p" | "asSvc _ = badKind"
fun asDeploy :: "obj \<Rightarrow> error + deployment" where "asDeploy (DeployObj p) = Inr p" | "asDeploy _ = badKind"
fun asWater :: "obj \<Rightarrow> error + water" where "asWater (WaterObj p) = Inr p" | "asWater _ = badKind"
fun asStone :: "obj \<Rightarrow> error + stone" where "asStone (StoneObj p) = Inr p" | "asStone _ = badKind"
fun asInj :: "obj \<Rightarrow> error + injector" where "asInj (InjObj p) = Inr p" | "asInj _ = badKind"
fun asNs :: "obj \<Rightarrow> error + namespaceObj" where "asNs (NsObj p) = Inr p" | "asNs _ = badKind"

definition getAs ::
  "(obj \<Rightarrow> error + 'a) \<Rightarrow> 'w k8s \<Rightarrow> kind \<Rightarrow> objectKey \<Rightarrow> 'w sys \<Rightarrow> (error + 'a) \<times> 'w sys" where
  "getAs dec e k key s =
     (case clientGet e k key s of (Inl x, s') \<Rightarrow> (Inl x, s') | (Inr y, s') \<Rightarrow> (dec y, s'))"

definition writeAs ::
  "(obj \<Rightarrow> error + 'a) \<Rightarrow> 'w k8s \<Rightarrow> call \<Rightarrow> 'a \<Rightarrow> 'w sys \<Rightarrow> error option \<times> 'a \<times> 'w sys" where
  "writeAs dec e c x s =
     (let (err, y, s') = clientWrite e c s
      in (err, (case y of None \<Rightarrow> x | Some z \<Rightarrow> (case dec z of Inl _ \<Rightarrow> x | Inr x' \<Rightarrow> x')), s'))"

section \<open>Retrying on conflicts\<close>

text \<open>
  \<^verbatim>\<open>retry.RetryOnConflict(backoff, fn)\<close> runs the closure once and then again while it fails and the
  library says so, at most \<^verbatim>\<open>backoff.Steps\<close> times in all. The closure's captured variables and the
  controller's state are its state \<open>'s\<close>.
\<close>

fun retrying ::
  "coreLib \<Rightarrow> nat \<Rightarrow> nat \<Rightarrow> ('s \<Rightarrow> (error option \<times> 's) option) \<Rightarrow> 's \<Rightarrow> (error option \<times> 's) option" where
  "retrying L k 0 f s = f s"
| "retrying L k (Suc n) f s =
     (case f s of
        None \<Rightarrow> None
      | Some (None, s') \<Rightarrow> Some (None, s')
      | Some (Some x, s') \<Rightarrow>
          if lib_RetryAgain L k x then retrying L (Suc k) n f s' else Some (Some x, s'))"

definition RetryOnConflict ::
  "coreLib \<Rightarrow> nat \<Rightarrow> ('s \<Rightarrow> (error option \<times> 's) option) \<Rightarrow> 's \<Rightarrow> (error option \<times> 's) option" where
  "RetryOnConflict L steps f s = retrying L 0 (steps - 1) f s"

lemma retrying_inv:
  assumes "\<And>s err s'. I s \<Longrightarrow> f s = Some (err, s') \<Longrightarrow> I s'"
    and "I s" and "retrying L k n f s = Some (err, s')"
  shows "I s' \<and> (\<exists>t. I t \<and> f t = Some (err, s'))"
  using assms(2,3)
proof (induction n arbitrary: k s)
  case 0
  then show ?case using assms(1) by auto
next
  case (Suc n)
  from Suc.prems(2) obtain err1 s1 where f: "f s = Some (err1, s1)"
    by (auto split: option.splits prod.splits)
  with assms(1) Suc.prems(1) have "I s1" by blast
  with f Suc show ?case by (fastforce split: option.splits if_splits)
qed

lemma retrying_returns:
  assumes "\<And>s. I s \<Longrightarrow> \<exists>err s'. f s = Some (err, s') \<and> I s'" and "I s"
  shows "\<exists>err s'. retrying L k n f s = Some (err, s')"
  using assms(2)
proof (induction n arbitrary: k s)
  case 0
  with assms(1) show ?case by fastforce
next
  case (Suc n)
  from assms(1) [OF Suc.prems] obtain err1 s1 where "f s = Some (err1, s1)" "I s1" by blast
  with Suc.IH [of s1] show ?case by (cases err1) auto
qed

lemma RetryOnConflict_inv:
  assumes "RetryOnConflict L steps f s = Some (err, s')" and "I s"
    and "\<And>s err s'. I s \<Longrightarrow> f s = Some (err, s') \<Longrightarrow> I s'"
  shows "I s'"
  using retrying_inv [of I f s L 0 "steps - 1" err s'] assms by (auto simp: RetryOnConflict_def)

lemma RetryOnConflict_last:
  assumes "RetryOnConflict L steps f s = Some (err, s')" and "I s"
    and "\<And>s err s'. I s \<Longrightarrow> f s = Some (err, s') \<Longrightarrow> I s'"
  obtains t where "I t" "f t = Some (err, s')"
  using retrying_inv [of I f s L 0 "steps - 1" err s'] assms by (auto simp: RetryOnConflict_def)

lemma RetryOnConflict_returns [wf_intros]:
  assumes "I s" and "\<And>s. I s \<Longrightarrow> \<exists>err s'. f s = Some (err, s') \<and> I s'"
  shows "\<exists>err s'. RetryOnConflict L steps f s = Some (err, s')"
  using retrying_returns [of I f s L 0 "steps - 1"] assms by (auto simp: RetryOnConflict_def)

lemma RetryOnConflict_first:
  assumes "f s = Some (None, s')"
  shows "RetryOnConflict L steps f s = Some (None, s')"
  using assms by (cases "steps - 1") (auto simp: RetryOnConflict_def)

text \<open>The closure runs again only after it failed, so what success establishes need not be kept.\<close>

lemma retrying_until:
  assumes "\<And>s x s'. I s \<Longrightarrow> f s = Some (Some x, s') \<Longrightarrow> I s'" and "\<And>s s'. I s \<Longrightarrow> f s = Some (None, s') \<Longrightarrow> Q s'"
    and "I s" and "retrying L k n f s = Some (err, s')"
  shows "case err of None \<Rightarrow> Q s' | Some x \<Rightarrow> I s'"
  using assms(3,4)
proof (induction n arbitrary: k s)
  case 0
  then show ?case using assms(1,2) by (auto split: option.splits)
next
  case (Suc n)
  from Suc.prems(2) obtain err1 s1 where f: "f s = Some (err1, s1)" by (auto split: option.splits)
  show ?case
  proof (cases err1)
    case None
    with f Suc.prems assms(2) show ?thesis by auto
  next
    case (Some x)
    with f Suc.prems(1) assms(1) have "I s1" by blast
    with f Some Suc.prems(2) Suc.IH [of s1 "Suc k"] show ?thesis by (auto split: if_splits)
  qed
qed

lemma RetryOnConflict_until:
  assumes "RetryOnConflict L steps f s = Some (err, s')" and "I s"
    and "\<And>s x s'. I s \<Longrightarrow> f s = Some (Some x, s') \<Longrightarrow> I s'" and "\<And>s s'. I s \<Longrightarrow> f s = Some (None, s') \<Longrightarrow> Q s'"
  shows "case err of None \<Rightarrow> Q s' | Some x \<Rightarrow> I s'"
  using retrying_until [of I f Q s L 0 "steps - 1" err s'] assms by (auto simp: RetryOnConflict_def)

lemma RetryOnConflict_once:
  assumes "retries_conflicts L" and "f s = Some (err, s')" and "err \<noteq> Some Conflict"
  shows "RetryOnConflict L steps f s = Some (err, s')"
  using assms by (cases "steps - 1"; cases err) (auto simp: RetryOnConflict_def retries_conflicts_def)

text \<open>Only a conflict makes the closure run again: \<open>I\<close> holds whenever it starts, \<open>Q\<close> whenever it ends.\<close>

lemma retrying_conflicts:
  assumes "retries_conflicts L" and "\<And>s s'. I s \<Longrightarrow> f s = Some (Some Conflict, s') \<Longrightarrow> I s'"
    and "\<And>s err s'. I s \<Longrightarrow> f s = Some (err, s') \<Longrightarrow> Q err s'" and "I s" and "retrying L k n f s = Some (err, s')"
  shows "Q err s'"
  using assms(4,5)
proof (induction n arbitrary: k s)
  case 0
  then show ?case using assms(3) by auto
next
  case (Suc n)
  from Suc.prems(2) obtain err1 s1 where f: "f s = Some (err1, s1)" by (auto split: option.splits)
  show ?case
  proof (cases "err1 = Some Conflict \<and> lib_RetryAgain L k Conflict")
    case True
    with f Suc.prems(1) assms(2) have "I s1" by blast
    with f True Suc.prems(2) Suc.IH [of s1 "Suc k"] show ?thesis by auto
  next
    case False
    with assms(1) have "\<not> lib_RetryAgain L k x" if "err1 = Some x" for x
      using that by (cases "x = Conflict") (simp_all add: retries_conflicts_def)
    with f Suc.prems(2) have "err = err1 \<and> s' = s1" by (auto split: option.splits)
    with f Suc.prems(1) assms(3) show ?thesis by blast
  qed
qed

lemma RetryOnConflict_conflicts:
  assumes "retries_conflicts L" and "RetryOnConflict L steps f s = Some (err, s')" and "I s"
    and "\<And>s s'. I s \<Longrightarrow> f s = Some (Some Conflict, s') \<Longrightarrow> I s'"
    and "\<And>s err s'. I s \<Longrightarrow> f s = Some (err, s') \<Longrightarrow> Q err s'"
  shows "Q err s'"
  using retrying_conflicts [of L I f Q s 0 "steps - 1" err s'] assms by (auto simp: RetryOnConflict_def)

section \<open>Observing the trace\<close>

text \<open>
  \<open>issues s cs s'\<close>: between \<open>s\<close> and \<open>s'\<close> the controller issued exactly the calls \<open>cs\<close>. \<open>podSteps s ops s'\<close>
  keeps of them the writes to pods, by the key of the pod.
\<close>

definition issues :: "'w sys \<Rightarrow> (call \<times> reply) list \<Rightarrow> 'w sys \<Rightarrow> bool" where
  "issues s cs s' \<longleftrightarrow> trace s' = trace s @ cs"

datatype podOp =
    PodCreate objectKey
  | PodDelete objectKey
  | PodUpdate objectKey
  | PodStatus objectKey
  | PodPatch objectKey

fun podOpOf :: "call \<Rightarrow> podOp list" where
  "podOpOf (CreateCall (PodObj p)) = [PodCreate (podKey p)]"
| "podOpOf (UpdateCall (PodObj p)) = [PodUpdate (podKey p)]"
| "podOpOf (StatusUpdateCall (PodObj p)) = [PodStatus (podKey p)]"
| "podOpOf (DeleteCall (PodObj p)) = [PodDelete (podKey p)]"
| "podOpOf (PatchCall (PodObj p) d) = [PodPatch (podKey p)]"
| "podOpOf _ = []"

fun podWrites :: "(call \<times> reply) list \<Rightarrow> podOp list" where
  "podWrites [] = []"
| "podWrites ((c, r) # cs) = podOpOf c @ podWrites cs"

definition podSteps :: "'w sys \<Rightarrow> podOp list \<Rightarrow> 'w sys \<Rightarrow> bool" where
  "podSteps s ops s' \<longleftrightarrow> (\<exists>cs. issues s cs s' \<and> podWrites cs = ops)"

text \<open>\<open>onlyCalls P s s'\<close>: every call issued between \<open>s\<close> and \<open>s'\<close> satisfies \<open>P\<close>.\<close>

definition onlyCalls :: "(call \<Rightarrow> bool) \<Rightarrow> 'w sys \<Rightarrow> 'w sys \<Rightarrow> bool" where
  "onlyCalls P s s' \<longleftrightarrow> (\<exists>cs. issues s cs s' \<and> list_all (P \<circ> fst) cs)"

fun isRead :: "call \<Rightarrow> bool" where
  "isRead (GetCall k key) = True"
| "isRead (ListCall k ns sel) = True"
| "isRead _ = False"

lemma podWrites_append [simp]: "podWrites (a @ b) = podWrites a @ podWrites b"
  by (induction a rule: podWrites.induct) auto

lemma issues_refl [simp, intro]: "issues s [] s"
  by (simp add: issues_def)

lemma issues_trans: "issues s a s' \<Longrightarrow> issues s' b s'' \<Longrightarrow> issues s (a @ b) s''"
  by (simp add: issues_def)

lemma issues_det: "issues s a s' \<Longrightarrow> issues s b s' \<Longrightarrow> a = b"
  by (simp add: issues_def)

lemma podSteps_refl [simp, intro]: "podSteps s [] s"
  by (auto simp: podSteps_def)

lemma podSteps_trans: "podSteps s a s' \<Longrightarrow> podSteps s' b s'' \<Longrightarrow> podSteps s (a @ b) s''"
  by (auto simp: podSteps_def intro: issues_trans)

lemma podSteps_trans0: "podSteps s a s' \<Longrightarrow> podSteps s' [] s'' \<Longrightarrow> podSteps s a s''"
  using podSteps_trans [of s a s' "[]" s''] by simp

lemma podSteps_det: "podSteps s a s' \<Longrightarrow> podSteps s b s' \<Longrightarrow> a = b"
  by (auto simp: podSteps_def dest: issues_det)

lemma onlyCalls_refl [simp, intro]: "onlyCalls P s s"
  by (auto simp: onlyCalls_def intro!: exI [of _ "[]"])

lemma onlyCalls_trans: "onlyCalls P s s' \<Longrightarrow> onlyCalls P s' s'' \<Longrightarrow> onlyCalls P s s''"
  unfolding onlyCalls_def by (metis issues_trans list_all_append)

lemma onlyCalls_mono: "onlyCalls P s s' \<Longrightarrow> (\<And>c. P c \<Longrightarrow> Q c) \<Longrightarrow> onlyCalls Q s s'"
  by (auto simp: onlyCalls_def list_all_iff)

lemma podSteps_onlyCalls:
  assumes "onlyCalls (\<lambda>c. podOpOf c = []) s s'" shows "podSteps s [] s'"
proof -
  have "list_all (\<lambda>x. podOpOf (fst x) = []) cs \<Longrightarrow> podWrites cs = []" for cs
    by (induction cs rule: podWrites.induct) auto
  with assms show ?thesis by (auto simp: onlyCalls_def podSteps_def comp_def)
qed

lemma issues_frame [simp]:
  "issues s cs (recordEvent ty re msg s') = issues s cs s'"
  "issues s cs (s'\<lparr>expectations := x\<rparr>) = issues s cs s'"
  "issues (recordEvent ty re msg s) cs s' = issues s cs s'"
  "issues (s\<lparr>expectations := x\<rparr>) cs s' = issues s cs s'"
  by (simp_all add: issues_def recordEvent_def)

lemma podSteps_frame [simp]:
  "podSteps s ops (recordEvent ty re msg s') = podSteps s ops s'"
  "podSteps s ops (s'\<lparr>expectations := x\<rparr>) = podSteps s ops s'"
  "podSteps (recordEvent ty re msg s) ops s' = podSteps s ops s'"
  "podSteps (s\<lparr>expectations := x\<rparr>) ops s' = podSteps s ops s'"
  by (simp_all add: podSteps_def)

lemma onlyCalls_frame [simp]:
  "onlyCalls P s (recordEvent ty re msg s') = onlyCalls P s s'"
  "onlyCalls P s (s'\<lparr>expectations := x\<rparr>) = onlyCalls P s s'"
  "onlyCalls P (recordEvent ty re msg s) s' = onlyCalls P s s'"
  "onlyCalls P (s\<lparr>expectations := x\<rparr>) s' = onlyCalls P s s'"
  by (simp_all add: onlyCalls_def)

text \<open>What each method of the client issues.\<close>

lemma request_issues: "request e c s = (r, s') \<Longrightarrow> issues s [(c, r)] s'"
  by (auto simp: request_def issues_def split: prod.splits)

lemma request_expectations: "request e c s = (r, s') \<Longrightarrow> expectations s' = expectations s"
  by (auto simp: request_def split: prod.splits)

lemma clientWrite_issues:
  "clientWrite e c s = (err, y, s') \<Longrightarrow> \<exists>r. issues s [(c, r)] s' \<and> expectations s' = expectations s"
  by (auto simp: clientWrite_def split: prod.splits reply.splits
      dest: request_issues request_expectations)

lemma clientGet_issues:
  "clientGet e k key s = (x, s') \<Longrightarrow> \<exists>r. issues s [(GetCall k key, r)] s' \<and> expectations s' = expectations s"
  by (auto simp: clientGet_def split: prod.splits reply.splits dest: request_issues request_expectations)

lemma clientList_issues:
  "clientList e k ns sel s = (x, s') \<Longrightarrow>
     \<exists>r. issues s [(ListCall k ns sel, r)] s' \<and> expectations s' = expectations s"
  by (auto simp: clientList_def split: prod.splits reply.splits dest: request_issues request_expectations)

lemma getAs_issues:
  "getAs dec e k key s = (x, s') \<Longrightarrow> \<exists>r. issues s [(GetCall k key, r)] s' \<and> expectations s' = expectations s"
  by (auto simp: getAs_def split: prod.splits sum.splits dest: clientGet_issues)

lemma writeAs_issues:
  "writeAs dec e c x s = (err, y, s') \<Longrightarrow> \<exists>r. issues s [(c, r)] s' \<and> expectations s' = expectations s"
  by (auto simp: writeAs_def split: prod.splits dest: clientWrite_issues)

lemma getAs_Got:
  "getAs dec e k key s = (Inr x, s') \<Longrightarrow> \<exists>y. issues s [(GetCall k key, Got y)] s'"
  by (auto simp: getAs_def clientGet_def split: prod.splits sum.splits reply.splits dest: request_issues)

lemma writeAs_ok:
  "writeAs dec e c x s = (None, y, s') \<Longrightarrow> \<exists>r. issues s [(c, r)] s' \<and> (\<forall>err. r \<noteq> Fail err)"
  by (auto simp: writeAs_def clientWrite_def split: prod.splits reply.splits dest!: request_issues)

lemma getAs_podSteps [call_simps]: "getAs dec e k key s = (x, s') \<Longrightarrow> podSteps s [] s'"
  by (drule getAs_issues) (auto simp: podSteps_def)

lemma writeAs_podSteps [call_simps]: "writeAs dec e c x s = (err, y, s') \<Longrightarrow> podSteps s (podOpOf c) s'"
  by (drule writeAs_issues) (force simp: podSteps_def)

lemma clientList_podSteps [call_simps]: "clientList e k ns sel s = (x, s') \<Longrightarrow> podSteps s [] s'"
  by (drule clientList_issues) (auto simp: podSteps_def)

lemma getAs_onlyCalls: "getAs dec e k key s = (x, s') \<Longrightarrow> P (GetCall k key) \<Longrightarrow> onlyCalls P s s'"
  by (drule getAs_issues) (force simp: onlyCalls_def)

lemma writeAs_onlyCalls: "writeAs dec e c x s = (err, y, s') \<Longrightarrow> P c \<Longrightarrow> onlyCalls P s s'"
  by (drule writeAs_issues) (force simp: onlyCalls_def)

lemma clientList_onlyCalls: "clientList e k ns sel s = (x, s') \<Longrightarrow> P (ListCall k ns sel) \<Longrightarrow> onlyCalls P s s'"
  by (drule clientList_issues) (force simp: onlyCalls_def)

text \<open>\<open>does s ops s'\<close>: the pods written are \<open>ops\<close>, in this order, and the expectations are untouched.\<close>

definition does :: "'w sys \<Rightarrow> podOp list \<Rightarrow> 'w sys \<Rightarrow> bool" where
  "does s ops s' \<longleftrightarrow> podSteps s ops s' \<and> expectations s' = expectations s"

lemma does_refl [simp, intro]: "does s [] s"
  by (simp add: does_def)

lemma does_trans: "does s a s' \<Longrightarrow> does s' b s'' \<Longrightarrow> does s (a @ b) s''"
  by (auto simp: does_def intro: podSteps_trans)

lemma does_nothing_trans: "does s [] s' \<Longrightarrow> does s' b s'' \<Longrightarrow> does s b s''"
  using does_trans [of s "[]" s' b s''] by simp

lemma does_trans_nothing: "does s a s' \<Longrightarrow> does s' [] s'' \<Longrightarrow> does s a s''"
  using does_trans [of s a s' "[]" s''] by simp

lemma does_recordEvent [simp]:
  "does s ops (recordEvent ty re msg s') = does s ops s'"
  "does (recordEvent ty re msg s) ops s' = does s ops s'"
  by (simp_all add: does_def recordEvent_def podSteps_def issues_def)

lemma does_getAs: "getAs dec e k key s = (x, s') \<Longrightarrow> does s [] s'"
  by (auto simp: does_def dest: getAs_podSteps getAs_issues)

lemma does_writeAs: "writeAs dec e c x s = (err, y, s') \<Longrightarrow> does s (podOpOf c) s'"
  by (auto simp: does_def dest: writeAs_podSteps writeAs_issues)

lemma does_clientList: "clientList e k ns sel s = (x, s') \<Longrightarrow> does s [] s'"
  by (auto simp: does_def dest: clientList_podSteps clientList_issues)

lemma does_clientWrite: "clientWrite e c s = (err, y, s') \<Longrightarrow> does s (podOpOf c) s'"
  by (drule clientWrite_issues) (force simp: does_def podSteps_def)

lemmas does_intros = does_getAs does_writeAs does_clientList does_clientWrite

section \<open>Calls justified by what came before\<close>

text \<open>
  \<open>justified J s s'\<close>: every call issued between \<open>s\<close> and \<open>s'\<close> stands in the relation \<open>J\<close> to the whole trace before
  it. \<open>justAfter en h\<close>: the last entry of the trace is \<open>en\<close>.
\<close>

definition justified :: "((call \<times> reply) list \<Rightarrow> call \<Rightarrow> bool) \<Rightarrow> 'w sys \<Rightarrow> 'w sys \<Rightarrow> bool" where
  "justified J s s' \<longleftrightarrow>
     (\<exists>cs. issues s cs s' \<and> (\<forall>i < length cs. J (trace s @ take i cs) (fst (cs ! i))))"

definition justAfter :: "call \<times> reply \<Rightarrow> (call \<times> reply) list \<Rightarrow> bool" where
  "justAfter en h \<longleftrightarrow> h \<noteq> [] \<and> last h = en"

lemma justAfter_issues: "issues s [en] s' \<Longrightarrow> justAfter en (trace s')"
  by (simp add: justAfter_def issues_def)

lemma justified_history: "justified J s s' \<Longrightarrow> set (trace s) \<subseteq> set (trace s')"
  by (auto simp: justified_def issues_def)

lemma justified_refl [simp, intro]: "justified J s s"
  by (auto simp: justified_def intro: exI [of _ "[]"])

lemma justified_trans:
  assumes "justified J s s'" and "justified J s' s''" shows "justified J s s''"
proof -
  from assms obtain a b where a: "issues s a s'" "\<forall>i < length a. J (trace s @ take i a) (fst (a ! i))"
    and b: "issues s' b s''" "\<forall>i < length b. J (trace s' @ take i b) (fst (b ! i))"
    by (auto simp: justified_def)
  have "J (trace s @ take i (a @ b)) (fst ((a @ b) ! i))" if "i < length (a @ b)" for i
  proof (cases "i < length a")
    case True
    with a(2) show ?thesis by (simp add: nth_append)
  next
    case False
    with that b(2) [rule_format, of "i - length a"] a(1) show ?thesis by (simp add: nth_append issues_def)
  qed
  with issues_trans [OF a(1) b(1)] show ?thesis by (auto simp: justified_def)
qed

lemma justified_issues: "issues s [(c, r)] s' \<Longrightarrow> J (trace s) c \<Longrightarrow> justified J s s'"
  by (auto simp: justified_def intro: exI [of _ "[(c, r)]"])

lemma justified_getAs: "getAs dec e k key s = (x, s') \<Longrightarrow> J (trace s) (GetCall k key) \<Longrightarrow> justified J s s'"
  by (auto dest!: getAs_issues intro: justified_issues)

lemma justified_writeAs: "writeAs dec e c x s = (err, y, s') \<Longrightarrow> J (trace s) c \<Longrightarrow> justified J s s'"
  by (auto dest!: writeAs_issues intro: justified_issues)

lemma justified_clientWrite: "clientWrite e c s = (err, y, s') \<Longrightarrow> J (trace s) c \<Longrightarrow> justified J s s'"
  by (auto dest!: clientWrite_issues intro: justified_issues)

lemma justified_clientList:
  "clientList e k ns sel s = (x, s') \<Longrightarrow> J (trace s) (ListCall k ns sel) \<Longrightarrow> justified J s s'"
  by (auto dest!: clientList_issues intro: justified_issues)

lemma justified_mono: "justified J s s' \<Longrightarrow> (\<And>h c. J h c \<Longrightarrow> K h c) \<Longrightarrow> justified K s s'"
  by (auto simp: justified_def)

lemma justified_onlyCalls: "justified (\<lambda>h. P) s s' \<Longrightarrow> onlyCalls P s s'"
  by (force simp: justified_def onlyCalls_def list_all_length)

text \<open>What a decoded read tells about the reply, for a decoder that fails only on objects of another kind.\<close>

definition decodes :: "(obj \<Rightarrow> error + 'a) \<Rightarrow> ('a \<Rightarrow> obj) \<Rightarrow> bool" where
  "decodes dec mk \<longleftrightarrow> (\<forall>y x. dec y = Inr x \<longrightarrow> y = mk x) \<and> (\<forall>y. dec y \<noteq> Inl NotFound)"

lemma decodes_simps [simp]:
  "decodes asPod PodObj" "decodes asPvc PvcObj" "decodes asRev RevObj" "decodes asSet SetObj" "decodes asSvc SvcObj"
  "decodes asDeploy DeployObj" "decodes asWater WaterObj" "decodes asStone StoneObj" "decodes asInj InjObj"
  "decodes asNs NsObj"
  by (auto simp: decodes_def badKind_def elim: asPod.elims asPvc.elims asRev.elims asSet.elims asSvc.elims
      asDeploy.elims asWater.elims asStone.elims asInj.elims asNs.elims)

lemma getAs_found:
  "getAs dec e k key s = (Inr x, s') \<Longrightarrow> decodes dec mk \<Longrightarrow> issues s [(GetCall k key, Got (mk x))] s'"
  by (auto simp: getAs_def clientGet_def decodes_def split: prod.splits sum.splits reply.splits dest!: request_issues)

lemma getAs_notFound:
  "getAs dec e k key s = (Inl NotFound, s') \<Longrightarrow> decodes dec mk \<Longrightarrow> issues s [(GetCall k key, Fail NotFound)] s'"
  by (auto simp: getAs_def clientGet_def decodes_def split: prod.splits sum.splits reply.splits dest!: request_issues)

text \<open>The API server answers a read with the object of that name.\<close>

fun objMeta :: "obj \<Rightarrow> objectMeta" where
  "objMeta (PodObj x) = p_Meta x"
| "objMeta (PvcObj x) = pvc_Meta x"
| "objMeta (RevObj x) = cr_Meta x"
| "objMeta (SetObj x) = set_Meta x"
| "objMeta (SvcObj x) = svc_Meta x"
| "objMeta (DeployObj x) = d_Meta x"
| "objMeta (WaterObj x) = w_Meta x"
| "objMeta (StoneObj x) = sn_Meta x"
| "objMeta (InjObj x) = inj_Meta x"
| "objMeta (NsObj x) = ns_Meta x"

definition gets_named :: "'w k8s \<Rightarrow> bool" where
  "gets_named e \<longleftrightarrow> (\<forall>k key w w' x. api e (GetCall k key) w = (Got x, w') \<longrightarrow> metaKey (objMeta x) = key)"

lemma getAs_named:
  assumes "gets_named e" and "getAs dec e k key s = (Inr x, s')" and "decodes dec mk"
  shows "metaKey (objMeta (mk x)) = key"
proof -
  obtain r w where a: "api e (GetCall k key) (world s) = (r, w)" by fastforce
  with assms(2,3) have "r = Got (mk x)"
    by (auto simp: getAs_def clientGet_def request_def decodes_def split: reply.splits)
  with assms(1) a show ?thesis by (auto simp: gets_named_def)
qed

text \<open>A write that fails leaves the object alone.\<close>

lemma writeAs_failed: "writeAs dec e c x s = (Some err, y, s') \<Longrightarrow> y = x"
  by (auto simp: writeAs_def clientWrite_def split: prod.splits reply.splits)

text \<open>The object a write leaves in the caller's variable, when it was accepted with the reply \<open>r\<close>.\<close>

definition written :: "(obj \<Rightarrow> error + 'a) \<Rightarrow> 'a \<Rightarrow> reply \<Rightarrow> 'a" where
  "written dec x r = (case r of Got z \<Rightarrow> (case dec z of Inl _ \<Rightarrow> x | Inr y \<Rightarrow> y) | _ \<Rightarrow> x)"

lemma writeAs_written:
  assumes "writeAs dec e c x s = (err, y, s')"
  shows "\<exists>r. trace s' = trace s @ [(c, r)] \<and> (if err = None then (\<forall>z. r \<noteq> Fail z) \<and> y = written dec x r else y = x)"
proof -
  obtain r w where "api e c (world s) = (r, w)" by fastforce
  with assms show ?thesis
    by (intro exI [of _ r]) (auto simp: writeAs_def clientWrite_def request_def written_def split: reply.splits)
qed

section \<open>Loops that return at the first error\<close>

text \<open>\<^verbatim>\<open>for _, x := range xs { if err := f(x); err != nil { return err } }\<close>, the state being what \<open>f\<close> changes.\<close>

fun forEach :: "('a \<Rightarrow> 's \<Rightarrow> (error option \<times> 's) option) \<Rightarrow> 'a list \<Rightarrow> 's \<Rightarrow> (error option \<times> 's) option" where
  "forEach f [] s = Some (None, s)"
| "forEach f (x # xs) s =
     (case f x s of
        None \<Rightarrow> None
      | Some (Some err, s') \<Rightarrow> Some (Some err, s')
      | Some (None, s') \<Rightarrow> forEach f xs s')"

text \<open>\<open>emits E s s'\<close>: one of the calls issued between \<open>s\<close> and \<open>s'\<close>, with its reply, satisfies \<open>E\<close>.\<close>

definition emits :: "(call \<times> reply \<Rightarrow> bool) \<Rightarrow> 'w sys \<Rightarrow> 'w sys \<Rightarrow> bool" where
  "emits E s s' \<longleftrightarrow> (\<exists>cs. issues s cs s' \<and> (\<exists>en \<in> set cs. E en))"

lemma emits_then: "emits E s s' \<Longrightarrow> onlyCalls P s' s'' \<Longrightarrow> emits E s s''"
  unfolding emits_def onlyCalls_def using issues_trans by fastforce

lemma then_emits: "onlyCalls P s s' \<Longrightarrow> emits E s' s'' \<Longrightarrow> emits E s s''"
  unfolding emits_def onlyCalls_def using issues_trans by fastforce

lemma emits_mono: "emits E s s' \<Longrightarrow> (\<And>en. E en \<Longrightarrow> F en) \<Longrightarrow> emits F s s'"
  unfolding emits_def by blast

lemma emits_single: "issues s [en] s' \<Longrightarrow> E en \<Longrightarrow> emits E s s'"
  by (auto simp: emits_def)

lemma writeAs_emits:
  "writeAs dec e c x s = (None, y, s') \<Longrightarrow> (\<And>r. \<forall>err. r \<noteq> Fail err \<Longrightarrow> E (c, r)) \<Longrightarrow> emits E s s'"
  by (auto dest!: writeAs_ok intro: emits_single)

lemma clientWrite_emits:
  "clientWrite e c s = (None, y, s') \<Longrightarrow> (\<And>r. \<forall>err. r \<noteq> Fail err \<Longrightarrow> E (c, r)) \<Longrightarrow> emits E s s'"
  by (auto simp: clientWrite_def split: prod.splits reply.splits dest!: request_issues intro: emits_single)

lemma getAs_then_emits: "getAs dec e k key s = (x, s') \<Longrightarrow> emits E s' s'' \<Longrightarrow> emits E s s''"
  by (auto intro: then_emits dest: getAs_onlyCalls [where P = "\<lambda>_. True"])

lemma justified_then_emits: "justified J s s' \<Longrightarrow> emits E s' s'' \<Longrightarrow> emits E s s''"
  by (auto intro: then_emits [OF justified_onlyCalls] justified_mono [where K = "\<lambda>h c. True"])

lemma emits_then_justified: "emits E s s' \<Longrightarrow> justified J s' s'' \<Longrightarrow> emits E s s''"
  by (auto intro: emits_then [OF _ justified_onlyCalls] justified_mono [where K = "\<lambda>h c. True"])

text \<open>The same for a retried closure, with or without a captured variable that a conflict leaves alone.\<close>

lemma RetryOnConflict_justified_from:
  assumes "retries_conflicts L" and "RetryOnConflict L steps f (x, s) = Some (err, x', s')"
    and step: "\<And>t err y t'. justified J s t \<Longrightarrow> f (x, t) = Some (err, y, t') \<Longrightarrow>
      justified J t t' \<and> (err = None \<longrightarrow> emits E t t') \<and> (err = Some Conflict \<longrightarrow> y = x)"
  shows "justified J s s' \<and> (err = None \<longrightarrow> emits E s s')"
proof -
  have "justified J s (snd (x', s')) \<and> (err = None \<longrightarrow> emits E s (snd (x', s')))"
  proof (rule RetryOnConflict_conflicts [OF assms(1,2), where I = "\<lambda>v. fst v = x \<and> justified J s (snd v)"
        and Q = "\<lambda>err v. justified J s (snd v) \<and> (err = None \<longrightarrow> emits E s (snd v))"])
    fix v v'
    assume "fst v = x \<and> justified J s (snd v)" "f v = Some (Some Conflict, v')"
    with step [of "snd v" "Some Conflict" "fst v'" "snd v'"] justified_trans [of J s "snd v" "snd v'"]
    show "fst v' = x \<and> justified J s (snd v')" by (cases v) simp
  next
    fix v err v'
    assume "fst v = x \<and> justified J s (snd v)" "f v = Some (err, v')"
    with step [of "snd v" err "fst v'" "snd v'"] justified_trans [of J s "snd v" "snd v'"]
      justified_then_emits [of J s "snd v" E "snd v'"]
    show "justified J s (snd v') \<and> (err = None \<longrightarrow> emits E s (snd v'))" by (cases v) simp
  qed simp
  then show ?thesis by simp
qed

lemma RetryOnConflict_justified:
  assumes "retries_conflicts L" and "RetryOnConflict L steps f (x, s) = Some (err, x', s')"
    and "\<And>t err y t'. f (x, t) = Some (err, y, t') \<Longrightarrow>
      justified J t t' \<and> (err = None \<longrightarrow> emits E t t') \<and> (err = Some Conflict \<longrightarrow> y = x)"
  shows "justified J s s' \<and> (err = None \<longrightarrow> emits E s s')"
  by (rule RetryOnConflict_justified_from [OF assms(1,2)]) (rule assms(3))

lemma RetryOnConflict_justified0:
  assumes "RetryOnConflict L steps f s = Some (err, s')"
    and step: "\<And>t err t'. f t = Some (err, t') \<Longrightarrow> justified J t t'"
  shows "justified J s s' \<and> (\<exists>t. justified J s t \<and> f t = Some (err, s'))"
proof -
  have kept: "justified J s t'" if "justified J s t" "f t = Some (er, t')" for t er t'
    using justified_trans [OF that(1) step [OF that(2)]] .
  from RetryOnConflict_last [OF assms(1), of "justified J s"] kept obtain t
    where "justified J s t" "f t = Some (err, s')" by (metis justified_refl)
  with kept show ?thesis by blast
qed

lemma RetryOnConflict_justified_any:
  assumes "RetryOnConflict L steps f (x, s) = Some (err, x', s')" and "I x"
    and step: "\<And>y t err y' t'. I y \<Longrightarrow> f (y, t) = Some (err, y', t') \<Longrightarrow> justified J t t' \<and> (err \<noteq> None \<longrightarrow> I y')"
  shows "justified J s s'"
proof -
  have kept: "justified J s (snd v') \<and> (er \<noteq> None \<longrightarrow> I (fst v'))"
    if "I (fst v) \<and> justified J s (snd v)" "f v = Some (er, v')" for v er v'
    using step [of "fst v" "snd v" er "fst v'" "snd v'"] justified_trans [of J s "snd v" "snd v'"] that
    by (cases v) simp
  have "case err of None \<Rightarrow> justified J s (snd (x', s')) | Some z \<Rightarrow> I (fst (x', s')) \<and> justified J s (snd (x', s'))"
  proof (rule RetryOnConflict_until [OF assms(1), where I = "\<lambda>v. I (fst v) \<and> justified J s (snd v)"
        and Q = "\<lambda>v. justified J s (snd v)"])
    show "I (fst (x, s)) \<and> justified J s (snd (x, s))" using assms(2) by simp
  next
    fix v z v'
    assume "I (fst v) \<and> justified J s (snd v)" "f v = Some (Some z, v')"
    from kept [OF this] show "I (fst v') \<and> justified J s (snd v')" by simp
  next
    fix v v'
    assume "I (fst v) \<and> justified J s (snd v)" "f v = Some (None, v')"
    from kept [OF this] show "justified J s (snd v')" by simp
  qed
  then show ?thesis by (auto split: option.splits)
qed

lemma forEach_cases:
  assumes "forEach f (x # xs) s = Some (err, s')"
  obtains (stop) y where "f x s = Some (Some y, s')" "err = Some y"
  | (more) t where "f x s = Some (None, t)" "forEach f xs t = Some (err, s')"
  using assms by (auto split: option.splits)

lemma forEach_rel:
  assumes refl: "\<And>s. R s s" and trans: "\<And>a b c. R a b \<Longrightarrow> R b c \<Longrightarrow> R a c"
    and step: "\<And>x s err s'. x \<in> set xs \<Longrightarrow> f x s = Some (err, s') \<Longrightarrow> R s s'" and "forEach f xs s = Some (err, s')"
  shows "R s s'"
  using assms(3,4)
proof (induction xs arbitrary: s)
  case Nil
  then show ?case by (simp add: refl)
next
  case (Cons x xs)
  from Cons.prems(2) show ?case
  proof (cases rule: forEach_cases)
    case (stop y)
    then show ?thesis using Cons.prems(1) [of x s] by simp
  next
    case (more t)
    then have "R s t" using Cons.prems(1) [of x s] by simp
    moreover have "R t s'" by (rule Cons.IH [OF _ more(2)]) (rule Cons.prems(1), auto)
    ultimately show ?thesis by (rule trans)
  qed
qed

lemma forEach_justified:
  assumes "\<And>x s err s'. x \<in> set xs \<Longrightarrow> f x s = Some (err, s') \<Longrightarrow> justified J s s'"
    and "forEach f xs s = Some (err, s')"
  shows "justified J s s'"
  by (rule forEach_rel [of "justified J", OF _ _ assms]) (auto intro: justified_trans)

lemma forEach_onlyCalls:
  assumes "\<And>x s err s'. x \<in> set xs \<Longrightarrow> f x s = Some (err, s') \<Longrightarrow> onlyCalls P s s'"
    and "forEach f xs s = Some (err, s')"
  shows "onlyCalls P s s'"
  by (rule forEach_rel [of "onlyCalls P", OF _ _ assms]) (auto intro: onlyCalls_trans)

text \<open>A loop that ends without an error has done every step.\<close>

lemma forEach_all:
  assumes "forEach f xs s = Some (None, s')"
    and "\<And>x s err s'. x \<in> set xs \<Longrightarrow> f x s = Some (err, s') \<Longrightarrow> justified J s s'"
    and "\<And>x s s'. x \<in> set xs \<Longrightarrow> D x \<Longrightarrow> f x s = Some (None, s') \<Longrightarrow> emits (E x) s s'"
  shows "\<forall>x \<in> set xs. D x \<longrightarrow> emits (E x) s s'"
  using assms
proof (induction xs arbitrary: s)
  case Nil
  then show ?case by simp
next
  case (Cons x xs)
  from Cons.prems(1) show ?case
  proof (cases rule: forEach_cases)
    case (more t)
    have rest: "justified J t s'" by (rule forEach_justified [OF _ more(2)]) (rule Cons.prems(2), auto)
    have "justified J s t" using Cons.prems(2) [of x s] more(1) by simp
    moreover have "\<forall>y \<in> set xs. D y \<longrightarrow> emits (E y) t s'"
      by (rule Cons.IH [OF more(2)]; rule Cons.prems(2) Cons.prems(3); auto)
    moreover have "D x \<Longrightarrow> emits (E x) s s'"
      using Cons.prems(3) [of x s t] more(1) emits_then_justified [OF _ rest] by auto
    ultimately show ?thesis by (auto intro: justified_then_emits)
  qed simp
qed

lemma forEach_returns:
  assumes "\<And>x s. x \<in> set xs \<Longrightarrow> \<exists>r. f x s = Some r"
  shows "\<exists>r. forEach f xs s = Some r"
  using assms
proof (induction xs arbitrary: s)
  case Nil
  then show ?case by simp
next
  case (Cons x xs)
  from Cons.prems [of x s] obtain err t where "f x s = Some (err, t)" by auto
  with Cons.IH [of t] Cons.prems show ?case by (cases err) auto
qed

end
