(* ===== verification/Cluster.thy ===== *)
theory Cluster
  imports Client
begin

text \<open>
  A concrete cluster on which the properties are instantiated: library functions that have the documented
  behaviour the properties assume, an API server that accepts every write and knows no object, and a StatefulSet
  \<open>web\<close> with pods in several states.
\<close>

section \<open>Libraries\<close>

definition sampleReady :: "pod \<Rightarrow> bool" where
  "sampleReady p = list_ex (\<lambda>c. pc_Type c = ''Ready'' \<and> pc_Status c = ConditionTrue) (Conditions (p_Status p))"

definition samplePodOf :: "podTemplate \<Rightarrow> objectMeta \<Rightarrow> ownerReference option \<Rightarrow> pod option" where
  "samplePodOf t m r = Some \<lparr>p_Meta = (t_Meta t)\<lparr>DeletionTimestamp := None,
       OwnerReferences := (case r of None \<Rightarrow> [] | Some x \<Rightarrow> [x])\<rparr>,
     p_Spec = t_Spec t,
     p_Status = \<lparr>Phase = [], Conditions = [], ContainerStatuses = [], pst_rest = []\<rparr>\<rparr>"

definition groupVersionString :: "groupVersionKind \<Rightarrow> string" where
  \<comment> \<open>\<open>GroupVersion().String()\<close>: the core group has no name and no slash\<close>
  "groupVersionString k = (if gvk_Group k = [] then gvk_Version k else gvk_Group k @ ''/'' @ gvk_Version k)"

definition sampleRef :: "objectMeta \<Rightarrow> groupVersionKind \<Rightarrow> ownerReference" where
  "sampleRef m k = \<lparr>or_APIVersion = groupVersionString k, or_Kind = gvk_Kind k, or_Name = Name m,
     or_UID = UID m, or_Controller = Some True, or_BlockOwnerDeletion = Some True\<rparr>"

fun sampleController :: "ownerReference list \<Rightarrow> ownerReference option" where
  "sampleController [] = None"
| "sampleController (r # rs) = (if or_Controller r = Some True then Some r else sampleController rs)"

definition sampleCore :: coreLib where
  "sampleCore = \<lparr>lib_ErrorString = (\<lambda>err. case err of Errorf m \<Rightarrow> m | _ \<Rightarrow> ''api error''),
     lib_RetryAgain = (\<lambda>k err. err = Conflict), lib_DefaultRetrySteps = 5, lib_DefaultBackoffSteps = 4,
     lib_SelectorError = (\<lambda>sel. None), lib_SelectorMatches = (\<lambda>sel m. True),
     lib_NewControllerRef = sampleRef, lib_GetControllerOf = (\<lambda>m. sampleController (OwnerReferences m)),
     lib_IsPodReady = sampleReady, lib_GetPodFromTemplate = samplePodOf,
     lib_GetValueFromIntOrPercent = (\<lambda>v total up. case v of IntVal n \<Rightarrow> Inr (sint n) | StrVal t \<Rightarrow> Inl (Errorf t)),
     lib_RangeClaims = (\<lambda>cs. cs), lib_Sort = (\<lambda>key ps. sort_key key ps),
     lib_NewAggregate = (\<lambda>errs. Errorf ''aggregate''),
     lib_SetControllerReference = (\<lambda>owner obj. Inr (obj\<lparr>OwnerReferences :=
       OwnerReferences obj @ [sampleRef owner \<lparr>gvk_Group = [], gvk_Version = [], gvk_Kind = []\<rparr>]\<rparr>)),
     lib_WithStack = (\<lambda>err. err), lib_ValidPodNamePrefix = (\<lambda>p. True)\<rparr>"

definition sampleRevision :: "objectMeta \<Rightarrow> bytes \<Rightarrow> int64 \<Rightarrow> controllerRevision" where
  "sampleRevision parent raw n = \<lparr>cr_Meta = emptyMeta\<lparr>Name := Name parent @ ''-rev'', Namespace := Namespace parent\<rparr>,
     cr_Raw = raw, Revision = n\<rparr>"

definition sampleHist :: historyLib where
  "sampleHist = \<lparr>lib_SortControllerRevisions = (\<lambda>rs. sort_key (\<lambda>r. sint (Revision r)) rs),
     lib_EqualRevision = (\<lambda>a b. cr_Raw a = cr_Raw b),
     lib_FindEqualRevisions = (\<lambda>rs r. filter (\<lambda>x. cr_Raw x = cr_Raw r) rs),
     lib_NewControllerRevision = (\<lambda>m k labels raw n cc. Inr (sampleRevision m raw n)),
     lib_HashControllerRevision = (\<lambda>r cc. ''h'' @ showNat (unat cc)),
     lib_ControllerRevisionName = (\<lambda>p h. p @ ''-'' @ h)\<rparr>"

section \<open>The StatefulSet and its pods\<close>

definition samplePodSpec :: podSpec where
  "samplePodSpec = \<lparr>Containers = [\<lparr>c_Name = ''app'', c_Image = ''app:1'', c_rest = []\<rparr>], Volumes = None,
     Affinity = None, ReadinessGates = [], Hostname = [], Subdomain = [], NodeName = [], ps_rest = []\<rparr>"

definition sampleSelector :: labelSelector where
  "sampleSelector = \<lparr>MatchLabels = Some [''app'' \<mapsto> ''web''], sel_rest = []\<rparr>"

definition sampleClaim :: persistentVolumeClaim where
  "sampleClaim = \<lparr>pvc_Meta = emptyMeta\<lparr>Name := ''data''\<rparr>, pvc_rest = []\<rparr>"

definition sampleStrategy :: "int32 \<Rightarrow> statefulSetUpdateStrategy" where
  "sampleStrategy part = \<lparr>us_Type = RollingUpdateStatefulSetStrategyType,
     RollingUpdate = Some \<lparr>Partition = Some part, MaxUnavailable = None,
       PodUpdatePolicy = RecreatePodUpdateStrategyType, Paused = False, PriorityStrategy = None\<rparr>\<rparr>"

definition sampleStatus :: statefulSetStatus where
  "sampleStatus = \<lparr>ObservedGeneration = 0, st_Replicas = 0, ReadyReplicas = 0, CurrentReplicas = 0,
     UpdatedReplicas = 0, CurrentRevision = [], UpdateRevision = [], CollisionCount = None, st_Conditions = []\<rparr>"

definition sampleSet :: "int32 \<Rightarrow> int32 \<Rightarrow> string \<Rightarrow> statefulSet" where
  "sampleSet replicas part policy = \<lparr>set_Meta = emptyMeta\<lparr>Name := ''web'', Namespace := ''ns'', UID := ''u1''\<rparr>,
     set_Spec = \<lparr>Replicas = Some replicas, Selector = Some sampleSelector,
       Template = \<lparr>t_Meta = emptyMeta\<lparr>Labels := Some [''app'' \<mapsto> ''web'']\<rparr>, t_Spec = samplePodSpec\<rparr>,
       VolumeClaimTemplates = [sampleClaim], ServiceName = ''web'', PodManagementPolicy = policy,
       UpdateStrategy = Some (sampleStrategy part), RevisionHistoryLimit = 2\<rparr>,
     set_Status = sampleStatus\<rparr>"

definition samplePod :: "string \<Rightarrow> string \<Rightarrow> string \<Rightarrow> pod" where
  "samplePod name revision phase = \<lparr>p_Meta = emptyMeta\<lparr>Name := name, Namespace := ''ns'',
       Labels := Some [StatefulSetPodNameLabel \<mapsto> name, StatefulSetRevisionLabel \<mapsto> revision]\<rparr>,
     p_Spec = samplePodSpec\<lparr>Volumes := Some [\<lparr>v_Name = ''data'',
        v_PVC = Some \<lparr>ClaimName = ''data-'' @ name, ReadOnly = False\<rparr>, v_rest = []\<rparr>]\<rparr>,
     p_Status = \<lparr>Phase = phase, Conditions = [\<lparr>pc_Type = ''Ready'', pc_Status = ConditionTrue, pc_Reason = []\<rparr>],
       ContainerStatuses = [], pst_rest = []\<rparr>\<rparr>"

section \<open>Encoding and the API server\<close>

definition sampleCodec :: "statefulSet \<Rightarrow> codecLib" where
  "sampleCodec sts = \<lparr>lib_EncodeSet = (\<lambda>x. Inr (setName x)),
     lib_ParseJson = (\<lambda>b. Some (JObj [(''spec'', JObj [(''template'', JObj [])])])),
     lib_PrintJson = (\<lambda>j. ''patch''), lib_StrategicMergePatch = (\<lambda>a b. Inr a), lib_DecodeSet = (\<lambda>b. Inr sts),
     lib_CreatePatch = (\<lambda>a b. Inr []), lib_DecodePatchTemplate = (\<lambda>b. Inr (Some (Template (set_Spec sts)))),
     lib_MarshalCoordinates = (\<lambda>c. []), lib_UnmarshalCoordinates = (\<lambda>t. Inl (Errorf t)),
     lib_MarshalInPlaceState = (\<lambda>x. ips_Revision x), lib_UnmarshalInPlaceState = (\<lambda>t. Inr \<lparr>ips_Revision = t,
       UpdateTimestamp = 0, LastContainerStatuses = [(''app'', \<lparr>ipc_ImageID = ''img1''\<rparr>)]\<rparr>),
     lib_MarshalPatches = (\<lambda>ps. ''patches''), lib_DecodePatch = Inr, lib_MarshalPod = (\<lambda>p. podName p),
     lib_ApplyPatch = (\<lambda>p b. Inr b), lib_UnmarshalPod = (\<lambda>b. Inr (Some (samplePod b ''r2'' PodRunning))),
     lib_MarshalWaterSpec = (\<lambda>x. Inr []), lib_UnmarshalWaterSpec = (\<lambda>t. Inl (Errorf t)),
     lib_MarshalStoneSpec = (\<lambda>x. Inr [])\<rparr>"

fun sampleApi :: "call \<Rightarrow> nat \<Rightarrow> reply \<times> nat" where
  "sampleApi (GetCall k key) w = (Fail NotFound, Suc w)"
| "sampleApi (ListCall k ns sel) w = (Listed [], Suc w)"
| "sampleApi (CreateCall x) w = (Got x, Suc w)"
| "sampleApi (UpdateCall x) w = (Got x, Suc w)"
| "sampleApi (StatusUpdateCall x) w = (Got x, Suc w)"
| "sampleApi (DeleteCall x) w = (Done, Suc w)"
| "sampleApi (PatchCall x d) w = (Got x, Suc w)"

definition sampleEnv :: "statefulSet \<Rightarrow> nat k8s" where
  "sampleEnv sts = \<lparr>api = sampleApi, clock = int, core = sampleCore, hist = sampleHist, codec = sampleCodec sts\<rparr>"

definition sampleSys :: "nat sys" where
  "sampleSys = \<lparr>world = 0, trace = [], events = [], expectations = NewUpdateExpectations\<rparr>"

lemmas sample_defs = sampleEnv_def sampleCore_def sampleHist_def sampleCodec_def sampleSet_def sampleSys_def

section \<open>The documented behaviour holds\<close>

lemma sample_fresh_pods [simp, intro]: "fresh_pods (core (sampleEnv sts))"
  by (simp add: fresh_pods_def sample_defs samplePodOf_def)

lemma sample_ranges_all [simp, intro]: "ranges_all (core (sampleEnv sts))"
  by (simp add: ranges_all_def sample_defs)

lemma sample_sorts_pods [simp, intro]: "sorts_pods (core (sampleEnv sts))"
  by (simp add: sorts_pods_def sample_defs)

lemma sample_sorts_revisions [simp, intro]: "sorts_revisions (hist (sampleEnv sts))"
proof -
  have "sorted_wrt (\<lambda>a b. sint (Revision a) \<le> sint (Revision b)) (sort_key (\<lambda>r. sint (Revision r)) rs)"
    for rs :: "controllerRevision list"
    using sorted_sort_key [of "\<lambda>r. sint (Revision r)" rs] by (simp add: sorted_map)
  then show ?thesis by (simp add: sorts_revisions_def sample_defs)
qed

lemma sample_finds_equal [simp, intro]: "finds_equal (hist (sampleEnv sts))"
  by (simp add: finds_equal_def sample_defs)

lemma sample_retries_conflicts [simp, intro]: "retries_conflicts (core (sampleEnv sts))"
  by (simp add: retries_conflicts_def sample_defs)

lemma sample_owner_errors [simp, intro]: "owner_errors (core (sampleEnv sts))"
  by (simp add: owner_errors_def sample_defs)

text \<open>The same cluster with another API server.\<close>

definition serverEnv :: "(call \<Rightarrow> nat \<Rightarrow> reply \<times> nat) \<Rightarrow> nat k8s" where
  "serverEnv f = (sampleEnv (sampleSet 1 0 ''OrderedReady''))\<lparr>api := f\<rparr>"

lemma serverEnv_simps [simp]:
  "api (serverEnv f) = f" "core (serverEnv f) = sampleCore" "hist (serverEnv f) = sampleHist"
  "codec (serverEnv f) = sampleCodec (sampleSet 1 0 ''OrderedReady'')"
  by (simp_all add: serverEnv_def sampleEnv_def)

lemma sampleCore_facts [simp, intro]:
  "retries_conflicts sampleCore" "owner_errors sampleCore" "fresh_pods sampleCore" "ranges_all sampleCore" "sorts_pods sampleCore"
  using sample_retries_conflicts sample_owner_errors sample_fresh_pods sample_ranges_all sample_sorts_pods
  by (simp_all add: sampleEnv_def)

text \<open>An API server that has some objects, and otherwise behaves as \<open>sampleApi\<close>.\<close>

definition serving :: "(kind \<Rightarrow> objectKey \<Rightarrow> obj option) \<Rightarrow> (kind \<Rightarrow> obj list) \<Rightarrow> call \<Rightarrow> nat \<Rightarrow> reply \<times> nat" where
  "serving db listed c n =
     (case c of
        GetCall k key \<Rightarrow> ((case db k key of None \<Rightarrow> Fail NotFound | Some x \<Rightarrow> Got x), Suc n)
      | ListCall k ns sel \<Rightarrow> (Listed (listed k), Suc n)
      | _ \<Rightarrow> sampleApi c n)"

lemma serving_named:
  assumes "\<And>k key x. db k key = Some x \<Longrightarrow> metaKey (objMeta x) = key"
  shows "gets_named (serverEnv (serving db listed))"
  using assms by (auto simp: gets_named_def serving_def split: option.splits)

definition nothing :: "kind \<Rightarrow> obj list" where "nothing k = []"

end
