(* ===== verification/Identity.thy ===== *)
theory Identity
  imports Coordinate Cluster
begin

text \<open>
  \<^verbatim>\<open>controllers/stateful_set_utils.go\<close>, first half: the identity of a pod (parent and ordinal read from its
  name), its storage, its state predicates, its revision label, and the construction of the pods a
  StatefulSet creates.
\<close>

section \<open>Names and ordinals\<close>

definition controllerKind :: groupVersionKind where
  "controllerKind = \<lparr>gvk_Group = GroupVersion_Group, gvk_Version = GroupVersion_Version,
     gvk_Kind = ''StatefulSet''\<rparr>"

text \<open>
  The submatches of \<open>(.*)-([0-9]+)$\<close>: the digits at the end of the text, the dash before them, and what
  precedes it on the same line (\<open>.\<close> does not match a newline).
\<close>

definition statefulPodRegex :: "string \<Rightarrow> (string \<times> string) option" where
  "statefulPodRegex s =
     (let digits = rev (takeWhile isDigit (rev s)); front = rev (dropWhile isDigit (rev s))
      in if digits = [] \<or> front = [] \<or> last front \<noteq> CHR ''-'' then None
         else Some (rev (takeWhile (\<lambda>c. c \<noteq> CHR 0x0A) (rev (butlast front))), digits))"

definition getParentNameAndOrdinal :: "pod \<Rightarrow> string \<times> int" where
  "getParentNameAndOrdinal pod =
     (case statefulPodRegex (podName pod) of
        None \<Rightarrow> ([], - 1)
      | Some (parent, digits) \<Rightarrow>
          (parent, case ParseInt32 digits of Some i \<Rightarrow> i | None \<Rightarrow> - 1))"

definition getParentName :: "pod \<Rightarrow> string" where
  "getParentName pod = fst (getParentNameAndOrdinal pod)"

definition getOrdinal :: "pod \<Rightarrow> int" where
  "getOrdinal pod = snd (getParentNameAndOrdinal pod)"

definition getPodName :: "statefulSet \<Rightarrow> int \<Rightarrow> string" where
  "getPodName sts ordinal = setName sts @ ''-'' @ showInt ordinal"

definition getPersistentVolumeClaimName :: "statefulSet \<Rightarrow> persistentVolumeClaim \<Rightarrow> int \<Rightarrow> string" where
  "getPersistentVolumeClaimName sts claim ordinal =
     Name (pvc_Meta claim) @ ''-'' @ setName sts @ ''-'' @ showInt ordinal"

definition isMemberOf :: "statefulSet \<Rightarrow> pod \<Rightarrow> bool" where
  "isMemberOf sts pod \<longleftrightarrow> getParentName pod = setName sts"

definition realReconcileName :: "objectKey \<Rightarrow> objectKey" where
  "realReconcileName objKey =
     (case statefulPodRegex (key_Name objKey) of
        None \<Rightarrow> objKey
      | Some (parentName, digits) \<Rightarrow>
          (case ParseInt32 digits of
             None \<Rightarrow> objKey
           | Some _ \<Rightarrow> \<lparr>key_Namespace = key_Namespace objKey, key_Name = parentName\<rparr>))"

definition getStatefulSetKey :: "statefulSet \<Rightarrow> string" where
  "getStatefulSetKey sts = setNamespace sts @ ''/'' @ setName sts"

section \<open>Identity and storage\<close>

definition identityMatches :: "statefulSet \<Rightarrow> pod \<Rightarrow> bool" where
  "identityMatches sts pod =
     (let (parent, ordinal) = getParentNameAndOrdinal pod
      in 0 \<le> ordinal \<and> setName sts = parent \<and> podName pod = getPodName sts ordinal
         \<and> Namespace (p_Meta pod) = setNamespace sts
         \<and> mapGet (podLabels pod) StatefulSetPodNameLabel = podName pod)"

definition volumeMap :: "volume list \<Rightarrow> string \<rightharpoonup> volume" where
  \<comment> \<open>\<open>volumes[volume.Name] = volume\<close> in list order: the last one of a name wins\<close>
  "volumeMap vs = map_of (rev (map (\<lambda>v. (v_Name v, v)) vs))"

definition storageMatches :: "statefulSet \<Rightarrow> pod \<Rightarrow> bool" where
  "storageMatches sts pod =
     (let ordinal = getOrdinal pod
      in if ordinal < 0 then False
         else list_all (\<lambda>claim.
                case volumeMap (slice (Volumes (p_Spec pod))) (Name (pvc_Meta claim)) of
                  None \<Rightarrow> False
                | Some v \<Rightarrow> (case v_PVC v of
                    None \<Rightarrow> False
                  | Some src \<Rightarrow> ClaimName src = getPersistentVolumeClaimName sts claim ordinal))
              (VolumeClaimTemplates (set_Spec sts)))"

definition podClaim :: "statefulSet \<Rightarrow> labelSelector \<Rightarrow> int \<Rightarrow> persistentVolumeClaim \<Rightarrow> persistentVolumeClaim" where
  "podClaim sts sel ordinal template =
     template\<lparr>pvc_Meta := (pvc_Meta template)
        \<lparr>Name := getPersistentVolumeClaimName sts template ordinal,
         Namespace := setNamespace sts, Labels := MatchLabels sel\<rparr>\<rparr>"

definition getPersistentVolumeClaims :: "statefulSet \<Rightarrow> pod \<Rightarrow> (string \<times> persistentVolumeClaim) list option" where
  "getPersistentVolumeClaims sts pod =
     (let templates = VolumeClaimTemplates (set_Spec sts)
      in case (templates, Selector (set_Spec sts)) of
           ([], _) \<Rightarrow> Some []
         | (_, None) \<Rightarrow> None
         | (_, Some sel) \<Rightarrow>
             Some (fold (\<lambda>t claims. AList.update (Name (pvc_Meta t)) (podClaim sts sel (getOrdinal pod) t) claims)
                        templates []))"

definition claimVolume :: "string \<times> persistentVolumeClaim \<Rightarrow> volume" where
  "claimVolume nc = \<lparr>v_Name = fst nc,
     v_PVC = Some \<lparr>ClaimName = Name (pvc_Meta (snd nc)), ReadOnly = False\<rparr>, v_rest = []\<rparr>"

definition updateStorage :: "coreLib \<Rightarrow> statefulSet \<Rightarrow> pod \<Rightarrow> pod option" where
  "updateStorage L sts pod =
     (case getPersistentVolumeClaims sts pod of
        None \<Rightarrow> None
      | Some claims \<Rightarrow>
          let currentVolumes = slice (Volumes (p_Spec pod));
              newVolumes = map claimVolume (lib_RangeClaims L claims)
                @ filter (\<lambda>v. map_of claims (v_Name v) = None) currentVolumes
          in Some (pod\<lparr>p_Spec := (p_Spec pod)\<lparr>Volumes := Some newVolumes\<rparr>\<rparr>))"

definition updateIdentity :: "statefulSet \<Rightarrow> pod \<Rightarrow> pod" where
  "updateIdentity sts pod =
     (let name = getPodName sts (getOrdinal pod)
      in pod\<lparr>p_Meta := (p_Meta pod)\<lparr>Name := name, Namespace := setNamespace sts,
           Labels := mapPut (podLabels pod) StatefulSetPodNameLabel name\<rparr>\<rparr>)"

definition initIdentity :: "statefulSet \<Rightarrow> pod \<Rightarrow> pod" where
  "initIdentity sts pod =
     (let pod = updateIdentity sts pod
      in pod\<lparr>p_Spec := (p_Spec pod)\<lparr>Hostname := podName pod, Subdomain := ServiceName (set_Spec sts)\<rparr>\<rparr>)"

section \<open>State of a pod\<close>

definition isRunningAndReady :: "coreLib \<Rightarrow> pod \<Rightarrow> bool" where
  "isRunningAndReady L pod \<longleftrightarrow> Phase (p_Status pod) = PodRunning \<and> lib_IsPodReady L pod"

definition isCreated :: "pod \<Rightarrow> bool" where
  "isCreated pod \<longleftrightarrow> Phase (p_Status pod) \<noteq> []"

definition isFailed :: "pod \<Rightarrow> bool" where
  "isFailed pod \<longleftrightarrow> Phase (p_Status pod) = PodFailed"

definition isTerminating :: "pod \<Rightarrow> bool" where
  "isTerminating pod \<longleftrightarrow> DeletionTimestamp (p_Meta pod) \<noteq> None"

definition isHealthy :: "coreLib \<Rightarrow> pod \<Rightarrow> bool" where
  "isHealthy L pod \<longleftrightarrow> isRunningAndReady L pod \<and> \<not> isTerminating pod"

definition allowsBurst :: "statefulSet \<Rightarrow> bool" where
  "allowsBurst sts \<longleftrightarrow> PodManagementPolicy (set_Spec sts) = ParallelPodManagement"

definition setPodRevision :: "pod \<Rightarrow> string \<Rightarrow> pod" where
  "setPodRevision pod revision =
     pod\<lparr>p_Meta := (p_Meta pod)\<lparr>Labels := mapPut (podLabels pod) StatefulSetRevisionLabel revision\<rparr>\<rparr>"

definition metaRevision :: "objectMeta \<Rightarrow> string" where
  "metaRevision m = mapGet (Labels m) StatefulSetRevisionLabel"

definition getPodRevision :: "pod \<Rightarrow> string" where
  "getPodRevision pod = (case podLabels pod of None \<Rightarrow> [] | Some _ \<Rightarrow> mapGet (podLabels pod) StatefulSetRevisionLabel)"

section \<open>Creating pods\<close>

definition coordinatorPod :: "'w k8s \<Rightarrow> statefulSet \<Rightarrow> pod \<Rightarrow> int \<Rightarrow> pod option" where
  "coordinatorPod e sts pod ordinal =
     (let annotations = Annotations (t_Meta (Template (set_Spec sts)))
      in if annotations = None then Some pod
         else case mapLookup annotations ''coordinates'' of
             None \<Rightarrow> Some pod
           | Some cords \<Rightarrow>
               (case lib_UnmarshalCoordinates (codec e) cords of
                  Inl err \<Rightarrow> Some pod
                | Inr coordinates \<Rightarrow>
                    if coordinates = [] then None
                    else
                      let na = organizationNodeAffinity (coordinates ! nat (ordinal mod int (length coordinates)))
                      in case Affinity (p_Spec pod) of
                           None \<Rightarrow> Some (pod\<lparr>p_Spec := (p_Spec pod)\<lparr>Affinity :=
                                     Some \<lparr>NodeAffinity = Some na, aff_rest = []\<rparr>\<rparr>\<rparr>)
                         | Some a \<Rightarrow>
                             (case NodeAffinity a of
                                None \<Rightarrow> Some (pod\<lparr>p_Spec := (p_Spec pod)\<lparr>Affinity :=
                                     Some \<lparr>NodeAffinity = Some na, aff_rest = []\<rparr>\<rparr>\<rparr>)
                              | Some _ \<Rightarrow> Some pod)))"

definition newStatefulSetPod :: "'w k8s \<Rightarrow> statefulSet \<Rightarrow> int \<Rightarrow> pod option" where
  "newStatefulSetPod e sts ordinal =
     do {
       pod \<leftarrow> lib_GetPodFromTemplate (core e) (Template (set_Spec sts)) (set_Meta sts)
                (Some (lib_NewControllerRef (core e) (set_Meta sts) controllerKind));
       let pod = pod\<lparr>p_Meta := (p_Meta pod)\<lparr>Name := getPodName sts ordinal\<rparr>\<rparr>;
       let pod = initIdentity sts pod;
       pod \<leftarrow> updateStorage (core e) sts pod;
       coordinatorPod e sts pod ordinal
     }"

definition usesCurrentRevision :: "statefulSet \<Rightarrow> int \<Rightarrow> bool option" where
  \<comment> \<open>the condition of \<open>newVersionedStatefulSetPod\<close>, with the nil dereferences of its evaluation order\<close>
  "usesCurrentRevision currentSet ordinal =
     do {
       us \<leftarrow> UpdateStrategy (set_Spec currentSet);
       case RollingUpdate us of
         None \<Rightarrow> Some (us_Type us = RollingUpdateStatefulSetStrategyType
                        \<and> ordinal < sint (CurrentReplicas (set_Status currentSet)))
       | Some ru \<Rightarrow> (case Partition ru of None \<Rightarrow> None | Some p \<Rightarrow> Some (ordinal < sint p))
     }"

definition newVersionedStatefulSetPod ::
  "'w k8s \<Rightarrow> statefulSet \<Rightarrow> statefulSet \<Rightarrow> string \<Rightarrow> string \<Rightarrow> int \<Rightarrow> pod option" where
  "newVersionedStatefulSetPod e currentSet updateSet currentRevision updateRevision ordinal =
     do {
       useCurrent \<leftarrow> usesCurrentRevision currentSet ordinal;
       if useCurrent then do {
         pod \<leftarrow> newStatefulSetPod e currentSet ordinal;
         Some (setPodRevision pod currentRevision)
       } else do {
         pod \<leftarrow> newStatefulSetPod e updateSet ordinal;
         Some (setPodRevision pod updateRevision)
       }
     }"

section \<open>Sorting pods\<close>

text \<open>The \<^verbatim>\<open>sort.Interface\<close> of \<^verbatim>\<open>ascendingOrdinal\<close>; an index out of range is a panic.\<close>

definition ascendingOrdinal_Len :: "pod list \<Rightarrow> int" where
  "ascendingOrdinal_Len ao = int (length ao)"

definition ascendingOrdinal_Swap :: "pod list \<Rightarrow> nat \<Rightarrow> nat \<Rightarrow> pod list option" where
  "ascendingOrdinal_Swap ao i j =
     (if length ao \<le> i \<or> length ao \<le> j then None else Some (ao[i := ao ! j, j := ao ! i]))"

definition ascendingOrdinal_Less :: "pod list \<Rightarrow> nat \<Rightarrow> nat \<Rightarrow> bool option" where
  "ascendingOrdinal_Less ao i j =
     (if length ao \<le> i \<or> length ao \<le> j then None else Some (getOrdinal (ao ! i) < getOrdinal (ao ! j)))"

text \<open>Sorting by the key \<open>getOrdinal\<close>, as the model does, is sorting by this interface.\<close>

lemma sorts_pods_ascending:
  assumes "sorts_pods L" and "i < j" and "j < length ps"
  shows "ascendingOrdinal_Less (lib_Sort L getOrdinal ps) j i = Some False"
proof -
  have "mset (lib_Sort L getOrdinal ps) = mset ps" and "sorted (map getOrdinal (lib_Sort L getOrdinal ps))"
    using assms(1) by (auto simp: sorts_pods_def)
  moreover from this(1) have "length (lib_Sort L getOrdinal ps) = length ps" by (rule mset_eq_length)
  ultimately show ?thesis
    using assms(2,3)
    by (auto simp: ascendingOrdinal_Less_def not_less sorted_iff_nth_mono_less)
qed

section \<open>Facts: names and ordinals\<close>

text \<open>Kubernetes names have no newline, which is all the regular expression needs.\<close>

definition validName :: "string \<Rightarrow> bool" where
  "validName n \<longleftrightarrow> CHR 0x0A \<notin> List.set n"

lemma statefulPodRegex_show:
  assumes "validName n"
  shows "statefulPodRegex (n @ CHR ''-'' # showNat k) = Some (n, showNat k)"
proof -
  have digits: "takeWhile isDigit (rev (showNat k) @ CHR ''-'' # rev n) = rev (showNat k)"
    and front: "dropWhile isDigit (rev (showNat k) @ CHR ''-'' # rev n) = CHR ''-'' # rev n"
    by (auto simp: takeWhile_append dropWhile_append dest: showNat_digits)
  have line: "takeWhile (\<lambda>c. c \<noteq> CHR 0x0A) (rev n) = rev n"
    using assms by (auto simp: validName_def takeWhile_eq_all_conv)
  show ?thesis by (simp add: statefulPodRegex_def Let_def digits front line)
qed

lemma getParentNameAndOrdinal_name:
  assumes "validName n" and "k \<le> 2147483647" and "podName p = n @ CHR ''-'' # showNat k"
  shows "getParentNameAndOrdinal p = (n, int k)"
  using assms statefulPodRegex_show [of n k] by (simp add: getParentNameAndOrdinal_def ParseInt32_showNat)

definition validOrdinal :: "int \<Rightarrow> bool" where
  "validOrdinal i \<longleftrightarrow> 0 \<le> i \<and> i \<le> 2147483647"

lemma getParentNameAndOrdinal_getPodName:
  assumes "validName (setName sts)" and "validOrdinal i" and "podName p = getPodName sts i"
  shows "getParentNameAndOrdinal p = (setName sts, i)"
  using assms getParentNameAndOrdinal_name [of "setName sts" "nat i" p]
  by (simp add: getPodName_def showInt_def validOrdinal_def nat_le_iff)

lemma getOrdinal_range: "- 1 \<le> getOrdinal p \<and> getOrdinal p \<le> 2147483647"
  by (auto simp: getOrdinal_def getParentNameAndOrdinal_def split: option.splits dest: ParseInt32_bounds)

lemma getPodName_inj:
  assumes "getPodName sts i = getPodName sts j" shows "i = j"
proof -
  have inj: "showNat a = showNat b \<Longrightarrow> a = b" for a b by (metis readNat_showNat)
  have nd: "showNat a \<noteq> CHR ''-'' # cs" for a cs
    using dash_notin_showNat [of a] by (metis list.set_intros(1))
  from assms have "showInt i = showInt j" by (simp add: getPodName_def)
  then show ?thesis
    by (auto simp: showInt_def nd nd [symmetric] dest!: inj split: if_splits)
qed

section \<open>Facts: identity\<close>

lemma podName_updateIdentity [simp]: "podName (updateIdentity sts p) = getPodName sts (getOrdinal p)"
  by (simp add: updateIdentity_def Let_def)

lemma updateIdentity_matches:
  assumes "validName (setName sts)" and "0 \<le> getOrdinal p"
  shows "identityMatches sts (updateIdentity sts p)"
proof -
  from assms getOrdinal_range [of p] have "validOrdinal (getOrdinal p)" by (simp add: validOrdinal_def)
  with assms have "getParentNameAndOrdinal (updateIdentity sts p) = (setName sts, getOrdinal p)"
    by (simp add: getParentNameAndOrdinal_getPodName)
  with assms show ?thesis by (simp add: identityMatches_def updateIdentity_def Let_def)
qed

lemma identityMatches_frame:
  assumes "p_Meta p' = p_Meta p" shows "identityMatches sts p' = identityMatches sts p"
  using assms by (simp add: identityMatches_def getParentNameAndOrdinal_def)

lemma getOrdinal_frame: "podName p' = podName p \<Longrightarrow> getOrdinal p' = getOrdinal p"
  by (simp add: getOrdinal_def getParentNameAndOrdinal_def)

section \<open>Facts: storage\<close>

lemma volumeMap_append: "volumeMap (xs @ ys) n = (case volumeMap ys n of None \<Rightarrow> volumeMap xs n | Some v \<Rightarrow> Some v)"
  by (simp add: volumeMap_def map_add_def split: option.split)

lemma volumeMap_filter_None: "m n \<noteq> None \<Longrightarrow> volumeMap (filter (\<lambda>v. m (v_Name v) = None) vs) n = None"
  by (auto simp: volumeMap_def map_of_eq_None_iff)

lemma map_of_fold_update:
  "map_of (fold (\<lambda>t. AList.update (k t) (v t)) ts al) n
     = (case map_of (rev (map (\<lambda>t. (k t, v t)) ts)) n of None \<Rightarrow> map_of al n | Some x \<Rightarrow> Some x)"
  by (induction ts arbitrary: al) (auto simp: update_conv' map_add_def split: option.splits)

lemma distinct_fold_update:
  "distinct (map fst al) \<Longrightarrow> distinct (map fst (fold (\<lambda>t. AList.update (k t) (v t)) ts al))"
  by (induction ts arbitrary: al) (auto simp: distinct_update)

text \<open>The set of volume claims is never refused: it has no templates, or a selector to label them with.\<close>

definition storageSafe :: "statefulSet \<Rightarrow> bool" where
  "storageSafe sts \<longleftrightarrow> VolumeClaimTemplates (set_Spec sts) = [] \<or> Selector (set_Spec sts) \<noteq> None"

lemma getPersistentVolumeClaims_wf [wf_intros]:
  "storageSafe sts \<Longrightarrow> \<exists>claims. getPersistentVolumeClaims sts p = Some claims"
  by (auto simp: getPersistentVolumeClaims_def storageSafe_def Let_def split: list.splits option.splits)

lemma getPersistentVolumeClaims_spec:
  assumes "getPersistentVolumeClaims sts p = Some claims"
  shows "distinct (map fst claims)"
    and "map_of claims n = Some c \<Longrightarrow>
      \<exists>t \<in> List.set (VolumeClaimTemplates (set_Spec sts)). Name (pvc_Meta t) = n
        \<and> Name (pvc_Meta c) = getPersistentVolumeClaimName sts t (getOrdinal p)
        \<and> Namespace (pvc_Meta c) = setNamespace sts"
    and "t \<in> List.set (VolumeClaimTemplates (set_Spec sts)) \<Longrightarrow> map_of claims (Name (pvc_Meta t)) \<noteq> None"
proof -
  let ?ts = "VolumeClaimTemplates (set_Spec sts)"
  obtain sel where claims: "claims = fold (\<lambda>t. AList.update (Name (pvc_Meta t))
      (podClaim sts sel (getOrdinal p) t)) ?ts []"
    using assms by (auto simp: getPersistentVolumeClaims_def Let_def split: list.splits option.splits)
  show "distinct (map fst claims)" by (simp add: claims distinct_fold_update)
  have lookup: "map_of claims n = map_of (rev (map (\<lambda>t. (Name (pvc_Meta t), podClaim sts sel (getOrdinal p) t)) ?ts)) n" for n
    by (simp add: claims map_of_fold_update split: option.splits)
  show "\<exists>t \<in> List.set ?ts. Name (pvc_Meta t) = n
        \<and> Name (pvc_Meta c) = getPersistentVolumeClaimName sts t (getOrdinal p)
        \<and> Namespace (pvc_Meta c) = setNamespace sts" if "map_of claims n = Some c"
    using that unfolding lookup by (force dest!: map_of_SomeD simp: podClaim_def)
  show "map_of claims (Name (pvc_Meta t)) \<noteq> None" if "t \<in> List.set ?ts"
    using that unfolding lookup by (auto simp: map_of_eq_None_iff image_image)
qed

lemma volumeMap_Some_iff:
  assumes "distinct (map v_Name vs)"
  shows "volumeMap vs n = Some v \<longleftrightarrow> v \<in> List.set vs \<and> v_Name v = n"
proof -
  have "distinct (map fst (rev (map (\<lambda>v. (v_Name v, v)) vs)))"
    using assms by (simp add: rev_map [symmetric] comp_def)
  then show ?thesis by (auto simp: volumeMap_def map_of_eq_Some_iff)
qed

lemma volumeMap_claims:
  assumes "mset cs' = mset cs" and "distinct (map fst cs)"
  shows "volumeMap (map claimVolume cs') n = map_option (\<lambda>c. claimVolume (n, c)) (map_of cs n)"
proof -
  have "mset (map fst cs') = mset (map fst cs)" using assms(1) by simp
  with assms(2) have d: "distinct (map fst cs')" by (metis mset_eq_imp_distinct_iff)
  from d have "volumeMap (map claimVolume cs') n = Some v \<longleftrightarrow> (\<exists>c. map_of cs n = Some c \<and> v = claimVolume (n, c))" for v
    using assms mset_eq_setD [OF assms(1)]
    by (auto simp: volumeMap_Some_iff comp_def claimVolume_def map_of_eq_Some_iff intro: rev_image_eqI)
  then show ?thesis by (cases "map_of cs n") (auto intro: option.exhaust)
qed

lemma updateStorage_frame:
  assumes "updateStorage L sts p = Some p'"
  shows "p_Meta p' = p_Meta p" "p_Status p' = p_Status p" "Hostname (p_Spec p') = Hostname (p_Spec p)"
    "Affinity (p_Spec p') = Affinity (p_Spec p)"
  using assms by (auto simp: updateStorage_def Let_def split: option.splits)

lemma updateStorage_wf [wf_intros]: "storageSafe sts \<Longrightarrow> \<exists>p'. updateStorage L sts p = Some p'"
  using getPersistentVolumeClaims_wf [of sts p] by (auto simp: updateStorage_def Let_def)

lemma updateStorage_matches:
  assumes "ranges_all L" and "updateStorage L sts p = Some p'" and "0 \<le> getOrdinal p"
  shows "storageMatches sts p'"
proof -
  from assms(2) obtain claims where claims: "getPersistentVolumeClaims sts p = Some claims"
    and vols: "Volumes (p_Spec p') = Some (map claimVolume (lib_RangeClaims L claims)
        @ filter (\<lambda>v. map_of claims (v_Name v) = None) (slice (Volumes (p_Spec p))))"
    by (auto simp: updateStorage_def Let_def split: option.splits)
  note spec = getPersistentVolumeClaims_spec [OF claims]
  have ord: "getOrdinal p' = getOrdinal p"
    using updateStorage_frame(1) [OF assms(2)] by (simp add: getOrdinal_frame [of p' p])
  have "case volumeMap (slice (Volumes (p_Spec p'))) (Name (pvc_Meta t)) of None \<Rightarrow> False
      | Some v \<Rightarrow> (case v_PVC v of None \<Rightarrow> False
          | Some src \<Rightarrow> ClaimName src = getPersistentVolumeClaimName sts t (getOrdinal p))"
    if t: "t \<in> List.set (VolumeClaimTemplates (set_Spec sts))" for t
  proof -
    from spec(3) [OF t] obtain c where c: "map_of claims (Name (pvc_Meta t)) = Some c" by blast
    from spec(2) [OF c] have "Name (pvc_Meta c) = getPersistentVolumeClaimName sts t (getOrdinal p)"
      by (auto simp: getPersistentVolumeClaimName_def)
    moreover have "volumeMap (slice (Volumes (p_Spec p'))) (Name (pvc_Meta t))
        = Some (claimVolume (Name (pvc_Meta t), c))"
      using assms(1) spec(1) c
      by (simp add: vols volumeMap_append volumeMap_filter_None volumeMap_claims [of _ claims] ranges_all_def)
    ultimately show ?thesis by (simp add: claimVolume_def)
  qed
  with assms(3) ord show ?thesis by (simp add: storageMatches_def list_all_iff)
qed

lemma storageMatches_frame:
  assumes "podName p' = podName p" and "Volumes (p_Spec p') = Volumes (p_Spec p)"
  shows "storageMatches sts p' = storageMatches sts p"
  using assms by (simp add: storageMatches_def getOrdinal_frame [of p' p])

section \<open>Facts: new pods\<close>

definition coordinatesSafe :: "'w k8s \<Rightarrow> statefulSet \<Rightarrow> bool" where
  "coordinatesSafe e sts \<longleftrightarrow>
     (case mapLookup (Annotations (t_Meta (Template (set_Spec sts)))) ''coordinates'' of
        None \<Rightarrow> True | Some c \<Rightarrow> lib_UnmarshalCoordinates (codec e) c \<noteq> Inr [])"

lemma coordinatorPod_frame:
  assumes "coordinatorPod e sts p i = Some p'"
  shows "p_Meta p' = p_Meta p" "p_Status p' = p_Status p"
    "Volumes (p_Spec p') = Volumes (p_Spec p)" "Hostname (p_Spec p') = Hostname (p_Spec p)"
  using assms by (auto simp: coordinatorPod_def Let_def split: option.splits sum.splits if_splits)

lemma coordinatorPod_wf [wf_intros]:
  "coordinatesSafe e sts \<Longrightarrow> \<exists>p'. coordinatorPod e sts p i = Some p'"
  by (auto simp: coordinatorPod_def coordinatesSafe_def Let_def split: option.splits sum.splits)

lemma newStatefulSetPod_wf [wf_intros]:
  assumes "fresh_pods (core e)" and "storageSafe sts" and "coordinatesSafe e sts"
  shows "\<exists>p. newStatefulSetPod e sts i = Some p"
proof -
  from assms(1) obtain p0 where p0: "lib_GetPodFromTemplate (core e) (Template (set_Spec sts)) (set_Meta sts)
      (Some (lib_NewControllerRef (core e) (set_Meta sts) controllerKind)) = Some p0"
    by (rule fresh_podsE)
  define p1 where "p1 = initIdentity sts (p0\<lparr>p_Meta := (p_Meta p0)\<lparr>Name := getPodName sts i\<rparr>\<rparr>)"
  from updateStorage_wf [OF assms(2)] obtain p2 where "updateStorage (core e) sts p1 = Some p2" by blast
  with p0 coordinatorPod_wf [OF assms(3), of p2 i] show ?thesis
    by (auto simp: newStatefulSetPod_def Let_def p1_def)
qed

lemma newStatefulSetPod_spec:
  assumes "fresh_pods (core e)" and "ranges_all (core e)" and "validName (setName sts)"
    and "validOrdinal i" and "newStatefulSetPod e sts i = Some p"
  shows "identityMatches sts p" "storageMatches sts p" "podName p = getPodName sts i"
    "\<not> isCreated p" "\<not> isTerminating p" "Hostname (p_Spec p) = podName p"
proof -
  obtain p0 where p0: "lib_GetPodFromTemplate (core e) (Template (set_Spec sts)) (set_Meta sts)
      (Some (lib_NewControllerRef (core e) (set_Meta sts) controllerKind)) = Some p0"
    and fresh: "Phase (p_Status p0) = []" "DeletionTimestamp (p_Meta p0) = None"
    using assms(1) by (rule fresh_podsE)
  define q where "q = p0\<lparr>p_Meta := (p_Meta p0)\<lparr>Name := getPodName sts i\<rparr>\<rparr>"
  define p1 where "p1 = initIdentity sts q"
  from assms(5) p0 obtain p2 where p2: "updateStorage (core e) sts p1 = Some p2"
    and p: "coordinatorPod e sts p2 i = Some p"
    by (auto simp: newStatefulSetPod_def Let_def p1_def q_def bind_eq_Some_conv)
  note frames = updateStorage_frame [OF p2] coordinatorPod_frame [OF p]
  have ordq: "getOrdinal q = i"
    using assms(3,4) getParentNameAndOrdinal_getPodName [of sts i q] by (simp add: getOrdinal_def q_def)
  then have meta: "p_Meta p1 = p_Meta (updateIdentity sts q)" "podName p1 = getPodName sts i"
    by (simp_all add: p1_def initIdentity_def Let_def)
  from meta(2) have "getOrdinal p1 = getOrdinal q" by (intro getOrdinal_frame) (simp add: q_def)
  with ordq assms(4) have ord1: "0 \<le> getOrdinal p1" by (simp add: validOrdinal_def)
  from assms(3,4) ordq have "identityMatches sts (updateIdentity sts q)"
    by (intro updateIdentity_matches) (auto simp: validOrdinal_def)
  with meta frames show "identityMatches sts p" by (metis identityMatches_frame)
  from updateStorage_matches [OF assms(2) p2 ord1] frames show "storageMatches sts p"
    by (metis storageMatches_frame)
  from meta frames show "podName p = getPodName sts i" by simp
  with fresh frames show "\<not> isCreated p" "\<not> isTerminating p" "Hostname (p_Spec p) = podName p"
    by (simp_all add: isCreated_def isTerminating_def p1_def q_def initIdentity_def updateIdentity_def Let_def)
qed

lemma setPodRevision_frame [simp]:
  "podName (setPodRevision p r) = podName p"
  "podKey (setPodRevision p r) = podKey p"
  "p_Status (setPodRevision p r) = p_Status p"
  "p_Spec (setPodRevision p r) = p_Spec p"
  "isCreated (setPodRevision p r) = isCreated p"
  "isTerminating (setPodRevision p r) = isTerminating p"
  "getPodRevision (setPodRevision p r) = r"
  by (simp_all add: setPodRevision_def metaKey_def isCreated_def isTerminating_def getPodRevision_def
      mapPut_def mapGet_def)

lemma identityMatches_setPodRevision [simp]:
  "identityMatches sts (setPodRevision p r) = identityMatches sts p"
  by (simp add: identityMatches_def getParentNameAndOrdinal_def setPodRevision_def)

lemma storageMatches_setPodRevision [simp]:
  "storageMatches sts (setPodRevision p r) = storageMatches sts p"
  by (rule storageMatches_frame) simp_all

lemma getPodRevision_meta: "getPodRevision p = metaRevision (p_Meta p)"
  by (auto simp: getPodRevision_def metaRevision_def mapGet_def split: option.splits)

section \<open>Properties\<close>

lemma ParseInt32_large: "2147483647 < n \<Longrightarrow> ParseInt32 (showNat n) = None"
  by (simp add: ParseInt32_def)

text \<open>
  C22. The name of the pod at ordinal \<open>i\<close> reads back as the set's name and \<open>i\<close>, whatever dashes and digits the set's
  name has, as long as \<open>i\<close> is a 32-bit number; beyond it the pod is still a member of the set and its ordinal reads
  as -1.
\<close>

theorem podName_roundtrip:
  assumes "validName (setName sts)" and "0 \<le> i" and "podName p = getPodName sts i"
  shows "getParentName p = setName sts \<and> isMemberOf sts p \<and> getOrdinal p = (if i \<le> 2147483647 then i else - 1)"
proof -
  from assms(2,3) have "podName p = setName sts @ CHR ''-'' # showNat (nat i)" by (simp add: getPodName_def showInt_def)
  with statefulPodRegex_show [OF assms(1), of "nat i"] assms(2) ParseInt32_showNat [of "nat i"] ParseInt32_large [of "nat i"]
  show ?thesis
    by (auto simp: getParentName_def isMemberOf_def getOrdinal_def getParentNameAndOrdinal_def nat_le_iff)
qed

definition webSet :: statefulSet where "webSet = sampleSet 2 0 ''OrderedReady''"

theorem podName_roundtrip_witness:
  "getParentName (samplePod ''web-12'' [] []) = ''web'' \<and> getOrdinal (samplePod ''web-12'' [] []) = 12"
proof -
  have "setName webSet = ''web''" "validName (setName webSet)" by (simp_all add: webSet_def sampleSet_def validName_def)
  moreover have "podName (samplePod ''web-12'' [] []) = getPodName webSet 12" by code_simp
  ultimately show ?thesis using podName_roundtrip [of webSet 12 "samplePod ''web-12'' [] []"] by simp
qed

text \<open>
  C21. What \<open>UpdateStatefulPod\<close> does to a pod with an ordinal restores both invariants it checks: after
  \<open>updateIdentity\<close> and \<open>updateStorage\<close> the pod's identity and its storage match the set.
\<close>

theorem update_restores_invariants:
  assumes "ranges_all L" and "validName (setName sts)" and "0 \<le> getOrdinal p"
    and "updateStorage L sts (updateIdentity sts p) = Some p'"
  shows "identityMatches sts p' \<and> storageMatches sts p'"
proof -
  have id: "identityMatches sts (updateIdentity sts p)" by (rule updateIdentity_matches [OF assms(2,3)])
  then have "0 \<le> getOrdinal (updateIdentity sts p)"
    by (simp add: identityMatches_def getOrdinal_def split: prod.splits)
  from updateStorage_matches [OF assms(1,4) this] id identityMatches_frame [OF updateStorage_frame(1) [OF assms(4)]]
  show ?thesis by simp
qed

theorem update_restores_invariants_witness:
  "\<exists>p'. updateStorage sampleCore webSet (updateIdentity webSet (samplePod ''old-1'' [] [])) = Some p'
     \<and> identityMatches webSet p' \<and> storageMatches webSet p'"
proof -
  have v: "validName (setName webSet)" by (simp add: webSet_def sampleSet_def validName_def)
  have o: "0 \<le> getOrdinal (samplePod ''old-1'' [] [])" by code_simp
  have "storageSafe webSet" by (simp add: storageSafe_def webSet_def sampleSet_def)
  from updateStorage_wf [OF this] obtain p' where
    "updateStorage sampleCore webSet (updateIdentity webSet (samplePod ''old-1'' [] [])) = Some p'" by blast
  with update_restores_invariants [OF _ v o this] show ?thesis by simp
qed

text \<open>
  C23. The pod built for an ordinal of a set with a rolling update: below the partition it is of the current revision
  and otherwise of the update revision; its identity and storage match the set it is built from, and it is neither
  created nor terminating.
\<close>

theorem newVersionedStatefulSetPod_at:
  assumes "fresh_pods (core e)" and "ranges_all (core e)" and "validName (setName cur)" and "validName (setName upd)"
    and "validOrdinal i" and "UpdateStrategy (set_Spec cur) = Some us" and "RollingUpdate us = Some ru"
    and "Partition ru = Some part" and "newVersionedStatefulSetPod e cur upd curRev updRev i = Some p"
  shows "getPodRevision p = (if i < sint part then curRev else updRev)
    \<and> identityMatches (if i < sint part then cur else upd) p \<and> storageMatches (if i < sint part then cur else upd) p
    \<and> podName p = getPodName (if i < sint part then cur else upd) i \<and> getOrdinal p = i
    \<and> \<not> isCreated p \<and> \<not> isTerminating p"
proof -
  let ?sts = "if i < sint part then cur else upd"
  from assms(6-9) obtain q where q: "newStatefulSetPod e ?sts i = Some q"
    "p = setPodRevision q (if i < sint part then curRev else updRev)"
    by (auto simp: newVersionedStatefulSetPod_def usesCurrentRevision_def bind_eq_Some_conv split: if_splits)
  have v: "validName (setName ?sts)" using assms(3,4) by simp
  note new = newStatefulSetPod_spec [OF assms(1,2) v assms(5) q(1)]
  have "getParentNameAndOrdinal p = (setName ?sts, i)"
    by (rule getParentNameAndOrdinal_getPodName [OF v assms(5)]) (simp add: q(2) new(3))
  then have "getOrdinal p = i" by (simp add: getOrdinal_def)
  with new show ?thesis by (simp add: q(2))
qed

theorem newVersionedStatefulSetPod_at_witness:
  "\<exists>p. newVersionedStatefulSetPod (sampleEnv webSet) (sampleSet 2 1 ''OrderedReady'') webSet ''r1'' ''r2'' 0 = Some p
     \<and> getPodRevision p = ''r1''"
proof -
  let ?cur = "sampleSet 2 1 ''OrderedReady''"
  have safe: "newVersionedStatefulSetPod (sampleEnv webSet) ?cur webSet ''r1'' ''r2'' 0 \<noteq> None" by code_simp
  then obtain p where p: "newVersionedStatefulSetPod (sampleEnv webSet) ?cur webSet ''r1'' ''r2'' 0 = Some p" by blast
  have v: "validName (setName ?cur)" "validName (setName webSet)" by (simp_all add: webSet_def sampleSet_def validName_def)
  have o: "validOrdinal 0" by (simp add: validOrdinal_def)
  have us: "UpdateStrategy (set_Spec ?cur) = Some (sampleStrategy 1)" by (simp add: sampleSet_def)
  from newVersionedStatefulSetPod_at [OF sample_fresh_pods sample_ranges_all v o us, of _ 1, OF _ _ p] p show ?thesis
    by (simp add: sampleStrategy_def)
qed

end
