(* ===== verification/Revisions.thy ===== *)
theory Revisions
  imports Identity
begin

text \<open>
  The revision history of a StatefulSet: patches and revisions (\<^verbatim>\<open>stateful_set_utils.go\<close>, second half), the
  implementation of \<^verbatim>\<open>history.Interface\<close> (\<^verbatim>\<open>revision_control.go\<close>) and the history part of
  \<^verbatim>\<open>stateful_set_control.go\<close> (\<open>ListRevisions\<close>, \<open>AdoptOrphanRevisions\<close>, \<open>truncateHistory\<close>,
  \<open>getStatefulSetRevisions\<close>).

  A value of the Go interface \<^verbatim>\<open>history.Interface\<close> is the record \<open>historyInterface\<close>, which its clients
  take as an argument; its contract is the locale \<open>controller_history\<close>, interpreted on \<open>realHistory\<close>.
\<close>

section \<open>Patches and revisions\<close>

fun jsonFields :: "json \<Rightarrow> (string \<times> json) list option" where
  \<comment> \<open>the type assertion \<open>x.(map[string]interface{})\<close>\<close>
  "jsonFields (JObj fs) = Some fs"
| "jsonFields _ = None"

definition getPatch :: "codecLib \<Rightarrow> statefulSet \<Rightarrow> (error + bytes) option" where
  "getPatch C sts =
     (case lib_EncodeSet C sts of
        Inl err \<Rightarrow> Some (Inl err)
      | Inr str \<Rightarrow>
          do {
            raw \<leftarrow> lib_ParseJson C str;
            rawMap \<leftarrow> jsonFields raw;
            spec \<leftarrow> map_of rawMap ''spec'';
            specMap \<leftarrow> jsonFields spec;
            template \<leftarrow> map_of specMap ''template'';
            templateMap \<leftarrow> jsonFields template;
            let template' = JObj (AList.update ''$patch'' (JStr ''replace'') templateMap);
            Some (Inr (lib_PrintJson C (JObj [(''spec'', JObj [(''template'', template')])])))
          })"

definition Match :: "codecLib \<Rightarrow> statefulSet \<Rightarrow> controllerRevision \<Rightarrow> (error + bool) option" where
  "Match C ss history =
     (case getPatch C ss of
        None \<Rightarrow> None
      | Some (Inl err) \<Rightarrow> Some (Inl err)
      | Some (Inr patch) \<Rightarrow> Some (Inr (patch = cr_Raw history)))"

definition mergeAnnotations :: "gomap \<Rightarrow> gomap \<Rightarrow> gomap" where
  "mergeAnnotations m m' =
     Some ((case m of None \<Rightarrow> Map.empty | Some f \<Rightarrow> f) ++ (case m' of None \<Rightarrow> Map.empty | Some f \<Rightarrow> f))"

definition newRevision ::
  "'w k8s \<Rightarrow> statefulSet \<Rightarrow> int64 \<Rightarrow> int32 \<Rightarrow> (error + controllerRevision) option" where
  "newRevision e sts revision collisionCount =
     (case getPatch (codec e) sts of
        None \<Rightarrow> None
      | Some (Inl err) \<Rightarrow> Some (Inl err)
      | Some (Inr patch) \<Rightarrow>
          (case lib_NewControllerRevision (hist e) (set_Meta sts) controllerKind
                  (Labels (t_Meta (Template (set_Spec sts)))) patch revision collisionCount of
             Inl err \<Rightarrow> Some (Inl err)
           | Inr cr \<Rightarrow>
               Some (Inr (cr\<lparr>cr_Meta := (cr_Meta cr)
                  \<lparr>Annotations := mergeAnnotations (Annotations (cr_Meta cr)) (Annotations (set_Meta sts))\<rparr>\<rparr>))))"

definition ApplyRevision :: "codecLib \<Rightarrow> statefulSet \<Rightarrow> controllerRevision \<Rightarrow> (error + statefulSet) option" where
  "ApplyRevision C sts revision =
     (case lib_EncodeSet C sts of
        Inl err \<Rightarrow> None
      | Inr str \<Rightarrow>
          (case lib_StrategicMergePatch C str (cr_Raw revision) of
             Inl err \<Rightarrow> Some (Inl err)
           | Inr patched \<Rightarrow> Some (lib_DecodeSet C patched)))"

definition nextRevision :: "controllerRevision list \<Rightarrow> int64" where
  "nextRevision revisions = (if revisions = [] then 1 else Revision (last revisions) + 1)"

section \<open>The history interface and its implementation\<close>

record 'w historyInterface =
  ListControllerRevisions ::
    "objectMeta \<Rightarrow> labelSelector option \<Rightarrow> 'w sys \<Rightarrow> (error + controllerRevision list) \<times> 'w sys"
  CreateControllerRevision ::
    "objectMeta \<Rightarrow> controllerRevision \<Rightarrow> int32 option \<Rightarrow> 'w sys
       \<Rightarrow> ((error + controllerRevision) \<times> int32 option \<times> 'w sys) option"
  UpdateControllerRevision ::
    "controllerRevision \<Rightarrow> int64 \<Rightarrow> 'w sys \<Rightarrow> ((error + controllerRevision) \<times> 'w sys) option"
  DeleteControllerRevision ::
    "controllerRevision \<Rightarrow> 'w sys \<Rightarrow> error option \<times> 'w sys"
  AdoptControllerRevision ::
    "objectMeta \<Rightarrow> groupVersionKind \<Rightarrow> controllerRevision \<Rightarrow> 'w sys \<Rightarrow> (error + controllerRevision) \<times> 'w sys"
  ReleaseControllerRevision ::
    "objectMeta \<Rightarrow> controllerRevision \<Rightarrow> 'w sys \<Rightarrow> (error + controllerRevision option) \<times> 'w sys"

fun revisionsOf :: "obj list \<Rightarrow> controllerRevision list" where
  "revisionsOf [] = []"
| "revisionsOf (RevObj r # ys) = r # revisionsOf ys"
| "revisionsOf (_ # ys) = revisionsOf ys"

definition rh_ListControllerRevisions ::
  "'w k8s \<Rightarrow> objectMeta \<Rightarrow> labelSelector option \<Rightarrow> 'w sys \<Rightarrow> (error + controllerRevision list) \<times> 'w sys" where
  "rh_ListControllerRevisions e parent selector s =
     (case clientList e RevK (Namespace parent) (Some selector) s of
        (Inl err, s') \<Rightarrow> (Inl err, s')
      | (Inr items, s') \<Rightarrow>
          (Inr (filter (\<lambda>r. case lib_GetControllerOf (core e) (cr_Meta r) of
                              None \<Rightarrow> True | Some ref \<Rightarrow> or_UID ref = UID parent)
                       (revisionsOf items)), s'))"

partial_function (option) createRevisionLoop ::
  "'w k8s \<Rightarrow> objectMeta \<Rightarrow> controllerRevision \<Rightarrow> controllerRevision \<Rightarrow> int32 \<Rightarrow> 'w sys
     \<Rightarrow> ((error + controllerRevision) \<times> int32 option \<times> 'w sys) option" where
  "createRevisionLoop e parent revision clone collisionCount s =
     (let hash = lib_HashControllerRevision (hist e) revision collisionCount;
          clone = clone\<lparr>cr_Meta := (cr_Meta clone)
             \<lparr>Name := lib_ControllerRevisionName (hist e) (Name parent) hash, Namespace := Namespace parent\<rparr>\<rparr>
      in case writeAs asRev e (CreateCall (RevObj clone)) clone s of
           (err, created, s1) \<Rightarrow>
             if IsAlreadyExists err then
               (case getAs asRev e RevK (metaKey (cr_Meta clone)) s1 of
                  (got, s2) \<Rightarrow>
                    (case got of
                       Inl err \<Rightarrow> Some (Inl err, Some collisionCount, s2)
                     | Inr exists \<Rightarrow>
                         if cr_Raw exists = cr_Raw clone then Some (Inr exists, Some collisionCount, s2)
                         else createRevisionLoop e parent revision clone (collisionCount + 1) s2))
             else Some (case err of Some x \<Rightarrow> Inl x | None \<Rightarrow> Inr created, Some collisionCount, s1))"

declare createRevisionLoop.simps [code]

definition rh_CreateControllerRevision ::
  "'w k8s \<Rightarrow> objectMeta \<Rightarrow> controllerRevision \<Rightarrow> int32 option \<Rightarrow> 'w sys
     \<Rightarrow> ((error + controllerRevision) \<times> int32 option \<times> 'w sys) option" where
  "rh_CreateControllerRevision e parent revision collisionCount s =
     (case collisionCount of
        None \<Rightarrow> Some (Inl (Errorf ''collisionCount should not be nil''), None, s)
      | Some n \<Rightarrow> createRevisionLoop e parent revision revision n s)"

definition rh_UpdateControllerRevision ::
  "'w k8s \<Rightarrow> controllerRevision \<Rightarrow> int64 \<Rightarrow> 'w sys \<Rightarrow> ((error + controllerRevision) \<times> 'w sys) option" where
  "rh_UpdateControllerRevision e revision newRev s =
     (case RetryOnConflict (core e) (lib_DefaultBackoffSteps (core e))
             (\<lambda>(clone, s).
                if Revision clone = newRev then Some (None, clone, s)
                else
                  let clone = clone\<lparr>Revision := newRev\<rparr>;
                      (updateErr, clone, s) = writeAs asRev e (UpdateCall (RevObj clone)) clone s
                  in if updateErr = None then Some (None, clone, s) else Some (None, clone, s))
             (revision, s) of
        None \<Rightarrow> None
      | Some (err, clone, s') \<Rightarrow> Some (case err of None \<Rightarrow> Inr clone | Some x \<Rightarrow> Inl x, s'))"

definition rh_DeleteControllerRevision ::
  "'w k8s \<Rightarrow> controllerRevision \<Rightarrow> 'w sys \<Rightarrow> error option \<times> 'w sys" where
  "rh_DeleteControllerRevision e revision s =
     (case clientWrite e (DeleteCall (RevObj revision)) s of (err, _, s') \<Rightarrow> (err, s'))"

definition adoptPatch :: "objectMeta \<Rightarrow> groupVersionKind \<Rightarrow> controllerRevision \<Rightarrow> bytes" where
  "adoptPatch parent parentKind revision =
     ''{\"metadata\":{\"ownerReferences\":[{\"apiVersion\":\"'' @ gvk_Group parentKind @ ''/'' @ gvk_Version parentKind
     @ ''\",\"kind\":\"'' @ gvk_Kind parentKind @ ''\",\"name\":\"'' @ Name parent @ ''\",\"uid\":\"'' @ UID parent
     @ ''\",\"controller\":true,\"blockOwnerDeletion\":true}],\"uid\":\"'' @ UID (cr_Meta revision) @ ''\"}}''"

definition rh_AdoptControllerRevision ::
  "'w k8s \<Rightarrow> objectMeta \<Rightarrow> groupVersionKind \<Rightarrow> controllerRevision \<Rightarrow> 'w sys
     \<Rightarrow> (error + controllerRevision) \<times> 'w sys" where
  "rh_AdoptControllerRevision e parent parentKind revision s =
     (case lib_GetControllerOf (core e) (cr_Meta revision) of
        Some owner \<Rightarrow> (Inl (Errorf ''attempt to adopt revision owned by another controller''), s)
      | None \<Rightarrow>
          (case writeAs asRev e (PatchCall (RevObj revision) (adoptPatch parent parentKind revision)) revision s of
             (Some err, _, s1) \<Rightarrow> (Inl err, s1)
           | (None, patched, s1) \<Rightarrow>
               getAs asRev e RevK \<lparr>key_Namespace = Namespace parent, key_Name = revName patched\<rparr> s1))"

definition releasePatch :: "objectMeta \<Rightarrow> controllerRevision \<Rightarrow> bytes" where
  "releasePatch parent revision =
     ''{\"metadata\":{\"ownerReferences\":[{\"$patch\":\"delete\",\"uid\":\"'' @ UID parent
     @ ''\"}],\"uid\":\"'' @ UID (cr_Meta revision) @ ''\"}}''"

definition rh_ReleaseControllerRevision ::
  "'w k8s \<Rightarrow> objectMeta \<Rightarrow> controllerRevision \<Rightarrow> 'w sys \<Rightarrow> (error + controllerRevision option) \<times> 'w sys" where
  "rh_ReleaseControllerRevision e parent revision s =
     (case writeAs asRev e (PatchCall (RevObj revision) (releasePatch parent revision)) revision s of
        (err, patched, s1) \<Rightarrow>
          if err = Some Invalid then (Inr None, s1)
          else
            (case getAs asRev e RevK \<lparr>key_Namespace = Namespace parent, key_Name = revName patched\<rparr> s1 of
               (Inl x, s2) \<Rightarrow> if x = NotFound then (Inr None, s2) else (Inl x, s2)
             | (Inr released, s2) \<Rightarrow> (Inr (Some released), s2)))"

definition realHistory :: "'w k8s \<Rightarrow> 'w historyInterface" where
  "realHistory e = \<lparr>ListControllerRevisions = rh_ListControllerRevisions e,
     CreateControllerRevision = rh_CreateControllerRevision e,
     UpdateControllerRevision = rh_UpdateControllerRevision e,
     DeleteControllerRevision = rh_DeleteControllerRevision e,
     AdoptControllerRevision = rh_AdoptControllerRevision e,
     ReleaseControllerRevision = rh_ReleaseControllerRevision e\<rparr>"

section \<open>The history part of the StatefulSet control\<close>

definition ListRevisions ::
  "'w k8s \<Rightarrow> 'w historyInterface \<Rightarrow> statefulSet \<Rightarrow> 'w sys \<Rightarrow> (error + controllerRevision list) \<times> 'w sys" where
  "ListRevisions e h sts s =
     (case lib_SelectorError (core e) (Selector (set_Spec sts)) of
        Some err \<Rightarrow> (Inl err, s)
      | None \<Rightarrow> ListControllerRevisions h (set_Meta sts) (Selector (set_Spec sts)) s)"

fun AdoptOrphanRevisions ::
  "'w historyInterface \<Rightarrow> statefulSet \<Rightarrow> controllerRevision list \<Rightarrow> 'w sys \<Rightarrow> error option \<times> 'w sys" where
  "AdoptOrphanRevisions h sts [] s = (None, s)"
| "AdoptOrphanRevisions h sts (r # rs) s =
     (case AdoptControllerRevision h (set_Meta sts) controllerKind r s of
        (Inl err, s') \<Rightarrow> (Some err, s')
      | (Inr adopted, s') \<Rightarrow> AdoptOrphanRevisions h sts rs s')"

definition liveRevisions ::
  "pod list \<Rightarrow> controllerRevision \<Rightarrow> controllerRevision \<Rightarrow> string set" where
  "liveRevisions pods current update =
     {revName current, revName update} \<union> getPodRevision ` List.set pods"

fun deleteRevisions ::
  "'w historyInterface \<Rightarrow> controllerRevision option list \<Rightarrow> 'w sys \<Rightarrow> (error option \<times> 'w sys) option" where
  \<comment> \<open>an element is \<open>None\<close> where a negative limit makes the slice expression run past the revisions\<close>
  "deleteRevisions h [] s = Some (None, s)"
| "deleteRevisions h (None # rs) s = None"
| "deleteRevisions h (Some r # rs) s =
     (case DeleteControllerRevision h r s of
        (Some err, s') \<Rightarrow> Some (Some err, s')
      | (None, s') \<Rightarrow> deleteRevisions h rs s')"

definition truncateHistory ::
  "'w historyInterface \<Rightarrow> statefulSet \<Rightarrow> pod list \<Rightarrow> controllerRevision list \<Rightarrow> controllerRevision
     \<Rightarrow> controllerRevision \<Rightarrow> 'w sys \<Rightarrow> (error option \<times> 'w sys) option" where
  "truncateHistory h sts pods revisions current update s =
     (let live = liveRevisions pods current update;
          history = filter (\<lambda>r. revName r \<notin> live) revisions;
          historyLen = int (length history);
          historyLimit = sint (RevisionHistoryLimit (set_Spec sts))
      in if historyLen \<le> historyLimit then Some (None, s)
         else if int (length revisions) < historyLen - historyLimit then None
         else deleteRevisions h
                (take (nat (historyLen - historyLimit))
                   (map Some history @ replicate (length revisions - length history) None)) s)"

definition findRevision :: "string \<Rightarrow> controllerRevision list \<Rightarrow> controllerRevision option" where
  \<comment> \<open>the loop has no break: the last revision of that name is kept\<close>
  "findRevision name revisions =
     fold (\<lambda>r cur. if revName r = name then Some r else cur) revisions None"

definition chooseUpdateRevision ::
  "'w k8s \<Rightarrow> 'w historyInterface \<Rightarrow> statefulSet \<Rightarrow> controllerRevision list \<Rightarrow> controllerRevision \<Rightarrow> int32
     \<Rightarrow> 'w sys \<Rightarrow> ((error + controllerRevision) \<times> int32 \<times> 'w sys) option" where
  "chooseUpdateRevision e h sts revisions updateRevision collisionCount s =
     (let equalRevisions = lib_FindEqualRevisions (hist e) revisions updateRevision
      in if equalRevisions \<noteq> [] \<and> revisions = [] then None
         else if equalRevisions \<noteq> [] \<and> lib_EqualRevision (hist e) (last revisions) (last equalRevisions) then
           Some (Inr (last revisions), collisionCount, s)
         else if equalRevisions \<noteq> [] then
           (case UpdateControllerRevision h (last equalRevisions) (Revision updateRevision) s of
              None \<Rightarrow> None
            | Some (r, s') \<Rightarrow> Some (r, collisionCount, s'))
         else
           (case CreateControllerRevision h (set_Meta sts) updateRevision (Some collisionCount) s of
              None \<Rightarrow> None
            | Some (r, cc, s') \<Rightarrow> Some (r, (case cc of None \<Rightarrow> collisionCount | Some n \<Rightarrow> n), s')))"

definition getStatefulSetRevisions ::
  "'w k8s \<Rightarrow> 'w historyInterface \<Rightarrow> statefulSet \<Rightarrow> controllerRevision list \<Rightarrow> 'w sys
     \<Rightarrow> ((error + controllerRevision \<times> controllerRevision) \<times> int32 \<times> controllerRevision list \<times> 'w sys) option" where
  "getStatefulSetRevisions e h sts revisions0 s =
     (let revisions = lib_SortControllerRevisions (hist e) revisions0;
          collisionCount = (case CollisionCount (set_Status sts) of None \<Rightarrow> 0 | Some n \<Rightarrow> n)
      in case newRevision e sts (nextRevision revisions) collisionCount of
           None \<Rightarrow> None
         | Some (Inl err) \<Rightarrow> Some (Inl err, collisionCount, revisions, s)
         | Some (Inr updateRevision) \<Rightarrow>
             (case chooseUpdateRevision e h sts revisions updateRevision collisionCount s of
                None \<Rightarrow> None
              | Some (Inl err, cc, s') \<Rightarrow> Some (Inl err, cc, revisions, s')
              | Some (Inr updateRevision, cc, s') \<Rightarrow>
                  let currentRevision =
                    (case findRevision (CurrentRevision (set_Status sts)) revisions of
                       None \<Rightarrow> updateRevision | Some r \<Rightarrow> r)
                  in Some (Inr (currentRevision, updateRevision), cc, revisions, s')))"

section \<open>The contract of the history\<close>

text \<open>
  No operation of the history writes a pod, and deleting a revision is one delete call for exactly that
  revision, whose failure is reported.
\<close>

locale controller_history =
  fixes h :: "'w historyInterface"
  assumes list_does: "ListControllerRevisions h m sel s = (x, s') \<Longrightarrow> does s [] s'"
    and create_does: "CreateControllerRevision h m r cc s = Some (y, cc', s') \<Longrightarrow> does s [] s'"
    and update_does: "UpdateControllerRevision h r n s = Some (y, s') \<Longrightarrow> does s [] s'"
    and delete_issues: "DeleteControllerRevision h r s = (err, s') \<Longrightarrow>
          \<exists>x. issues s [(DeleteCall (RevObj r), x)] s' \<and> (err = None \<longleftrightarrow> (\<forall>y. x \<noteq> Fail y))
            \<and> expectations s' = expectations s"
    and adopt_does: "AdoptControllerRevision h m k r s = (y, s') \<Longrightarrow> does s [] s'"
    and release_does: "ReleaseControllerRevision h m r s = (z, s') \<Longrightarrow> does s [] s'"
begin

lemma delete_does: "DeleteControllerRevision h r s = (err, s') \<Longrightarrow> does s [] s'"
  by (drule delete_issues) (force simp: does_def podSteps_def)

lemma ListRevisions_does: "ListRevisions e h sts s = (x, s') \<Longrightarrow> does s [] s'"
  by (auto simp: ListRevisions_def split: option.splits intro: list_does)

lemma AdoptOrphanRevisions_does: "AdoptOrphanRevisions h sts rs s = (err, s') \<Longrightarrow> does s [] s'"
proof (induction rs arbitrary: s)
  case Nil
  then show ?case by simp
next
  case (Cons r rs)
  then show ?case
    by (auto split: prod.splits sum.splits dest: adopt_does intro: does_nothing_trans)
qed

lemma deleteRevisions_does: "deleteRevisions h ros s = Some (err, s') \<Longrightarrow> does s [] s'"
proof (induction ros arbitrary: s)
  case Nil
  then show ?case by simp
next
  case (Cons ro ros)
  then show ?case
    by (cases ro) (auto split: prod.splits option.splits dest: delete_does intro: does_nothing_trans)
qed

lemma deleteRevisions_issues:
  assumes "deleteRevisions h (map Some rs) s = Some (err, s')"
  shows "\<exists>n cs. issues s cs s' \<and> map fst cs = map (\<lambda>r. DeleteCall (RevObj r)) (take n rs)
           \<and> (err = None \<longrightarrow> take n rs = rs)"
  using assms
proof (induction rs arbitrary: s)
  case Nil
  then show ?case by (auto intro!: exI [of _ "0::nat"] exI [of _ "[]"])
next
  case (Cons r rs)
  obtain err1 s1 where d: "DeleteControllerRevision h r s = (err1, s1)" by fastforce
  from delete_issues [OF d] obtain x where x: "issues s [(DeleteCall (RevObj r), x)] s1" by blast
  show ?case
  proof (cases err1)
    case (Some a)
    with Cons.prems d x show ?thesis
      by (auto intro!: exI [of _ "1::nat"] exI [of _ "[(DeleteCall (RevObj r), x)]"])
  next
    case None
    with Cons.prems d have "deleteRevisions h (map Some rs) s1 = Some (err, s')" by simp
    from Cons.IH [OF this] obtain n cs where "issues s1 cs s'"
      "map fst cs = map (\<lambda>r. DeleteCall (RevObj r)) (take n rs)" "err = None \<longrightarrow> take n rs = rs" by blast
    with x show ?thesis
      by (intro exI [of _ "Suc n"] exI [of _ "(DeleteCall (RevObj r), x) # cs"])
        (auto simp: issues_def)
  qed
qed

lemma truncateHistory_does:
  "truncateHistory h sts pods revisions current update s = Some (err, s') \<Longrightarrow> does s [] s'"
  by (auto simp: truncateHistory_def Let_def split: if_splits intro: deleteRevisions_does)

lemma truncateHistory_issues:
  assumes "truncateHistory h sts pods revisions current update s = Some (err, s')"
    and "0 \<le> sint (RevisionHistoryLimit (set_Spec sts))"
    and "H = filter (\<lambda>r. revName r \<notin> liveRevisions pods current update) revisions"
    and "victims = take (length H - nat (sint (RevisionHistoryLimit (set_Spec sts)))) H"
  shows "\<exists>n cs. issues s cs s' \<and> map fst cs = map (\<lambda>r. DeleteCall (RevObj r)) (take n victims)
           \<and> (err = None \<longrightarrow> take n victims = victims)"
proof (cases "int (length H) \<le> sint (RevisionHistoryLimit (set_Spec sts))")
  case True
  with assms show ?thesis
    by (auto simp: truncateHistory_def Let_def intro!: exI [of _ "0::nat"] exI [of _ "[]"])
next
  case False
  let ?k = "nat (int (length H) - sint (RevisionHistoryLimit (set_Spec sts)))"
  have "take ?k (map Some H @ replicate (length revisions - length H) None)
      = map Some (take ?k H)"
    using assms(2) by (simp add: take_map)
  moreover have "take ?k H = victims"
    using assms(2,4) by (simp add: nat_diff_distrib')
  ultimately have "deleteRevisions h (map Some victims) s = Some (err, s')"
    using assms(1,3) False by (auto simp: truncateHistory_def Let_def split: if_splits)
  then show ?thesis by (rule deleteRevisions_issues)
qed

lemma chooseUpdateRevision_does:
  "chooseUpdateRevision e h sts revisions upd cc s = Some (x, cc', s') \<Longrightarrow> does s [] s'"
  by (auto simp: chooseUpdateRevision_def Let_def split: if_splits option.splits prod.splits
      dest: create_does update_does)

lemma getStatefulSetRevisions_does:
  "getStatefulSetRevisions e h sts revisions s = Some (x, cc, rs, s') \<Longrightarrow> does s [] s'"
  by (auto simp: getStatefulSetRevisions_def Let_def split: option.splits sum.splits prod.splits
      dest: chooseUpdateRevision_does)

end

lemma createRevisionLoop_does:
  assumes "createRevisionLoop e parent rev0 clone cc s = Some (x, cc', s')"
  shows "does s [] s'"
proof -
  have "\<forall>x cc' s'. y = (x, cc', s') \<longrightarrow> does s [] s'"
    if "createRevisionLoop e parent rev0 clone cc s = Some y" for y
  proof (rule createRevisionLoop.raw_induct [where P = "\<lambda>e parent rev0 clone cc s y.
        \<forall>x cc' s'. y = (x, cc', s') \<longrightarrow> does s [] s'", OF _ that], goal_cases)
    case (1 f e parent rev0 clone cc s y)
    then show ?case
      by (auto simp: Let_def split: prod.splits sum.splits if_splits
          dest!: does_writeAs does_getAs intro: does_nothing_trans)
        (metis does_nothing_trans)
  qed
  with assms show ?thesis by blast
qed

lemma rh_UpdateControllerRevision_spec:
  assumes "rh_UpdateControllerRevision e r n s = Some (x, s')"
  shows "does s [] s'" and "\<exists>r'. x = Inr r'"
proof -
  let ?f = "\<lambda>(clone, s).
     if Revision clone = n then Some (None, clone, s)
     else let clone = clone\<lparr>Revision := n\<rparr>;
              (updateErr, clone, s) = writeAs asRev e (UpdateCall (RevObj clone)) clone s
          in if updateErr = None then Some (None :: error option, clone, s) else Some (None, clone, s)"
  have step: "does s [] (snd z') \<and> err = None" if "does s [] (snd z)" "?f z = Some (err, z')" for z err z'
    using that by (cases z, cases z') (auto simp: Let_def split: prod.splits if_splits
        dest!: does_writeAs intro: does_nothing_trans)
  from assms obtain err clone where
    run: "RetryOnConflict (core e) (lib_DefaultBackoffSteps (core e)) ?f (r, s) = Some (err, clone, s')"
    and x: "x = (case err of None \<Rightarrow> Inr clone | Some y \<Rightarrow> Inl y)"
    by (auto simp: rh_UpdateControllerRevision_def split: option.splits)
  obtain t where "does s [] (snd t)" "?f t = Some (err, clone, s')"
    using run by (rule RetryOnConflict_last [where I = "\<lambda>z. does s [] (snd z)"]) (auto dest: step)
  from step [OF this] show "does s [] s'" and "\<exists>r'. x = Inr r'" by (auto simp: x)
qed

interpretation rh: controller_history "realHistory e" for e :: "'w k8s"
proof unfold_locales
  fix m r k sel cc cc' n and s s' :: "'w sys" and err x y z
  show "ListControllerRevisions (realHistory e) m sel s = (x, s') \<Longrightarrow> does s [] s'"
    by (auto simp: realHistory_def rh_ListControllerRevisions_def split: prod.splits sum.splits
        dest: does_clientList)
  show "CreateControllerRevision (realHistory e) m r cc s = Some (y, cc', s') \<Longrightarrow> does s [] s'"
    by (auto simp: realHistory_def rh_CreateControllerRevision_def split: option.splits
        dest: createRevisionLoop_does)
  show "UpdateControllerRevision (realHistory e) r n s = Some (y, s') \<Longrightarrow> does s [] s'"
    by (auto simp: realHistory_def dest: rh_UpdateControllerRevision_spec)
  show "DeleteControllerRevision (realHistory e) r s = (err, s') \<Longrightarrow>
      \<exists>x. issues s [(DeleteCall (RevObj r), x)] s' \<and> (err = None \<longleftrightarrow> (\<forall>y. x \<noteq> Fail y))
        \<and> expectations s' = expectations s"
    using request_issues [of e "DeleteCall (RevObj r)" s] request_expectations [of e "DeleteCall (RevObj r)" s]
    by (fastforce simp: realHistory_def rh_DeleteControllerRevision_def clientWrite_def
        split: prod.splits reply.splits)
  show "AdoptControllerRevision (realHistory e) m k r s = (y, s') \<Longrightarrow> does s [] s'"
    by (auto simp: realHistory_def rh_AdoptControllerRevision_def split: prod.splits option.splits
        dest!: does_writeAs does_getAs intro: does_nothing_trans)
  show "ReleaseControllerRevision (realHistory e) m r s = (z, s') \<Longrightarrow> does s [] s'"
    by (auto simp: realHistory_def rh_ReleaseControllerRevision_def split: prod.splits sum.splits if_splits
        dest!: does_writeAs does_getAs intro: does_nothing_trans)
qed

section \<open>Facts: revision numbers\<close>

lemma nextRevision_greatest:
  assumes "sorted_wrt (\<lambda>a b. sint (Revision a) \<le> sint (Revision b)) revisions"
    and "r \<in> List.set revisions" and "sint (Revision (last revisions)) < 2 ^ 63 - 1"
  shows "sint (Revision r) < sint (nextRevision revisions)"
proof -
  from assms(2) have ne: "revisions \<noteq> []" by auto
  then have revs: "revisions = butlast revisions @ [last revisions]" by simp
  from assms(1,2) have "sint (Revision r) \<le> sint (Revision (last revisions))"
    by (subst (asm) revs, subst (asm) (2) revs) (auto simp: sorted_wrt_append)
  moreover have "sint (Revision (last revisions) + 1) = sint (Revision (last revisions)) + 1"
    using assms(3) sint_greater_eq [of "Revision (last revisions)"]
    by (simp add: sint_word_ariths signed_take_bit_int_eq_self)
  ultimately show ?thesis using ne by (simp add: nextRevision_def)
qed

lemma findRevision_name: "findRevision n rs = Some r \<Longrightarrow> revName r = n \<and> r \<in> List.set rs"
proof -
  have "fold (\<lambda>r cur. if revName r = n then Some r else cur) rs cur = Some r \<Longrightarrow>
      cur = Some r \<or> revName r = n \<and> r \<in> List.set rs" for cur
    by (induction rs arbitrary: cur) (auto split: if_splits)
  from this [of None] show "findRevision n rs = Some r \<Longrightarrow> revName r = n \<and> r \<in> List.set rs"
    by (simp add: findRevision_def)
qed

section \<open>Facts: the update revision\<close>

text \<open>
  How a revision that carries the data of \<open>nr\<close> comes about: a create of it, under some name, was accepted, or a
  revision with the same data was read.
\<close>

definition renamed :: "controllerRevision \<Rightarrow> controllerRevision \<Rightarrow> bool" where
  "renamed nr x \<longleftrightarrow> (\<exists>name ns. x = nr\<lparr>cr_Meta := (cr_Meta nr)\<lparr>Name := name, Namespace := ns\<rparr>\<rparr>)"

fun makes :: "controllerRevision \<Rightarrow> controllerRevision \<Rightarrow> call \<times> reply \<Rightarrow> bool" where
  "makes nr r (CreateCall (RevObj x), reply) \<longleftrightarrow> renamed nr x \<and> (\<forall>err. reply \<noteq> Fail err)
     \<and> r = (case reply of Got (RevObj y) \<Rightarrow> y | _ \<Rightarrow> x)"
| "makes nr r (GetCall k key, reply) \<longleftrightarrow> reply = Got (RevObj r) \<and> cr_Raw r = cr_Raw nr"
| "makes nr r _ \<longleftrightarrow> False"

lemma renamed_refl [simp]: "renamed nr nr"
  unfolding renamed_def
  by (rule exI [of _ "Name (cr_Meta nr)"], rule exI [of _ "Namespace (cr_Meta nr)"]) simp

lemma renamed_again: "renamed nr x \<Longrightarrow> renamed nr (x\<lparr>cr_Meta := (cr_Meta x)\<lparr>Name := n, Namespace := ns\<rparr>\<rparr>)"
  by (auto simp: renamed_def) blast

lemma writeAs_rev:
  assumes "writeAs asRev e c x s = (err, r, s')"
  shows "\<exists>reply. issues s [(c, reply)] s' \<and> (err = None \<longleftrightarrow> (\<forall>er. reply \<noteq> Fail er))
    \<and> r = (case reply of Got (RevObj y) \<Rightarrow> y | _ \<Rightarrow> x)"
proof -
  obtain reply t where q: "request e c s = (reply, t)" by fastforce
  then have "issues s [(c, reply)] t" by (auto dest: request_issues)
  moreover from assms q have "t = s'" "err = None \<longleftrightarrow> (\<forall>er. reply \<noteq> Fail er)"
    by (auto simp: writeAs_def clientWrite_def split: reply.splits)
  moreover from assms q have "r = (case reply of Got (RevObj y) \<Rightarrow> y | _ \<Rightarrow> x)"
    by (auto simp: writeAs_def clientWrite_def badKind_def split: reply.splits obj.splits)
  ultimately show ?thesis by blast
qed

lemma create_makes:
  assumes "writeAs asRev e (CreateCall (RevObj x)) x s = (None, r, s')" and "renamed nr x"
  shows "emits (makes nr r) s s'"
  using writeAs_rev [OF assms(1)] assms(2) by (auto intro: emits_single)

lemma createRevisionLoop_makes:
  assumes "createRevisionLoop e parent rev0 clone cc s = Some (Inr r, cc', s')" and "renamed nr clone"
  shows "emits (makes nr r) s s'"
proof -
  have "\<forall>r cc' s'. y = (Inr r, cc', s') \<longrightarrow> renamed nr clone \<longrightarrow> emits (makes nr r) s s'"
    if "createRevisionLoop e parent rev0 clone cc s = Some y" for y
  proof (rule createRevisionLoop.raw_induct [where P = "\<lambda>e parent rev0 clone cc s y.
        \<forall>r cc' s'. y = (Inr r, cc', s') \<longrightarrow> renamed nr clone \<longrightarrow> emits (makes nr r) s s'", OF _ that], goal_cases)
    case (1 f e parent rev0 clone cc s y)
    define x where "x = clone\<lparr>cr_Meta := (cr_Meta clone)\<lparr>Name := lib_ControllerRevisionName (hist e) (Name parent)
      (lib_HashControllerRevision (hist e) rev0 cc), Namespace := Namespace parent\<rparr>\<rparr>"
    obtain err made s1 where w: "writeAs asRev e (CreateCall (RevObj x)) x s = (err, made, s1)" by (metis prod_cases3)
    obtain got s2 where g: "getAs asRev e RevK (metaKey (cr_Meta x)) s1 = (got, s2)" by fastforce
    show ?case
    proof (intro allI impI)
      fix r cc' s'
      assume y: "y = (Inr r, cc', s')" and ren: "renamed nr clone"
      from ren have x: "renamed nr x" unfolding x_def by (rule renamed_again)
      then have raw: "cr_Raw x = cr_Raw nr" by (auto simp: renamed_def)
      show "emits (makes nr r) s s'"
      proof (cases "IsAlreadyExists err")
        case False
        with 1(2) y w show ?thesis
          by (auto simp: Let_def x_def [symmetric] split: option.splits intro: create_makes [OF _ x])
      next
        case True
        have then1: "emits (makes nr r) s1 s' \<Longrightarrow> emits (makes nr r) s s'"
          using w by (auto intro: then_emits [OF writeAs_onlyCalls [where P = "\<lambda>c. True"]])
        show ?thesis
        proof (cases "\<exists>z. got = Inr z \<and> cr_Raw z \<noteq> cr_Raw x")
          case True': True
          with 1(2) y w g True have "f e parent rev0 x (cc + 1) s2 = Some (Inr r, cc', s')"
            by (auto simp: Let_def x_def [symmetric])
          with 1(1) x have "emits (makes nr r) s2 s'" by blast
          with g then1 show ?thesis by (auto intro: then_emits [OF getAs_onlyCalls [where P = "\<lambda>c. True"]])
        next
          case False
          with 1(2) y w g True have "got = Inr r \<and> cr_Raw r = cr_Raw x \<and> s' = s2"
            by (auto simp: Let_def x_def [symmetric] split: sum.splits if_splits)
          with g raw show ?thesis
            by (intro then1 emits_single [where en = "(GetCall RevK (metaKey (cr_Meta x)), Got (RevObj r))"])
              (auto dest: getAs_found [OF _ decodes_simps(3)])
        qed
      qed
    qed
  qed
  with assms show ?thesis by blast
qed

text \<open>What \<open>UpdateControllerRevision\<close> sends and returns.\<close>

definition renumbered :: "controllerRevision \<Rightarrow> int64 \<Rightarrow> controllerRevision \<Rightarrow> 'w sys \<Rightarrow> 'w sys \<Rightarrow> bool" where
  "renumbered r n r' s s' \<longleftrightarrow> Revision r = n \<and> r' = r \<and> s' = s
     \<or> (\<exists>reply. issues s [(UpdateCall (RevObj (r\<lparr>Revision := n\<rparr>)), reply)] s'
          \<and> r' = (case reply of Got (RevObj y) \<Rightarrow> y | _ \<Rightarrow> r\<lparr>Revision := n\<rparr>))"

lemma rh_UpdateControllerRevision_renumbers:
  assumes "rh_UpdateControllerRevision e r n s = Some (x, s')"
  shows "\<exists>r'. x = Inr r' \<and> renumbered r n r' s s'"
proof -
  let ?f = "\<lambda>(clone, s).
     if Revision clone = n then Some (None, clone, s)
     else let clone = clone\<lparr>Revision := n\<rparr>;
              (updateErr, clone, s) = writeAs asRev e (UpdateCall (RevObj clone)) clone s
          in if updateErr = None then Some (None :: error option, clone, s) else Some (None, clone, s)"
  obtain werr y s1 where w: "writeAs asRev e (UpdateCall (RevObj (r\<lparr>Revision := n\<rparr>))) (r\<lparr>Revision := n\<rparr>) s = (werr, y, s1)"
    by (metis prod_cases3)
  have sent: "renumbered r n y s s1"
    using writeAs_rev [OF w] by (auto simp: renumbered_def)
  let ?z = "if Revision r = n then (r, s) else (y, s1)"
  have "RetryOnConflict (core e) (lib_DefaultBackoffSteps (core e)) ?f (r, s) = Some (None, ?z)"
    by (rule RetryOnConflict_first) (use w in simp)
  with assms sent show ?thesis by (auto simp: rh_UpdateControllerRevision_def renumbered_def split: if_splits)
qed

lemma findRevision_none: "findRevision n rs = None \<longleftrightarrow> n \<notin> revName ` List.set rs"
proof -
  have "fold (\<lambda>r cur. if revName r = n then Some r else cur) rs cur = None \<longleftrightarrow> cur = None \<and> n \<notin> revName ` List.set rs" for cur
    by (induction rs arbitrary: cur) auto
  then show ?thesis by (simp add: findRevision_def)
qed

lemma chooseUpdateRevision_spec:
  assumes "finds_equal (hist e)" and "chooseUpdateRevision e (realHistory e) sts rs nr cc s = Some (Inr upd, cc', s')"
    and "eq = filter (\<lambda>r. lib_EqualRevision (hist e) r nr) rs"
  shows "if eq = [] then emits (makes nr upd) s s'
    else if lib_EqualRevision (hist e) (last rs) (last eq) then upd = last rs \<and> s' = s
    else renumbered (last eq) (Revision nr) upd s s'"
proof -
  have E: "lib_FindEqualRevisions (hist e) rs nr = eq" using assms(1,3) by (simp add: finds_equal_def)
  show ?thesis
  proof (cases "eq = []")
    case True
    with assms(2) E obtain cc'' where "createRevisionLoop e (set_Meta sts) nr nr cc s = Some (Inr upd, cc'', s')"
      by (auto simp: chooseUpdateRevision_def Let_def realHistory_def rh_CreateControllerRevision_def split: option.splits prod.splits)
    then have "emits (makes nr upd) s s'" by (rule createRevisionLoop_makes) simp
    with True show ?thesis by simp
  next
    case False
    with assms(2) E have "if lib_EqualRevision (hist e) (last rs) (last eq) then upd = last rs \<and> s' = s
        else rh_UpdateControllerRevision e (last eq) (Revision nr) s = Some (Inr upd, s')"
      by (auto simp: chooseUpdateRevision_def Let_def realHistory_def split: if_splits option.splits)
    with False rh_UpdateControllerRevision_renumbers [of e "last eq" "Revision nr" s] show ?thesis by (auto split: if_splits)
  qed
qed

lemma createRevisionLoop_step:
  "(\<exists>x s'. createRevisionLoop e parent r clone cc s = Some (x, Some cc, s'))
   \<or> (\<exists>clone' s2 x w. createRevisionLoop e parent r clone cc s = createRevisionLoop e parent r clone' (cc + 1) s2
        \<and> revName x = lib_ControllerRevisionName (hist e) (Name parent) (lib_HashControllerRevision (hist e) r cc)
        \<and> fst (api e (CreateCall (RevObj x)) w) = Fail AlreadyExists)"
proof -
  define x where "x = clone\<lparr>cr_Meta := (cr_Meta clone)\<lparr>Name := lib_ControllerRevisionName (hist e) (Name parent)
    (lib_HashControllerRevision (hist e) r cc), Namespace := Namespace parent\<rparr>\<rparr>"
  obtain err made s1 where w: "writeAs asRev e (CreateCall (RevObj x)) x s = (err, made, s1)" by (metis prod_cases3)
  obtain got s2 where g: "getAs asRev e RevK (metaKey (cr_Meta x)) s1 = (got, s2)" by fastforce
  note loop = createRevisionLoop.simps [of e parent r clone cc s, unfolded Let_def, folded x_def, unfolded w]
  show ?thesis
  proof (cases "IsAlreadyExists err \<and> (\<exists>z. got = Inr z \<and> cr_Raw z \<noteq> cr_Raw x)")
    case True
    have "fst (api e (CreateCall (RevObj x)) (world s)) = Fail AlreadyExists"
      using w True by (auto simp: writeAs_def clientWrite_def request_def IsAlreadyExists_def split: prod.splits reply.splits)
    moreover have "revName x = lib_ControllerRevisionName (hist e) (Name parent) (lib_HashControllerRevision (hist e) r cc)"
      by (simp add: x_def)
    moreover have "createRevisionLoop e parent r clone cc s = createRevisionLoop e parent r x (cc + 1) s2"
      using True g loop by auto
    ultimately show ?thesis by blast
  next
    case False
    then show ?thesis using g loop by (auto split: sum.splits)
  qed
qed

section \<open>Properties\<close>

text \<open>
  C18. Truncating the history never deletes a revision that the set, its update or one of its pods is at. When it
  succeeds it has deleted exactly the oldest of the others that exceed the limit, one request each and in order;
  when it fails it has stopped at the first refused request.
\<close>

theorem history_truncated:
  assumes "truncateHistory (realHistory e) sts pods revisions cur upd s = Some (err, s')"
    and "0 \<le> sint (RevisionHistoryLimit (set_Spec sts))"
  shows "\<exists>n cs dead victims.
      dead = filter (\<lambda>r. revName r \<noteq> revName cur \<and> revName r \<noteq> revName upd \<and> revName r \<notin> getPodRevision ` List.set pods) revisions
      \<and> victims = take (length dead - nat (sint (RevisionHistoryLimit (set_Spec sts)))) dead
      \<and> issues s cs s' \<and> map fst cs = map (\<lambda>r. DeleteCall (RevObj r)) (take n victims)
      \<and> (err \<noteq> None \<or> take n victims = victims)"
proof -
  have "filter (\<lambda>r. revName r \<notin> liveRevisions pods cur upd) revisions = filter (\<lambda>r. revName r \<noteq> revName cur
      \<and> revName r \<noteq> revName upd \<and> revName r \<notin> getPodRevision ` List.set pods) revisions"
    by (rule filter_cong) (simp_all add: liveRevisions_def)
  from rh.truncateHistory_issues [OF assms refl refl, unfolded this] show ?thesis by blast
qed

definition oldRevision :: "string \<Rightarrow> int64 \<Rightarrow> controllerRevision" where
  "oldRevision name n = \<lparr>cr_Meta = emptyMeta\<lparr>Name := name\<rparr>, cr_Raw = name, Revision = n\<rparr>"

definition keepOne :: statefulSet where
  "keepOne = (let w = sampleSet 1 0 ''OrderedReady'' in w\<lparr>set_Spec := (set_Spec w)\<lparr>RevisionHistoryLimit := 1\<rparr>\<rparr>)"

lemma sample_truncate: "map_option fst (truncateHistory (realHistory (sampleEnv keepOne)) keepOne []
    [oldRevision ''a'' 1, oldRevision ''b'' 2, oldRevision ''c'' 3, oldRevision ''d'' 4]
    (oldRevision ''b'' 2) (oldRevision ''d'' 4) sampleSys) = Some None"
  by code_simp

theorem history_truncated_witness:
  "\<exists>s' cs. issues sampleSys cs s' \<and> map fst cs = [DeleteCall (RevObj (oldRevision ''a'' 1))]"
proof -
  from sample_truncate obtain s' where run: "truncateHistory (realHistory (sampleEnv keepOne)) keepOne []
    [oldRevision ''a'' 1, oldRevision ''b'' 2, oldRevision ''c'' 3, oldRevision ''d'' 4]
    (oldRevision ''b'' 2) (oldRevision ''d'' 4) sampleSys = Some (None, s')" by auto
  have limit: "0 \<le> sint (RevisionHistoryLimit (set_Spec keepOne))" by (simp add: keepOne_def Let_def)
  have dead: "filter (\<lambda>r. revName r \<noteq> revName (oldRevision ''b'' 2) \<and> revName r \<noteq> revName (oldRevision ''d'' 4)
        \<and> revName r \<notin> getPodRevision ` List.set [])
      [oldRevision ''a'' 1, oldRevision ''b'' 2, oldRevision ''c'' 3, oldRevision ''d'' 4]
      = [oldRevision ''a'' 1, oldRevision ''c'' 3]"
    by (simp add: oldRevision_def emptyMeta_def)
  have "sint (RevisionHistoryLimit (set_Spec keepOne)) = 1" by (simp add: keepOne_def Let_def)
  with history_truncated [OF run limit] show ?thesis unfolding dead by fastforce
qed

text \<open>
  C19. The revision number given to a new revision is greater than that of every revision of the sorted history, as
  long as the greatest is not the last 64-bit number; there it wraps around to the least one.
\<close>

theorem nextRevision_above:
  assumes "sorted_wrt (\<lambda>a b. sint (Revision a) \<le> sint (Revision b)) revisions" and "r \<in> List.set revisions"
  shows "if Revision (last revisions) = 2 ^ 63 - 1 then sint (nextRevision revisions) = - (2 ^ 63)
    else sint (Revision r) < sint (nextRevision revisions)"
proof (cases "Revision (last revisions) = 2 ^ 63 - 1")
  case True
  with assms(2) show ?thesis by (auto simp: nextRevision_def)
next
  case False
  have "sint (Revision (last revisions)) \<noteq> 2 ^ 63 - 1"
  proof
    assume "sint (Revision (last revisions)) = 2 ^ 63 - 1"
    moreover have "of_int (sint (Revision (last revisions))) = Revision (last revisions)" by simp
    ultimately show False using False by simp
  qed
  with sint_lt [of "Revision (last revisions)"] have "sint (Revision (last revisions)) < 2 ^ 63 - 1" by simp
  from nextRevision_greatest [OF assms this] False show ?thesis by simp
qed

theorem nextRevision_above_witness:
  "sint (Revision (oldRevision ''a'' 1)) < sint (nextRevision [oldRevision ''a'' 1, oldRevision ''b'' 5])"
  using nextRevision_above [of "[oldRevision ''a'' 1, oldRevision ''b'' 5]" "oldRevision ''a'' 1"]
  by (simp add: oldRevision_def)

text \<open>
  \<open>UpdateControllerRevision\<close> hides every error of the API server, a conflict included: when the server refuses
  the update, the operation sends one request, retries nothing, and returns the revision with the new number as if
  it had been stored.
\<close>

theorem UpdateControllerRevision_hides_errors:
  assumes "Revision r \<noteq> n" and "\<And>x w. fst (api e (UpdateCall x) w) = Fail err"
  shows "\<exists>s'. rh_UpdateControllerRevision e r n s = Some (Inr (r\<lparr>Revision := n\<rparr>), s')
    \<and> issues s [(UpdateCall (RevObj (r\<lparr>Revision := n\<rparr>)), Fail err)] s'"
proof -
  obtain werr y s1 where w: "writeAs asRev e (UpdateCall (RevObj (r\<lparr>Revision := n\<rparr>))) (r\<lparr>Revision := n\<rparr>) s = (werr, y, s1)"
    by (metis prod_cases3)
  obtain w1 where "api e (UpdateCall (RevObj (r\<lparr>Revision := n\<rparr>))) (world s) = (Fail err, w1)"
    using assms(2) by (metis prod.collapse)
  with w have f: "werr = Some err" "y = r\<lparr>Revision := n\<rparr>"
    and i: "issues s [(UpdateCall (RevObj (r\<lparr>Revision := n\<rparr>)), Fail err)] s1"
    by (auto simp: writeAs_def clientWrite_def request_def issues_def)
  let ?f = "\<lambda>(clone, s).
     if Revision clone = n then Some (None, clone, s)
     else let clone = clone\<lparr>Revision := n\<rparr>;
              (updateErr, clone, s) = writeAs asRev e (UpdateCall (RevObj clone)) clone s
          in if updateErr = None then Some (None :: error option, clone, s) else Some (None, clone, s)"
  have "RetryOnConflict (core e) (lib_DefaultBackoffSteps (core e)) ?f (r, s) = Some (None, r\<lparr>Revision := n\<rparr>, s1)"
    by (rule RetryOnConflict_first) (use assms(1) w f in simp)
  with i show ?thesis by (simp add: rh_UpdateControllerRevision_def)
qed

text \<open>The sample server, refusing every update.\<close>

fun refusing :: "call \<Rightarrow> nat \<Rightarrow> reply \<times> nat" where
  "refusing (UpdateCall x) w = (Fail Conflict, Suc w)"
| "refusing c w = sampleApi c w"

theorem UpdateControllerRevision_hides_errors_witness:
  "\<exists>s'. rh_UpdateControllerRevision (serverEnv refusing) (oldRevision ''a'' 1) 7 sampleSys = Some (Inr (oldRevision ''a'' 7), s')
    \<and> length (trace s') = 1"
proof -
  have "Revision (oldRevision ''a'' 1) \<noteq> 7" by (simp add: oldRevision_def)
  moreover have "fst (api (serverEnv refusing) (UpdateCall x) w) = Fail Conflict" for x w by simp
  ultimately obtain s' where
    "rh_UpdateControllerRevision (serverEnv refusing) (oldRevision ''a'' 1) 7 sampleSys = Some (Inr (oldRevision ''a'' 1\<lparr>Revision := 7\<rparr>), s')"
    "issues sampleSys [(UpdateCall (RevObj (oldRevision ''a'' 1\<lparr>Revision := 7\<rparr>)), Fail Conflict)] s'"
    using UpdateControllerRevision_hides_errors [of "oldRevision ''a'' 1" 7 "serverEnv refusing"] by blast
  then show ?thesis by (auto simp: oldRevision_def issues_def sampleSys_def)
qed

text \<open>
  C16. The update revision stands for the set's template. Of the revisions of the sorted history, look at those equal
  to the one built from the set. If there is none, one with that data is created, or found under the name computed for
  it. If the greatest revision of the history is equal to the last of them, it is the update revision as it is, and no
  call is made. Otherwise the last of them is given the next number. The current revision is the one the status names,
  and the update revision if the history has none of that name.
\<close>

theorem update_revision_chosen:
  assumes "sorts_revisions (hist e)" and "finds_equal (hist e)"
    and "getStatefulSetRevisions e (realHistory e) sts revs s = Some (Inr (cur, upd), cc, rs, s')"
  shows "\<exists>nr eq. mset rs = mset revs \<and> sorted_wrt (\<lambda>a b. sint (Revision a) \<le> sint (Revision b)) rs
    \<and> newRevision e sts (nextRevision rs) (case CollisionCount (set_Status sts) of None \<Rightarrow> 0 | Some n \<Rightarrow> n) = Some (Inr nr)
    \<and> eq = filter (\<lambda>r. lib_EqualRevision (hist e) r nr) rs
    \<and> (if eq = [] then emits (makes nr upd) s s'
       else if lib_EqualRevision (hist e) (last rs) (last eq)
       then upd = last rs \<and> s' = s \<and> upd \<in> List.set revs \<and> (\<forall>x \<in> List.set revs. sint (Revision x) \<le> sint (Revision upd))
       else renumbered (last eq) (Revision nr) upd s s')
    \<and> (if CurrentRevision (set_Status sts) \<in> revName ` List.set revs
       then cur \<in> List.set revs \<and> revName cur = CurrentRevision (set_Status sts) else cur = upd)"
proof -
  let ?rs = "lib_SortControllerRevisions (hist e) revs"
  let ?c = "case CollisionCount (set_Status sts) of None \<Rightarrow> 0 | Some n \<Rightarrow> n"
  from assms(3) obtain nr where nr: "newRevision e sts (nextRevision ?rs) ?c = Some (Inr nr)" and rs: "rs = ?rs"
    and choose: "chooseUpdateRevision e (realHistory e) sts rs nr ?c s = Some (Inr upd, cc, s')"
    and cur: "cur = (case findRevision (CurrentRevision (set_Status sts)) rs of None \<Rightarrow> upd | Some r \<Rightarrow> r)"
    by (auto simp: getStatefulSetRevisions_def Let_def split: option.splits sum.splits prod.splits)
  from assms(1) rs have m: "mset rs = mset revs" and st: "List.set rs = List.set revs"
    and sorted: "sorted_wrt (\<lambda>a b. sint (Revision a) \<le> sint (Revision b)) rs"
    by (simp_all add: sorts_revisions_def sorts_revisions_set)
  define eq where "eq = filter (\<lambda>r. lib_EqualRevision (hist e) r nr) rs"
  have greatest: "last rs \<in> List.set revs \<and> (\<forall>x \<in> List.set revs. sint (Revision x) \<le> sint (Revision (last rs)))" if "eq \<noteq> []"
    using that sorted unfolding st [symmetric] eq_def by (cases rs rule: rev_cases) (auto simp: sorted_wrt_append)
  from chooseUpdateRevision_spec [OF assms(2) choose eq_def] greatest have
    "if eq = [] then emits (makes nr upd) s s'
       else if lib_EqualRevision (hist e) (last rs) (last eq)
       then upd = last rs \<and> s' = s \<and> upd \<in> List.set revs \<and> (\<forall>x \<in> List.set revs. sint (Revision x) \<le> sint (Revision upd))
       else renumbered (last eq) (Revision nr) upd s s'" by (auto split: if_splits)
  moreover have "if CurrentRevision (set_Status sts) \<in> revName ` List.set revs
       then cur \<in> List.set revs \<and> revName cur = CurrentRevision (set_Status sts) else cur = upd"
    using cur st findRevision_none [of "CurrentRevision (set_Status sts)" rs]
    by (auto split: option.splits dest: findRevision_name)
  ultimately show ?thesis using nr m rs sorted eq_def by blast
qed

text \<open>A history whose greatest revision has the data of the set: it is used as it is.\<close>

abbreviation "samePatch \<equiv> (oldRevision ''b'' 2)\<lparr>cr_Raw := ''patch''\<rparr>"

lemma sample_choose: "map_option (\<lambda>(x, cc, rs, s). (isl x, map revName rs)) (getStatefulSetRevisions (sampleEnv keepOne)
    (realHistory (sampleEnv keepOne)) keepOne [samePatch, oldRevision ''a'' 1] sampleSys)
    = Some (False, [''a'', ''b''])"
  by code_simp

theorem update_revision_chosen_witness:
  "\<exists>cc. getStatefulSetRevisions (sampleEnv keepOne) (realHistory (sampleEnv keepOne)) keepOne
     [samePatch, oldRevision ''a'' 1] sampleSys = Some (Inr (samePatch, samePatch), cc, [oldRevision ''a'' 1, samePatch], sampleSys)"
proof -
  from sample_choose obtain x cc rs s' where x: "getStatefulSetRevisions (sampleEnv keepOne)
      (realHistory (sampleEnv keepOne)) keepOne [samePatch, oldRevision ''a'' 1] sampleSys = Some (x, cc, rs, s')"
    "\<not> isl x" "map revName rs = [''a'', ''b'']" by auto
  then obtain cur upd where "x = Inr (cur, upd)" by (cases x) auto
  with x have run: "getStatefulSetRevisions (sampleEnv keepOne) (realHistory (sampleEnv keepOne)) keepOne
      [samePatch, oldRevision ''a'' 1] sampleSys = Some (Inr (cur, upd), cc, rs, s')" by simp
  have raw: "cr_Raw nr = ''patch''" if "newRevision (sampleEnv keepOne) keepOne n 0 = Some (Inr nr)" for n nr
    using that by (auto simp: newRevision_def getPatch_def sampleEnv_def sampleCodec_def sampleHist_def sampleRevision_def)
  have num: "CollisionCount (set_Status keepOne) = None" "CurrentRevision (set_Status keepOne) = []"
    by (simp_all add: keepOne_def sampleSet_def sampleStatus_def Let_def)
  have eq: "lib_EqualRevision (hist (sampleEnv keepOne)) a b \<longleftrightarrow> cr_Raw a = cr_Raw b" for a b
    by (simp add: sampleEnv_def sampleHist_def)
  have old: "cr_Raw (oldRevision ''a'' 1) \<noteq> ''patch''" "revName (oldRevision ''a'' 1) = ''a''" "revName samePatch = ''b''"
    by (simp_all add: oldRevision_def emptyMeta_def)
  from update_revision_chosen [OF sample_sorts_revisions sample_finds_equal run, unfolded num eq option.case]
  obtain nr eqs where c: "mset rs = mset [samePatch, oldRevision ''a'' 1]"
      "newRevision (sampleEnv keepOne) keepOne (nextRevision rs) 0 = Some (Inr nr)"
      "eqs = filter (\<lambda>r. cr_Raw r = cr_Raw nr) rs"
      "eqs \<noteq> [] \<Longrightarrow> cr_Raw (last rs) = cr_Raw (last eqs) \<Longrightarrow> upd = last rs \<and> s' = sampleSys"
      "[] \<notin> revName ` List.set [samePatch, oldRevision ''a'' 1] \<Longrightarrow> cur = upd"
    by (elim exE conjE) (rule that, assumption+, simp_all)
  from c(1) have "List.set rs = {samePatch, oldRevision ''a'' 1}" by (metis list.simps(15) set_empty set_mset_mset)
  with x(3) old(2,3) have rs: "rs = [oldRevision ''a'' 1, samePatch]" by (auto simp: map_eq_Cons_conv doubleton_eq_iff)
  with c(3) raw [OF c(2)] old have "eqs = [samePatch]" by simp
  with c(4) rs have "upd = samePatch" "s' = sampleSys" by simp_all
  moreover from c(5) old have "cur = upd" by simp
  ultimately have "upd = samePatch \<and> s' = sampleSys \<and> cur = upd" by simp
  with run rs show ?thesis by auto
qed

text \<open>
  C17. Creating a revision returns, however often its name is taken: if the server refuses only names of a set as
  taken, and the name for some collision count ahead is not in it, then the loop ends at that count at the latest.
\<close>

theorem revision_creation_returns:
  assumes "\<And>x w. fst (api e (CreateCall (RevObj x)) w) = Fail AlreadyExists \<Longrightarrow> revName x \<in> taken"
    and "lib_ControllerRevisionName (hist e) (Name parent) (lib_HashControllerRevision (hist e) r (cc + of_nat n)) \<notin> taken"
  shows "\<exists>x i s'. i \<le> n \<and> rh_CreateControllerRevision e parent r (Some cc) s = Some (x, Some (cc + of_nat i), s')"
proof -
  have "\<exists>x i s'. i \<le> n \<and> createRevisionLoop e parent r clone cc s = Some (x, Some (cc + of_nat i), s')" for clone
    using assms(2)
  proof (induction n arbitrary: clone cc s)
    case 0
    with createRevisionLoop_step [of e parent r clone cc s] assms(1) show ?case by fastforce
  next
    case (Suc n)
    from createRevisionLoop_step [of e parent r clone cc s] show ?case
    proof (elim disjE exE conjE)
      fix x s'
      assume "createRevisionLoop e parent r clone cc s = Some (x, Some cc, s')"
      then show ?thesis by (intro exI [of _ x] exI [of _ "0::nat"]) simp
    next
      fix clone' s2
      assume again: "createRevisionLoop e parent r clone cc s = createRevisionLoop e parent r clone' (cc + 1) s2"
      from Suc.prems have "lib_ControllerRevisionName (hist e) (Name parent)
          (lib_HashControllerRevision (hist e) r (cc + 1 + of_nat n)) \<notin> taken" by (simp add: algebra_simps)
      from Suc.IH [OF this, of clone' s2] obtain x i s' where
        "i \<le> n" "createRevisionLoop e parent r clone' (cc + 1) s2 = Some (x, Some (cc + 1 + of_nat i), s')" by blast
      with again show ?thesis by (intro exI [of _ x] exI [of _ "Suc i"]) (simp add: algebra_simps)
    qed
  qed
  then show ?thesis by (simp add: rh_CreateControllerRevision_def)
qed

text \<open>The sample server with one other revision, of the name that is tried first.\<close>

fun occupied :: "call \<Rightarrow> nat \<Rightarrow> reply \<times> nat" where
  "occupied (CreateCall (RevObj x)) w = (if revName x = ''web-h0'' then (Fail AlreadyExists, w) else (Got (RevObj x), w))"
| "occupied (GetCall RevK key) w = (Got (RevObj (oldRevision (key_Name key) 1)), w)"
| "occupied c w = sampleApi c w"

theorem revision_creation_returns_witness:
  "\<exists>x i s'. i \<le> 1 \<and> rh_CreateControllerRevision (serverEnv occupied) (set_Meta keepOne) (oldRevision ''new'' 2) (Some 0) sampleSys
     = Some (x, Some (of_nat i), s')"
proof -
  have "revName x \<in> {''web-h0''}" if "fst (api (serverEnv occupied) (CreateCall (RevObj x)) w) = Fail AlreadyExists" for x w
    using that by (auto split: if_splits)
  moreover have "lib_ControllerRevisionName (hist (serverEnv occupied)) (Name (set_Meta keepOne))
      (lib_HashControllerRevision (hist (serverEnv occupied)) (oldRevision ''new'' 2) (0 + of_nat 1)) \<notin> {''web-h0''}"
    by code_simp
  ultimately obtain x i s' where "i \<le> 1" "rh_CreateControllerRevision (serverEnv occupied) (set_Meta keepOne)
      (oldRevision ''new'' 2) (Some 0) sampleSys = Some (x, Some (0 + of_nat i), s')"
    using revision_creation_returns [of "serverEnv occupied" "{''web-h0''}" "set_Meta keepOne" "oldRevision ''new'' 2" 0 1 sampleSys]
    by blast
  then show ?thesis unfolding add_0 by blast
qed

end
