(* ===== verification/InPlace.thy ===== *)
theory InPlace
  imports Identity
begin

text \<open>
  \<^verbatim>\<open>controllers/stateful_inplace_utils.go\<close>: when a pod can be updated in place, the update itself, and when
  it is complete.
\<close>

section \<open>Text helpers\<close>

fun hasPrefix :: "string \<Rightarrow> string \<Rightarrow> bool" where
  "hasPrefix [] s = True"
| "hasPrefix (c # p) [] = False"
| "hasPrefix (c # p) (d # s) = (c = d \<and> hasPrefix p s)"

fun removeFirst :: "string \<Rightarrow> string \<Rightarrow> string" where
  \<comment> \<open>\<open>strings.Replace(s, pat, "", 1)\<close>\<close>
  "removeFirst pat [] = []"
| "removeFirst pat (c # s) =
     (if hasPrefix pat (c # s) then drop (length pat) (c # s) else c # removeFirst pat s)"

fun splitSlash :: "string \<Rightarrow> string list" where
  \<comment> \<open>\<open>strings.Split(s, "/")\<close>\<close>
  "splitSlash [] = [[]]"
| "splitSlash (c # s) =
     (if c = CHR ''/'' then [] # splitSlash s
      else (case splitSlash s of [] \<Rightarrow> [[c]] | w # ws \<Rightarrow> (c # w) # ws))"

definition Atoi :: "string \<Rightarrow> int" where
  \<comment> \<open>the value \<open>strconv.Atoi\<close> returns: 0 with a syntax error, the nearest bound with a range error\<close>
  "Atoi s =
     (let neg = (s \<noteq> [] \<and> hd s = CHR ''-'');
          ds = (if s \<noteq> [] \<and> (hd s = CHR ''-'' \<or> hd s = CHR ''+'') then tl s else s)
      in if ds = [] \<or> \<not> list_all isDigit ds then 0
         else if neg then max (- (2 ^ 63)) (- int (readNat ds))
         else min (2 ^ 63 - 1) (int (readNat ds)))"

definition imagePathHere :: "string \<Rightarrow> bool" where
  "imagePathHere s =
     (let p = ''/spec/containers/''; r = drop (length p) s
      in hasPrefix p s \<and> takeWhile isDigit r \<noteq> [] \<and> hasPrefix ''/image'' (dropWhile isDigit r))"

fun inPlaceUpdatePatchRexp :: "string \<Rightarrow> bool" where
  \<comment> \<open>\<open>MatchString\<close> of \<open>/spec/containers/([0-9]+)/image\<close>, which is not anchored\<close>
  "inPlaceUpdatePatchRexp [] = imagePathHere []"
| "inPlaceUpdatePatchRexp (c # s) = (imagePathHere (c # s) \<or> inPlaceUpdatePatchRexp s)"

section \<open>Deciding on an in-place update\<close>

record inPlaceUpdateSpec =
  ipu_revision :: string
  ipu_patches :: "jsonPatchOperation list"
  containerImages :: "string \<rightharpoonup> string"

definition isInPlaceOnly :: "statefulSet \<Rightarrow> bool option" where
  "isInPlaceOnly sts =
     (case UpdateStrategy (set_Spec sts) of
        None \<Rightarrow> None
      | Some us \<Rightarrow>
          Some (case RollingUpdate us of
                  None \<Rightarrow> False
                | Some ru \<Rightarrow> PodUpdatePolicy ru = InPlaceOnlyPodUpdateStrategyType))"

fun collectPatches ::
  "container list \<Rightarrow> jsonPatchOperation list \<Rightarrow> inPlaceUpdateSpec \<Rightarrow> inPlaceUpdateSpec option option" where
  \<comment> \<open>the loop over the patches: \<open>Some None\<close> is \<open>return false, nil\<close>, \<open>None\<close> a panic\<close>
  "collectPatches containers [] spec = Some (Some spec)"
| "collectPatches containers (jp # patches) spec =
     (let jp = jp\<lparr>Path := removeFirst ''/spec/template'' (Path jp)\<rparr>;
          spec = spec\<lparr>ipu_patches := ipu_patches spec @ [jp]\<rparr>
      in if \<not> hasPrefix ''/spec/'' (Path jp) then collectPatches containers patches spec
         else if Operation jp \<noteq> ''replace'' \<or> \<not> inPlaceUpdatePatchRexp (Path jp) then Some None
         else
           let words = splitSlash (Path jp)
           in if length words \<le> 3 then None
              else
                let idx = Atoi (words ! 3)
                in if int (length containers) \<le> idx then Some None
                   else if idx < 0 then None
                   else (case Value jp of
                           JStr v \<Rightarrow> collectPatches containers patches
                             (spec\<lparr>containerImages := (containerImages spec)(c_Name (containers ! nat idx) \<mapsto> v)\<rparr>)
                         | _ \<Rightarrow> None))"

fun lookupRevision :: "string \<Rightarrow> controllerRevision list \<Rightarrow> controllerRevision option" where
  "lookupRevision name [] = None"
| "lookupRevision name (r # rs) = (if revName r = name then Some r else lookupRevision name rs)"

definition shouldDoInPlaceUpdate ::
  "codecLib \<Rightarrow> statefulSet \<Rightarrow> controllerRevision \<Rightarrow> string \<Rightarrow> controllerRevision list
     \<Rightarrow> (bool \<times> inPlaceUpdateSpec option) option" where
  "shouldDoInPlaceUpdate C sts updateRevision oldRevisionName revisions =
     (case UpdateStrategy (set_Spec sts) of
        None \<Rightarrow> None
      | Some us \<Rightarrow>
      (case RollingUpdate us of
        None \<Rightarrow> Some (False, None)
      | Some ru \<Rightarrow>
          if PodUpdatePolicy ru \<noteq> InPlaceIfPossiblePodUpdateStrategyType
             \<and> PodUpdatePolicy ru \<noteq> InPlaceOnlyPodUpdateStrategyType then Some (False, None)
          else
            (case lookupRevision oldRevisionName revisions of
               None \<Rightarrow> Some (False, None)
             | Some oldRevision \<Rightarrow>
                 (case lib_CreatePatch C (cr_Raw oldRevision) (cr_Raw updateRevision) of
                    Inl err \<Rightarrow> Some (False, None)
                  | Inr patches \<Rightarrow>
                      (case lib_DecodePatchTemplate C (cr_Raw oldRevision) of
                         Inl err \<Rightarrow> Some (False, None)
                       | Inr None \<Rightarrow> None
                       | Inr (Some temp) \<Rightarrow>
                           (case collectPatches (Containers (t_Spec temp)) patches
                                   \<lparr>ipu_revision = revName updateRevision, ipu_patches = [],
                                    containerImages = Map.empty\<rparr> of
                              None \<Rightarrow> None
                            | Some None \<Rightarrow> Some (False, None)
                            | Some (Some spec) \<Rightarrow> Some (True, Some spec)))))))"

section \<open>Completion\<close>

fun checkStatuses ::
  "containerStatus list \<Rightarrow> (string \<times> inPlaceUpdateContainerStatus) list
     \<Rightarrow> error + (string \<times> inPlaceUpdateContainerStatus) list" where
  "checkStatuses [] lst = Inr lst"
| "checkStatuses (cs # css) lst =
     (case map_of lst (cs_Name cs) of
        None \<Rightarrow> checkStatuses css lst
      | Some oldStatus \<Rightarrow>
          if ipc_ImageID oldStatus = cs_ImageID cs
          then Inl (Errorf (''container '' @ cs_Name cs @ '' imageID not changed''))
          else checkStatuses css (AList.delete (cs_Name cs) lst))"

definition checkInPlaceUpdateCompleted :: "codecLib \<Rightarrow> pod \<Rightarrow> error option" where
  "checkInPlaceUpdateCompleted C pod =
     (case mapLookup (Annotations (p_Meta pod)) StatefulSetInPlaceUpdateStateAnnotation of
        None \<Rightarrow> None
      | Some stateStr \<Rightarrow>
          (case lib_UnmarshalInPlaceState C stateStr of
             Inl err \<Rightarrow> Some err
           | Inr st \<Rightarrow>
               if ips_Revision st \<noteq> mapGet (podLabels pod) StatefulSetRevisionLabel
               then Some (Errorf (''currently revision '' @ mapGet (podLabels pod) StatefulSetRevisionLabel
                      @ '' not equal to in-place update revision '' @ ips_Revision st))
               else (case checkStatuses (ContainerStatuses (p_Status pod)) (LastContainerStatuses st) of
                       Inl err \<Rightarrow> Some err
                     | Inr rest \<Rightarrow> if rest \<noteq> [] then Some (Errorf ''not found statuses of containers'') else None)))"

definition recordStatuses ::
  "(string \<rightharpoonup> string) \<Rightarrow> containerStatus list \<Rightarrow> (string \<times> inPlaceUpdateContainerStatus) list" where
  "recordStatuses images statuses =
     fold (\<lambda>c lst. if images (cs_Name c) \<noteq> None
                    then AList.update (cs_Name c) \<lparr>ipc_ImageID = cs_ImageID c\<rparr> lst else lst) statuses []"

definition podInPlaceUpdate ::
  "'w k8s \<Rightarrow> pod \<Rightarrow> inPlaceUpdateSpec \<Rightarrow> 'w sys \<Rightarrow> (error + pod) option" where
  "podInPlaceUpdate e pod spec s =
     (let C = codec e; patchJSON = lib_MarshalPatches C (ipu_patches spec)
      in case lib_DecodePatch C patchJSON of
           Inl err \<Rightarrow> Some (Inl (Errorf (''failed DecodePatch patches '' @ patchJSON @ '' : '' @ lib_ErrorString (core e) err)))
         | Inr patchClient \<Rightarrow>
             (case lib_ApplyPatch C patchClient (lib_MarshalPod C pod) of
                Inl err \<Rightarrow> Some (Inl (Errorf (''failed apply patches '' @ patchJSON @ '' to pod: '' @ lib_ErrorString (core e) err)))
              | Inr newPodJSON \<Rightarrow>
                  (case lib_UnmarshalPod C newPodJSON of
                     Inl err \<Rightarrow> Some (Inl (Errorf (''failed unmarshal pod after patch: '' @ lib_ErrorString (core e) err)))
                   | Inr None \<Rightarrow> None
                   | Inr (Some newPod) \<Rightarrow>
                       (case mapAssign (podLabels newPod) StatefulSetRevisionLabel (ipu_revision spec) of
                          None \<Rightarrow> None
                        | Some labels \<Rightarrow>
                            let st = \<lparr>ips_Revision = ipu_revision spec, UpdateTimestamp = clock e (world s),
                                      LastContainerStatuses =
                                        recordStatuses (containerImages spec) (ContainerStatuses (p_Status newPod))\<rparr>
                            in Some (Inr (newPod\<lparr>p_Meta := (p_Meta newPod)\<lparr>Labels := labels,
                                 Annotations := mapPut (Annotations (p_Meta newPod))
                                   StatefulSetInPlaceUpdateStateAnnotation (lib_MarshalInPlaceState C st)\<rparr>\<rparr>))))))"

section \<open>Readiness condition\<close>

fun getInPlaceUpdateReadyCondition_in :: "podCondition list \<Rightarrow> podCondition option" where
  "getInPlaceUpdateReadyCondition_in [] = None"
| "getInPlaceUpdateReadyCondition_in (c # cs) =
     (if pc_Type c = StatefulSetInPlaceUpdateReady then Some c else getInPlaceUpdateReadyCondition_in cs)"

definition getInPlaceUpdateReadyCondition :: "pod \<Rightarrow> podCondition option" where
  "getInPlaceUpdateReadyCondition pod = getInPlaceUpdateReadyCondition_in (Conditions (p_Status pod))"

definition shouldUpdateInPlaceReady :: "codecLib \<Rightarrow> pod \<Rightarrow> bool" where
  "shouldUpdateInPlaceReady C pod =
     (if \<not> list_ex (\<lambda>r. r = StatefulSetInPlaceUpdateReady) (ReadinessGates (p_Spec pod)) then False
      else if checkInPlaceUpdateCompleted C pod \<noteq> None then False
      else (case getInPlaceUpdateReadyCondition pod of
              None \<Rightarrow> True | Some c \<Rightarrow> pc_Status c = ConditionFalse))"

fun updateCondition :: "podCondition list \<Rightarrow> podCondition \<Rightarrow> podCondition list" where
  "updateCondition [] condition = [condition]"
| "updateCondition (c # cs) condition =
     (if pc_Type c = pc_Type condition then condition # cs else c # updateCondition cs condition)"

definition updatePodCondition :: "pod \<Rightarrow> podCondition \<Rightarrow> pod" where
  "updatePodCondition pod condition =
     pod\<lparr>p_Status := (p_Status pod)\<lparr>Conditions := updateCondition (Conditions (p_Status pod)) condition\<rparr>\<rparr>"

section \<open>Facts\<close>

text \<open>Everything that \<open>collectPatches\<close> accepts below \<open>/spec/\<close> replaces a path the regular expression takes.\<close>

definition imagePatch :: "jsonPatchOperation \<Rightarrow> bool" where
  "imagePatch jp \<longleftrightarrow> (hasPrefix ''/spec/'' (Path jp) \<longrightarrow>
     Operation jp = ''replace'' \<and> inPlaceUpdatePatchRexp (Path jp) \<and> (\<exists>v. Value jp = JStr v))"

text \<open>
  A patch as the in-place update applies it to the pod: relative to the template. Below \<open>/spec/\<close> it gives the container
  at its index a new image.
\<close>

definition stripTemplate :: "jsonPatchOperation \<Rightarrow> jsonPatchOperation" where
  "stripTemplate jp = jp\<lparr>Path := removeFirst ''/spec/template'' (Path jp)\<rparr>"

definition patchIndex :: "jsonPatchOperation \<Rightarrow> int" where
  "patchIndex jp = Atoi (splitSlash (Path jp) ! 3)"

definition newImage :: "container list \<Rightarrow> jsonPatchOperation \<Rightarrow> (string \<times> string) option" where
  "newImage cs jp =
     (if hasPrefix ''/spec/'' (Path jp)
      then (case Value jp of JStr v \<Rightarrow> Some (c_Name (cs ! nat (patchIndex jp)), v) | _ \<Rightarrow> None) else None)"

definition imageOf :: "container list \<Rightarrow> jsonPatchOperation \<Rightarrow> bool" where
  "imageOf cs jp \<longleftrightarrow> imagePatch jp
     \<and> (hasPrefix ''/spec/'' (Path jp) \<longrightarrow> 0 \<le> patchIndex jp \<and> patchIndex jp < int (length cs))"

lemma collectPatches_image:
  assumes "collectPatches cs ps spec = Some (Some spec')"
  shows "ipu_patches spec' = ipu_patches spec @ map stripTemplate ps \<and> list_all (imageOf cs) (map stripTemplate ps)
    \<and> containerImages spec' = containerImages spec ++ map_of (rev (List.map_filter (newImage cs) (map stripTemplate ps)))
    \<and> ipu_revision spec' = ipu_revision spec"
  using assms
proof (induction ps arbitrary: spec)
  case Nil
  then show ?case by (simp add: List.map_filter_def)
next
  case (Cons jp ps)
  let ?j = "stripTemplate jp"
  let ?spec = "spec\<lparr>ipu_patches := ipu_patches spec @ [?j]\<rparr>"
  show ?case
  proof (cases "hasPrefix ''/spec/'' (Path ?j)")
    case False
    with Cons.prems have "collectPatches cs ps ?spec = Some (Some spec')" by (simp add: stripTemplate_def Let_def)
    from Cons.IH [OF this] False show ?thesis
      by (simp add: imageOf_def imagePatch_def newImage_def List.map_filter_def)
  next
    case True
    with Cons.prems obtain v where j: "imageOf cs ?j" "newImage cs ?j = Some (c_Name (cs ! nat (patchIndex ?j)), v)"
      and more: "collectPatches cs ps (?spec\<lparr>containerImages :=
        (containerImages spec)(c_Name (cs ! nat (patchIndex ?j)) \<mapsto> v)\<rparr>) = Some (Some spec')"
      by (auto simp: stripTemplate_def [symmetric] imageOf_def imagePatch_def newImage_def patchIndex_def Let_def
          split: if_splits json.splits)
    from Cons.IH [OF more] j show ?thesis by (simp add: List.map_filter_def) (simp add: map_add_def fun_eq_iff split: option.split)
  qed
qed

lemma shouldDoInPlaceUpdate_spec:
  assumes "shouldDoInPlaceUpdate C sts upd old revisions = Some (True, spec)"
  obtains us ru r patches temp sp where "UpdateStrategy (set_Spec sts) = Some us" "RollingUpdate us = Some ru"
    "PodUpdatePolicy ru \<in> {InPlaceIfPossiblePodUpdateStrategyType, InPlaceOnlyPodUpdateStrategyType}"
    "lookupRevision old revisions = Some r" "lib_CreatePatch C (cr_Raw r) (cr_Raw upd) = Inr patches"
    "lib_DecodePatchTemplate C (cr_Raw r) = Inr (Some temp)" "spec = Some sp"
    "collectPatches (Containers (t_Spec temp)) patches
       \<lparr>ipu_revision = revName upd, ipu_patches = [], containerImages = Map.empty\<rparr> = Some (Some sp)"
  using assms by (auto simp: shouldDoInPlaceUpdate_def split: option.splits if_splits sum.splits)

lemma lookupRevision_Some: "lookupRevision n rs = Some r \<Longrightarrow> r \<in> List.set rs \<and> revName r = n"
  by (induction rs) (auto split: if_splits)

lemma checkStatuses_complete:
  "checkStatuses css lst = Inr [] \<Longrightarrow> map_of lst n = Some old \<Longrightarrow>
     \<exists>cs \<in> List.set css. cs_Name cs = n \<and> cs_ImageID cs \<noteq> ipc_ImageID old"
proof (induction css arbitrary: lst)
  case Nil
  then show ?case by simp
next
  case (Cons cs css)
  show ?case
  proof (cases "cs_Name cs = n")
    case True
    with Cons.prems show ?thesis by (auto split: if_splits)
  next
    case False
    with Cons show ?thesis
      by (auto simp: delete_conv' split: option.splits if_splits)
  qed
qed

lemma recordStatuses_dom:
  "map_of (recordStatuses images statuses) n \<noteq> None \<longleftrightarrow>
     images n \<noteq> None \<and> (\<exists>c \<in> List.set statuses. cs_Name c = n)"
proof -
  have "map_of (fold (\<lambda>c lst. if images (cs_Name c) \<noteq> None
      then AList.update (cs_Name c) \<lparr>ipc_ImageID = cs_ImageID c\<rparr> lst else lst) cs al) n \<noteq> None
    \<longleftrightarrow> map_of al n \<noteq> None \<or> images n \<noteq> None \<and> (\<exists>c \<in> List.set cs. cs_Name c = n)" for cs al
    by (induction cs arbitrary: al) (auto simp: update_conv')
  from this [of statuses "[]"] show ?thesis by (simp add: recordStatuses_def)
qed

lemma updateCondition_lookup:
  assumes "pc_Type c = StatefulSetInPlaceUpdateReady"
  shows "getInPlaceUpdateReadyCondition_in (updateCondition cs c) = Some c"
  using assms by (induction cs) auto

lemma updatePodCondition_frame [simp]:
  "p_Meta (updatePodCondition p c) = p_Meta p"
  "p_Spec (updatePodCondition p c) = p_Spec p"
  "Phase (p_Status (updatePodCondition p c)) = Phase (p_Status p)"
  "ContainerStatuses (p_Status (updatePodCondition p c)) = ContainerStatuses (p_Status p)"
  by (simp_all add: updatePodCondition_def)

section \<open>Properties\<close>


definition inPlaceWeb :: statefulSet where
  "inPlaceWeb = (let w = sampleSet 1 0 ''OrderedReady'' in w\<lparr>set_Spec := (set_Spec w)\<lparr>UpdateStrategy :=
     Some \<lparr>us_Type = RollingUpdateStatefulSetStrategyType, RollingUpdate = Some \<lparr>Partition = Some 0, MaxUnavailable = None,
       PodUpdatePolicy = InPlaceIfPossiblePodUpdateStrategyType, Paused = False, PriorityStrategy = None\<rparr>\<rparr>\<rparr>\<rparr>)"

definition imageCodec :: codecLib where
  "imageCodec = (sampleCodec inPlaceWeb)\<lparr>lib_CreatePatch := (\<lambda>a b. Inr
     [\<lparr>Operation = ''replace'', Path = ''/spec/template/spec/containers/0/image'', Value = JStr ''app:2''\<rparr>])\<rparr>"

definition namedRevision :: "string \<Rightarrow> controllerRevision" where
  "namedRevision name = \<lparr>cr_Meta = emptyMeta\<lparr>Name := name\<rparr>, cr_Raw = name, Revision = 1\<rparr>"

lemma sample_in_place: "map_option fst (shouldDoInPlaceUpdate imageCodec inPlaceWeb (namedRevision ''new'') ''old''
    [namedRevision ''old'']) = Some True"
  by code_simp


text \<open>
  The image pattern is not anchored: it matches every path that has \<open>/spec/containers/<digits>/image\<close>
  somewhere, whatever stands before and after, so also \<open>imagePullPolicy\<close>.
\<close>

theorem image_pattern_unanchored:
  "inPlaceUpdatePatchRexp (before @ ''/spec/containers/'' @ showNat n @ ''/image'' @ after)"
proof (induction before)
  case Nil
  obtain c ds where n: "showNat n = c # ds" using showNat_nonempty [of n] by (cases "showNat n") auto
  have here: "imagePathHere (''/spec/containers/'' @ showNat n @ ''/image'' @ after)"
    by (auto simp: imagePathHere_def takeWhile_append dropWhile_append isDigit_def dest!: showNat_digits)
  then show ?case by (simp only: append_Nil append_Cons inPlaceUpdatePatchRexp.simps) simp
next
  case (Cons c before)
  then show ?case by simp
qed

text \<open>
  C25. A pod that had an in-place update is taken to be updated only when it carries the revision of that update and
  every container recorded before the update now reports another image ID.
\<close>

theorem in_place_completed:
  assumes "checkInPlaceUpdateCompleted C p = None"
    and "mapLookup (Annotations (p_Meta p)) StatefulSetInPlaceUpdateStateAnnotation = Some text"
    and "lib_UnmarshalInPlaceState C text = Inr st" and "map_of (LastContainerStatuses st) n = Some old"
  shows "ips_Revision st = getPodRevision p
    \<and> (\<exists>cs \<in> List.set (ContainerStatuses (p_Status p)). cs_Name cs = n \<and> cs_ImageID cs \<noteq> ipc_ImageID old)"
proof -
  have rev: "getPodRevision p = mapGet (podLabels p) StatefulSetRevisionLabel"
    by (simp add: getPodRevision_def mapGet_def split: option.splits)
  from assms(1-3) have "ips_Revision st = getPodRevision p"
    "checkStatuses (ContainerStatuses (p_Status p)) (LastContainerStatuses st) = Inr []"
    by (auto simp: checkInPlaceUpdateCompleted_def rev split: if_splits sum.splits)
  with checkStatuses_complete [OF _ assms(4)] show ?thesis by blast
qed

definition updatedPod :: pod where
  "updatedPod = (let p = samplePod ''web-0'' ''r2'' PodRunning
     in p\<lparr>p_Meta := (p_Meta p)\<lparr>Annotations := Some [StatefulSetInPlaceUpdateStateAnnotation \<mapsto> ''r2'']\<rparr>,
          p_Status := (p_Status p)\<lparr>ContainerStatuses := [\<lparr>cs_Name = ''app'', cs_ImageID = ''img2'', cs_rest = []\<rparr>]\<rparr>\<rparr>)"

theorem in_place_completed_witness:
  "\<exists>cs \<in> List.set (ContainerStatuses (p_Status updatedPod)). cs_Name cs = ''app'' \<and> cs_ImageID cs \<noteq> ''img1''"
proof -
  have c: "checkInPlaceUpdateCompleted (sampleCodec webSet0) updatedPod = None" for webSet0 by code_simp
  have a: "mapLookup (Annotations (p_Meta updatedPod)) StatefulSetInPlaceUpdateStateAnnotation = Some ''r2''" by code_simp
  have m: "map_of (LastContainerStatuses \<lparr>ips_Revision = ''r2'', UpdateTimestamp = 0,
      LastContainerStatuses = [(''app'', \<lparr>ipc_ImageID = ''img1''\<rparr>)]\<rparr>) ''app'' = Some \<lparr>ipc_ImageID = ''img1''\<rparr>" by simp
  from in_place_completed [OF c a _ m, of inPlaceWeb] show ?thesis by (simp add: sampleCodec_def)
qed

text \<open>
  Setting the readiness condition of an in-place update and reading it back gives that condition; it changes
  nothing else that the identity, the storage or the revision of the pod is read from.
\<close>

theorem condition_roundtrip:
  "getInPlaceUpdateReadyCondition (updatePodCondition p (c\<lparr>pc_Type := StatefulSetInPlaceUpdateReady\<rparr>))
     = Some (c\<lparr>pc_Type := StatefulSetInPlaceUpdateReady\<rparr>)
   \<and> identityMatches sts (updatePodCondition p c) = identityMatches sts p
   \<and> storageMatches sts (updatePodCondition p c) = storageMatches sts p
   \<and> getPodRevision (updatePodCondition p c) = getPodRevision p"
proof -
  have "getInPlaceUpdateReadyCondition (updatePodCondition p (c\<lparr>pc_Type := StatefulSetInPlaceUpdateReady\<rparr>))
      = Some (c\<lparr>pc_Type := StatefulSetInPlaceUpdateReady\<rparr>)"
    by (simp add: getInPlaceUpdateReadyCondition_def updatePodCondition_def updateCondition_lookup)
  moreover have "identityMatches sts (updatePodCondition p c) = identityMatches sts p"
    by (rule identityMatches_frame) simp
  moreover have "storageMatches sts (updatePodCondition p c) = storageMatches sts p"
    by (rule storageMatches_frame) simp_all
  moreover have "getPodRevision (updatePodCondition p c) = getPodRevision p" by (simp only: getPodRevision_meta updatePodCondition_frame)
  ultimately show ?thesis by blast
qed

end
