(* ===== verification/PodControl.thy ===== *)
theory PodControl
  imports InPlace
begin

text \<open>
  \<^verbatim>\<open>controllers/stateful_pod_control.go\<close>: the only code that writes the pods of a StatefulSet. The Go interface
  \<^verbatim>\<open>StatefulPodControlInterface\<close> is the record \<open>statefulPodControlInterface\<close>, its contract the locale
  \<open>stateful_pod_control\<close> (what each method may write, and the no-op case of an update), and
  \<open>NewRealStatefulPodControl\<close> its implementation.

  A method that takes a pod as an in-out parameter returns the caller's pod after the call. Inside a retried
  closure the variable \<^verbatim>\<open>pod\<close> may be rebound to a fresh copy; from then on the caller's object is not
  written any more, which the triple (current pod, caller's pod, still the same object?) records.
\<close>

section \<open>Events\<close>

definition resultEvent :: "coreLib \<Rightarrow> string \<Rightarrow> string \<Rightarrow> string \<Rightarrow> error option \<Rightarrow> 'w sys \<Rightarrow> 'w sys" where
  "resultEvent L verb okText failText err s =
     (case err of
        None \<Rightarrow> recordEvent ''Normal'' (''Successful'' @ Title verb) okText s
      | Some x \<Rightarrow> recordEvent ''Warning'' (''Failed'' @ Title verb) (failText @ lib_ErrorString L x) s)"

definition recordPodEvent ::
  "coreLib \<Rightarrow> string \<Rightarrow> statefulSet \<Rightarrow> pod \<Rightarrow> error option \<Rightarrow> 'w sys \<Rightarrow> 'w sys" where
  "recordPodEvent L verb sts pod err s =
     (let pre = ToLower verb @ '' Pod '' @ podName pod @ '' in StatefulSet '' @ setName sts
      in resultEvent L verb (pre @ '' successful'') (pre @ '' failed error: '') err s)"

definition recordClaimEvent ::
  "coreLib \<Rightarrow> string \<Rightarrow> statefulSet \<Rightarrow> pod \<Rightarrow> persistentVolumeClaim \<Rightarrow> error option \<Rightarrow> 'w sys \<Rightarrow> 'w sys" where
  "recordClaimEvent L verb sts pod claim err s =
     (let pre = ToLower verb @ '' Claim '' @ Name (pvc_Meta claim)
      in resultEvent L verb
           (pre @ '' Pod '' @ podName pod @ '' in StatefulSet '' @ setName sts @ '' success'')
           (pre @ '' for Pod '' @ podName pod @ '' in StatefulSet '' @ setName sts @ '' failed error: '') err s)"

section \<open>Volume claims\<close>

fun createClaims ::
  "'w k8s \<Rightarrow> statefulSet \<Rightarrow> pod \<Rightarrow> persistentVolumeClaim list \<Rightarrow> error list \<Rightarrow> 'w sys \<Rightarrow> error list \<times> 'w sys" where
  "createClaims e sts pod [] errs s = (errs, s)"
| "createClaims e sts pod (claim # claims) errs s =
     (case getAs asPvc e PvcK (metaKey (pvc_Meta claim)) s of
        (Inr pvc, s) \<Rightarrow> createClaims e sts pod claims errs s
      | (Inl err, s) \<Rightarrow>
          if err = NotFound then
            (case writeAs asPvc e (CreateCall (PvcObj claim)) claim s of
               (err, claim, s) \<Rightarrow>
                 let errs = (case err of None \<Rightarrow> errs
                       | Some x \<Rightarrow> errs @ [Errorf (''Failed to create PVC '' @ Name (pvc_Meta claim) @ '': ''
                                            @ lib_ErrorString (core e) x)]);
                     s = (if \<not> IsAlreadyExists err
                          then recordClaimEvent (core e) ''create'' sts pod claim err s else s)
                 in createClaims e sts pod claims errs s)
          else
            createClaims e sts pod claims
              (errs @ [Errorf (''Failed to retrieve PVC '' @ Name (pvc_Meta claim) @ '': ''
                 @ lib_ErrorString (core e) err)])
              (recordClaimEvent (core e) ''create'' sts pod claim (Some err) s))"

definition createPersistentVolumeClaims ::
  "'w k8s \<Rightarrow> statefulSet \<Rightarrow> pod \<Rightarrow> 'w sys \<Rightarrow> (error option \<times> 'w sys) option" where
  "createPersistentVolumeClaims e sts pod s =
     (case getPersistentVolumeClaims sts pod of
        None \<Rightarrow> None
      | Some claims \<Rightarrow>
          (case createClaims e sts pod (map snd (lib_RangeClaims (core e) claims)) [] s of
             (errs, s) \<Rightarrow> Some (if errs = [] then None else Some (lib_NewAggregate (core e) errs), s)))"

section \<open>The interface and its implementation\<close>

record 'w statefulPodControlInterface =
  CreateStatefulPod :: "statefulSet \<Rightarrow> pod \<Rightarrow> 'w sys \<Rightarrow> (error option \<times> pod \<times> 'w sys) option"
  UpdateStatefulPod :: "statefulSet \<Rightarrow> pod \<Rightarrow> 'w sys \<Rightarrow> (error option \<times> pod \<times> 'w sys) option"
  InPlaceUpdateStatefulPod ::
    "statefulSet \<Rightarrow> pod \<Rightarrow> inPlaceUpdateSpec \<Rightarrow> 'w sys \<Rightarrow> (error option \<times> 'w sys) option"
  UpdateStatefulPodCondition ::
    "statefulSet \<Rightarrow> pod \<Rightarrow> podCondition \<Rightarrow> 'w sys \<Rightarrow> (error option \<times> pod \<times> 'w sys) option"
  DeleteStatefulPod :: "statefulSet \<Rightarrow> pod \<Rightarrow> 'w sys \<Rightarrow> error option \<times> 'w sys"

definition spc_CreateStatefulPod ::
  "'w k8s \<Rightarrow> statefulSet \<Rightarrow> pod \<Rightarrow> 'w sys \<Rightarrow> (error option \<times> pod \<times> 'w sys) option" where
  "spc_CreateStatefulPod e sts pod s =
     (case createPersistentVolumeClaims e sts pod s of
        None \<Rightarrow> None
      | Some (Some err, s) \<Rightarrow> Some (Some err, pod, recordPodEvent (core e) ''create'' sts pod (Some err) s)
      | Some (None, s) \<Rightarrow>
          (case writeAs asPod e (CreateCall (PodObj pod)) pod s of
             (err, pod, s) \<Rightarrow>
               if IsAlreadyExists err then Some (err, pod, s)
               else Some (err, pod, recordPodEvent (core e) ''create'' sts pod err s)))"

text \<open>One run of the closure of \<open>UpdateStatefulPod\<close>; the last component is \<^verbatim>\<open>attemptedUpdate\<close>.\<close>

definition updateAttempt ::
  "'w k8s \<Rightarrow> statefulSet \<Rightarrow> (pod \<times> pod \<times> bool \<times> bool \<times> 'w sys)
     \<Rightarrow> (error option \<times> pod \<times> pod \<times> bool \<times> bool \<times> 'w sys) option" where
  "updateAttempt e sts v =
     (case v of (pod, caller, shared, attempted, s) \<Rightarrow>
        do {
          let badIdentity = \<not> identityMatches sts pod;
          let pod = (if badIdentity then updateIdentity sts pod else pod);
          let badStorage = \<not> storageMatches sts pod;
          pod \<leftarrow> (if badStorage then updateStorage (core e) sts pod else Some pod);
          let caller = (if shared then pod else caller);
          (claimErr, s) \<leftarrow> (if badStorage then createPersistentVolumeClaims e sts pod s else Some (None, s));
          if claimErr \<noteq> None then
            Some (claimErr, pod, caller, shared, attempted, recordPodEvent (core e) ''update'' sts pod claimErr s)
          else if \<not> badIdentity \<and> \<not> badStorage then Some (None, pod, caller, shared, attempted, s)
          else
            (case writeAs asPod e (UpdateCall (PodObj pod)) pod s of
               (None, pod, s) \<Rightarrow> Some (None, pod, (if shared then pod else caller), shared, True, s)
             | (Some updateErr, pod, s) \<Rightarrow>
                 (case getAs asPod e PodK \<lparr>key_Namespace = setNamespace sts, key_Name = podName pod\<rparr> s of
                    (Inr updated, s) \<Rightarrow> Some (Some updateErr, updated, caller, False, True, s)
                  | (Inl _, s) \<Rightarrow> Some (Some updateErr, pod, caller, shared, True, s)))
        })"

definition spc_UpdateStatefulPod ::
  "'w k8s \<Rightarrow> statefulSet \<Rightarrow> pod \<Rightarrow> 'w sys \<Rightarrow> (error option \<times> pod \<times> 'w sys) option" where
  "spc_UpdateStatefulPod e sts pod s =
     (case RetryOnConflict (core e) (lib_DefaultBackoffSteps (core e)) (updateAttempt e sts)
             (pod, pod, True, False, s) of
        None \<Rightarrow> None
      | Some (err, pod, caller, shared, attempted, s) \<Rightarrow>
          Some (err, caller, if attempted then recordPodEvent (core e) ''update'' sts pod err s else s))"

definition inPlaceAttempt ::
  "'w k8s \<Rightarrow> inPlaceUpdateSpec \<Rightarrow> (pod \<times> 'w sys) \<Rightarrow> (error option \<times> pod \<times> 'w sys) option" where
  "inPlaceAttempt e spec v =
     (case v of (pod, s) \<Rightarrow>
        (case podInPlaceUpdate e pod spec s of
           None \<Rightarrow> None
         | Some (Inl err) \<Rightarrow> Some (Some err, pod, s)
         | Some (Inr updated) \<Rightarrow>
             (case writeAs asPod e (UpdateCall (PodObj updated)) updated s of
                (None, _, s) \<Rightarrow> Some (None, pod, s)
              | (Some err, _, s) \<Rightarrow>
                  (case getAs asPod e PodK (podKey pod) s of
                     (Inl gotErr, s) \<Rightarrow> Some (Some gotErr, pod, s)
                   | (Inr got, s) \<Rightarrow> Some (Some err, got, s)))))"

definition spc_InPlaceUpdateStatefulPod ::
  "'w k8s \<Rightarrow> statefulSet \<Rightarrow> pod \<Rightarrow> inPlaceUpdateSpec \<Rightarrow> 'w sys \<Rightarrow> (error option \<times> 'w sys) option" where
  "spc_InPlaceUpdateStatefulPod e sts pod spec s =
     (case RetryOnConflict (core e) (lib_DefaultBackoffSteps (core e)) (inPlaceAttempt e spec) (pod, s) of
        None \<Rightarrow> None
      | Some (updateErr, pod, s) \<Rightarrow>
          Some (updateErr, recordPodEvent (core e) ''InPlaceUpdate'' sts pod updateErr s))"

definition conditionAttempt ::
  "'w k8s \<Rightarrow> podCondition \<Rightarrow> (pod \<times> pod \<times> bool \<times> 'w sys)
     \<Rightarrow> (error option \<times> pod \<times> pod \<times> bool \<times> 'w sys) option" where
  "conditionAttempt e condition v =
     (case v of (pod, caller, shared, s) \<Rightarrow>
        (let pod = updatePodCondition pod condition; caller = (if shared then pod else caller)
         in case writeAs asPod e (StatusUpdateCall (PodObj pod)) pod s of
              (None, pod, s) \<Rightarrow> Some (None, pod, (if shared then pod else caller), shared, s)
            | (Some err, pod, s) \<Rightarrow>
                (case getAs asPod e PodK (podKey pod) s of
                   (Inl gotErr, s) \<Rightarrow> Some (Some gotErr, pod, caller, shared, s)
                 | (Inr updated, s) \<Rightarrow> Some (Some err, updated, caller, False, s))))"

definition spc_UpdateStatefulPodCondition ::
  "'w k8s \<Rightarrow> statefulSet \<Rightarrow> pod \<Rightarrow> podCondition \<Rightarrow> 'w sys \<Rightarrow> (error option \<times> pod \<times> 'w sys) option" where
  "spc_UpdateStatefulPodCondition e sts pod condition s =
     (case RetryOnConflict (core e) (lib_DefaultRetrySteps (core e)) (conditionAttempt e condition)
             (pod, pod, True, s) of
        None \<Rightarrow> None
      | Some (updateErr, pod, caller, shared, s) \<Rightarrow>
          Some (updateErr, caller, recordPodEvent (core e) ''UpdateCondition'' sts pod updateErr s))"

definition spc_DeleteStatefulPod :: "'w k8s \<Rightarrow> statefulSet \<Rightarrow> pod \<Rightarrow> 'w sys \<Rightarrow> error option \<times> 'w sys" where
  "spc_DeleteStatefulPod e sts pod s =
     (case clientWrite e (DeleteCall (PodObj pod)) s of
        (err, _, s) \<Rightarrow> (err, recordPodEvent (core e) ''delete'' sts pod err s))"

definition NewRealStatefulPodControl :: "'w k8s \<Rightarrow> 'w statefulPodControlInterface" where
  "NewRealStatefulPodControl e =
     \<lparr>CreateStatefulPod = spc_CreateStatefulPod e,
      UpdateStatefulPod = spc_UpdateStatefulPod e,
      InPlaceUpdateStatefulPod = spc_InPlaceUpdateStatefulPod e,
      UpdateStatefulPodCondition = spc_UpdateStatefulPodCondition e,
      DeleteStatefulPod = spc_DeleteStatefulPod e\<rparr>"

section \<open>The contract\<close>

fun isUpdate :: "podOp \<Rightarrow> bool" where "isUpdate (PodUpdate k) = True" | "isUpdate _ = False"
fun isStatusUpdate :: "podOp \<Rightarrow> bool" where "isStatusUpdate (PodStatus k) = True" | "isStatusUpdate _ = False"

text \<open>\<open>writes P s s'\<close>: the pods written satisfy \<open>P\<close> and the expectations are untouched.\<close>

definition writes :: "(podOp \<Rightarrow> bool) \<Rightarrow> 'w sys \<Rightarrow> 'w sys \<Rightarrow> bool" where
  "writes P s s' \<longleftrightarrow> (\<exists>ops. does s ops s' \<and> list_all P ops)"

lemma writes_refl [simp, intro]: "writes P s s"
  by (auto simp: writes_def intro!: exI [of _ "[]"])

lemma writes_does: "does s ops s' \<Longrightarrow> list_all P ops \<Longrightarrow> writes P s s'"
  by (auto simp: writes_def)

lemma writes_trans: "writes P s s' \<Longrightarrow> writes P s' s'' \<Longrightarrow> writes P s s''"
  unfolding writes_def by (metis does_trans list_all_append)

lemma writes_getAs: "writes P s s' \<Longrightarrow> getAs dec e k key s' = (x, s'') \<Longrightarrow> writes P s s''"
  by (erule writes_trans, rule writes_does [OF does_getAs]) simp_all

lemma writes_recordEvent [simp]: "writes P s (recordEvent ty re msg s') = writes P s s'"
  by (simp add: writes_def)

locale stateful_pod_control =
  fixes pc :: "'w statefulPodControlInterface"
  assumes create_does: "CreateStatefulPod pc sts p s = Some (err, p', s') \<Longrightarrow>
          does s [PodCreate (podKey p)] s' \<or> err \<noteq> None \<and> does s [] s'"
    and update_writes: "UpdateStatefulPod pc sts p s = Some (err, p', s') \<Longrightarrow> writes isUpdate s s'"
    and update_consistent: "identityMatches sts p \<Longrightarrow> storageMatches sts p \<Longrightarrow>
          UpdateStatefulPod pc sts p s = Some (None, p, s)"
    and inPlace_writes: "InPlaceUpdateStatefulPod pc sts p spec s = Some (err, s') \<Longrightarrow> writes isUpdate s s'"
    and condition_writes: "UpdateStatefulPodCondition pc sts p c s = Some (err, p', s') \<Longrightarrow> writes isStatusUpdate s s'"
    and create_returns: "storageSafe sts \<Longrightarrow> \<exists>r. CreateStatefulPod pc sts p s = Some r"
    and update_returns: "storageSafe sts \<Longrightarrow> \<exists>r. UpdateStatefulPod pc sts p s = Some r"
    and condition_returns: "\<exists>err p' s'. UpdateStatefulPodCondition pc sts p c s = Some (err, p', s')"
    and delete_does: "DeleteStatefulPod pc sts p s = (err, s') \<Longrightarrow> does s [PodDelete (podKey p)] s'"

section \<open>The implementation keeps the contract\<close>

lemma does_resultEvent [simp]:
  "does s ops (resultEvent L verb a b err s') = does s ops s'"
  "writes P s (resultEvent L verb a b err s') = writes P s s'"
  by (simp_all add: resultEvent_def split: option.split)

lemma does_podEvents [simp]:
  "does s ops (recordPodEvent L verb sts p err s') = does s ops s'"
  "does s ops (recordClaimEvent L verb sts p c err s') = does s ops s'"
  "writes P s (recordPodEvent L verb sts p err s') = writes P s s'"
  by (simp_all add: recordPodEvent_def recordClaimEvent_def Let_def)

lemma createClaims_does:
  "createClaims e sts p claims errs s = (errs', s') \<Longrightarrow> does s [] s'"
proof (induction claims arbitrary: errs s)
  case Nil
  then show ?case by simp
next
  case (Cons claim claims)
  obtain got s1 where g: "getAs asPvc e PvcK (metaKey (pvc_Meta claim)) s = (got, s1)" by fastforce
  note g1 = does_getAs [OF g]
  obtain err c s2 where w: "writeAs asPvc e (CreateCall (PvcObj claim)) claim s1 = (err, c, s2)"
    by (metis prod_cases3)
  from does_writeAs [OF w] have w1: "does s1 [] s2" by simp
  from Cons.prems g w have "(\<exists>errs. createClaims e sts p claims errs s1 = (errs', s'))
      \<or> (\<exists>errs. createClaims e sts p claims errs s2 = (errs', s'))
      \<or> (\<exists>errs err. createClaims e sts p claims errs (recordClaimEvent (core e) ''create'' sts p c err s2) = (errs', s'))
      \<or> (\<exists>errs err. createClaims e sts p claims errs (recordClaimEvent (core e) ''create'' sts p claim err s1) = (errs', s'))"
    by (auto simp: Let_def split: sum.splits if_splits option.splits)
  moreover have "does s1 [] (recordClaimEvent (core e) ''create'' sts p claim err s1)" for err by simp
  moreover have "does s1 [] (recordClaimEvent (core e) ''create'' sts p c err s2)" for err using w1 by simp
  ultimately show ?case using g1 w1 Cons.IH by (meson does_nothing_trans)
qed

lemma createPersistentVolumeClaims_does:
  "createPersistentVolumeClaims e sts p s = Some (err, s') \<Longrightarrow> does s [] s'"
  by (auto simp: createPersistentVolumeClaims_def split: option.splits prod.splits dest: createClaims_does)

lemma createPersistentVolumeClaims_wf [wf_intros]:
  "storageSafe sts \<Longrightarrow> \<exists>err s'. createPersistentVolumeClaims e sts p s = Some (err, s')"
  using getPersistentVolumeClaims_wf [of sts p]
  by (auto simp: createPersistentVolumeClaims_def split: prod.splits)

lemma spc_create_does:
  assumes "spc_CreateStatefulPod e sts p s = Some (err, p', s')"
  shows "does s [PodCreate (podKey p)] s' \<or> err \<noteq> None \<and> does s [] s'"
proof -
  from assms obtain cerr s1 where c: "createPersistentVolumeClaims e sts p s = Some (cerr, s1)"
    by (auto simp: spc_CreateStatefulPod_def split: option.splits)
  note c1 = createPersistentVolumeClaims_does [OF c]
  obtain werr q s2 where w: "writeAs asPod e (CreateCall (PodObj p)) p s1 = (werr, q, s2)"
    by (metis prod_cases3)
  from does_nothing_trans [OF c1 does_writeAs [OF w]] have "does s [PodCreate (podKey p)] s2" by simp
  with assms c c1 w show ?thesis
    by (auto simp: spc_CreateStatefulPod_def split: option.splits if_splits)
qed

text \<open>A run of each closure extends what was written by writes of its own kind.\<close>

lemma updateAttempt_writes:
  assumes "updateAttempt e sts (p, q, b, a, s) = Some (err, p', q', b', a', s')"
  shows "writes isUpdate s s'"
proof -
  have claims: "does s [] s1" if "createPersistentVolumeClaims e sts r s = Some (cerr, s1)" for r cerr s1
    using that by (rule createPersistentVolumeClaims_does)
  have claims': "writes isUpdate s s1" if "createPersistentVolumeClaims e sts r s = Some (cerr, s1)" for r cerr s1
    using claims [OF that] by (auto intro: writes_does)
  have upd: "writes isUpdate s s2" if "does s [] s1" "writeAs asPod e (UpdateCall (PodObj r)) r s1 = (x, r', s2)"
    for r x r' s1 s2
    using does_nothing_trans [OF that(1) does_writeAs [OF that(2)]] by (auto intro: writes_does)
  from assms show ?thesis
    by (auto simp: updateAttempt_def Let_def bind_eq_Some_conv
        split: if_splits option.splits prod.splits sum.splits
        intro: upd writes_getAs claims' dest: claims)
qed

lemma inPlaceAttempt_writes:
  assumes "inPlaceAttempt e spec (p, s) = Some (err, p', s')"
  shows "writes isUpdate s s'"
proof -
  have upd: "writes isUpdate s s2" if "writeAs asPod e (UpdateCall (PodObj r)) r s = (x, r', s2)" for r x r' s2
    using does_writeAs [OF that] by (auto intro: writes_does)
  from assms show ?thesis
    by (auto simp: inPlaceAttempt_def split: option.splits sum.splits prod.splits intro: upd writes_getAs)
qed

lemma conditionAttempt_writes:
  assumes "conditionAttempt e c (p, q, b, s) = Some (err, p', q', b', s')"
  shows "writes isStatusUpdate s s'"
proof -
  have upd: "writes isStatusUpdate s s2" if "writeAs asPod e (StatusUpdateCall (PodObj r)) r s = (x, r', s2)"
    for r x r' s2
    using does_writeAs [OF that] by (auto intro: writes_does)
  from assms show ?thesis
    by (auto simp: conditionAttempt_def Let_def split: option.splits sum.splits prod.splits intro: upd writes_getAs)
qed

lemma conditionAttempt_returns: "\<exists>err v'. conditionAttempt e c v = Some (err, v')"
  by (cases v) (auto simp: conditionAttempt_def Let_def split: option.splits sum.splits prod.splits)

lemma updateAttempt_consistent:
  assumes "identityMatches sts p" and "storageMatches sts p"
  shows "updateAttempt e sts (p, p, True, False, s) = Some (None, p, p, True, False, s)"
  using assms by (simp add: updateAttempt_def Let_def)

lemma updateAttempt_returns:
  assumes "storageSafe sts" shows "\<exists>err v'. updateAttempt e sts v = Some (err, v')"
proof -
  obtain p q b a s where v: "v = (p, q, b, a, s)" by (metis prod_cases5)
  obtain p2 where "updateStorage (core e) sts (if identityMatches sts p then p else updateIdentity sts p) = Some p2"
    using updateStorage_wf [OF assms] by blast
  moreover obtain cerr s1 where "createPersistentVolumeClaims e sts p2 s = Some (cerr, s1)"
    using createPersistentVolumeClaims_wf [OF assms] by blast
  ultimately show ?thesis
    by (auto simp: v updateAttempt_def Let_def split: prod.splits option.splits sum.splits)
qed

interpretation rpc: stateful_pod_control "NewRealStatefulPodControl e" for e :: "'w k8s"
proof unfold_locales
  fix sts p p' spec c err and s s' :: "'w sys"
  show "CreateStatefulPod (NewRealStatefulPodControl e) sts p s = Some (err, p', s') \<Longrightarrow>
      does s [PodCreate (podKey p)] s' \<or> err \<noteq> None \<and> does s [] s'"
    by (rule spc_create_does) (simp add: NewRealStatefulPodControl_def)
  show "writes isUpdate s s'"
    if "UpdateStatefulPod (NewRealStatefulPodControl e) sts p s = Some (err, p', s')"
  proof -
    from that obtain p1 b a s1 where
      run: "RetryOnConflict (core e) (lib_DefaultBackoffSteps (core e)) (updateAttempt e sts)
        (p, p, True, False, s) = Some (err, p1, p', b, a, s1)"
      and s': "s' = (if a then recordPodEvent (core e) ''update'' sts p1 err s1 else s1)"
      by (auto simp: NewRealStatefulPodControl_def spc_UpdateStatefulPod_def split: option.splits prod.splits)
    have "(\<lambda>(p, q, b, a, t). writes isUpdate s t) (p1, p', b, a, s1)"
      using run by (rule RetryOnConflict_inv) (auto dest: updateAttempt_writes intro: writes_trans)
    with s' show ?thesis by simp
  qed
  show "UpdateStatefulPod (NewRealStatefulPodControl e) sts p s = Some (None, p, s)"
    if "identityMatches sts p" "storageMatches sts p"
    using RetryOnConflict_first [of "updateAttempt e sts" "(p, p, True, False, s)", OF updateAttempt_consistent [OF that]]
    by (simp add: NewRealStatefulPodControl_def spc_UpdateStatefulPod_def)
  show "writes isUpdate s s'"
    if "InPlaceUpdateStatefulPod (NewRealStatefulPodControl e) sts p spec s = Some (err, s')"
  proof -
    from that obtain p1 s1 where
      run: "RetryOnConflict (core e) (lib_DefaultBackoffSteps (core e)) (inPlaceAttempt e spec) (p, s)
        = Some (err, p1, s1)" and s': "s' = recordPodEvent (core e) ''InPlaceUpdate'' sts p1 err s1"
      by (auto simp: NewRealStatefulPodControl_def spc_InPlaceUpdateStatefulPod_def split: option.splits prod.splits)
    have "(\<lambda>(p, t). writes isUpdate s t) (p1, s1)"
      using run by (rule RetryOnConflict_inv) (auto dest: inPlaceAttempt_writes intro: writes_trans)
    with s' show ?thesis by simp
  qed
  show "writes isStatusUpdate s s'"
    if "UpdateStatefulPodCondition (NewRealStatefulPodControl e) sts p c s = Some (err, p', s')"
  proof -
    from that obtain p1 b s1 where
      run: "RetryOnConflict (core e) (lib_DefaultRetrySteps (core e)) (conditionAttempt e c) (p, p, True, s)
        = Some (err, p1, p', b, s1)" and s': "s' = recordPodEvent (core e) ''UpdateCondition'' sts p1 err s1"
      by (auto simp: NewRealStatefulPodControl_def spc_UpdateStatefulPodCondition_def
          split: option.splits prod.splits)
    have "(\<lambda>(p, q, b, t). writes isStatusUpdate s t) (p1, p', b, s1)"
      using run by (rule RetryOnConflict_inv) (auto dest: conditionAttempt_writes intro: writes_trans)
    with s' show ?thesis by simp
  qed
  show "\<exists>r. CreateStatefulPod (NewRealStatefulPodControl e) sts p s = Some r" if "storageSafe sts"
    using createPersistentVolumeClaims_wf [OF that, of e p s]
    by (auto simp: NewRealStatefulPodControl_def spc_CreateStatefulPod_def split: option.splits prod.splits)
  show "\<exists>r. UpdateStatefulPod (NewRealStatefulPodControl e) sts p s = Some r" if "storageSafe sts"
  proof -
    have "\<exists>err v. RetryOnConflict (core e) (lib_DefaultBackoffSteps (core e)) (updateAttempt e sts)
        (p, p, True, False, s) = Some (err, v)"
      by (rule RetryOnConflict_returns [where I = "\<lambda>_. True"])
        (simp_all only: simp_thms updateAttempt_returns [OF that])
    then show ?thesis
      by (fastforce simp: NewRealStatefulPodControl_def spc_UpdateStatefulPod_def)
  qed
  show "\<exists>err p' s'. UpdateStatefulPodCondition (NewRealStatefulPodControl e) sts p c s = Some (err, p', s')"
  proof -
    have "\<exists>err v. RetryOnConflict (core e) (lib_DefaultRetrySteps (core e)) (conditionAttempt e c)
        (p, p, True, s) = Some (err, v)"
      by (rule RetryOnConflict_returns [where I = "\<lambda>_. True"]) (simp_all only: simp_thms conditionAttempt_returns)
    then show ?thesis
      by (fastforce simp: NewRealStatefulPodControl_def spc_UpdateStatefulPodCondition_def)
  qed
  show "DeleteStatefulPod (NewRealStatefulPodControl e) sts p s = (err, s') \<Longrightarrow> does s [PodDelete (podKey p)] s'"
    by (auto simp: NewRealStatefulPodControl_def spc_DeleteStatefulPod_def split: prod.splits
        dest: does_clientWrite)
qed

section \<open>Volume claims come first\<close>

text \<open>In the calls \<open>cs\<close> the claim was seen to exist, or was created.\<close>

definition claimReady :: "(call \<times> reply) list \<Rightarrow> persistentVolumeClaim \<Rightarrow> bool" where
  "claimReady cs c \<longleftrightarrow>
     (\<exists>y. (GetCall PvcK (metaKey (pvc_Meta c)), Got y) \<in> List.set cs)
     \<or> (\<exists>r. (CreateCall (PvcObj c), r) \<in> List.set cs \<and> (\<forall>x. r \<noteq> Fail x))"

lemma claimReady_mono: "claimReady cs c \<Longrightarrow> List.set cs \<subseteq> List.set cs' \<Longrightarrow> claimReady cs' c"
  unfolding claimReady_def by blast

lemma issues_claimEvent [simp]:
  "issues (recordClaimEvent L verb sts p c err s) cs s' = issues s cs s'"
  by (simp add: recordClaimEvent_def resultEvent_def Let_def split: option.split)

lemma issues_podEvent [simp]:
  "issues s cs (recordPodEvent L verb sts p err s') = issues s cs s'"
  by (simp add: recordPodEvent_def resultEvent_def Let_def split: option.split)

lemma createClaims_ready:
  "createClaims e sts p claims errs s = ([], s') \<Longrightarrow>
     errs = [] \<and> (\<exists>cs. issues s cs s' \<and> (\<forall>c \<in> List.set claims. claimReady cs c))"
proof (induction claims arbitrary: errs s)
  case Nil
  then show ?case by auto
next
  case (Cons claim claims)
  obtain got s1 where g: "getAs asPvc e PvcK (metaKey (pvc_Meta claim)) s = (got, s1)" by fastforce
  obtain err c s2 where w: "writeAs asPvc e (CreateCall (PvcObj claim)) claim s1 = (err, c, s2)"
    by (metis prod_cases3)
  have step: ?case if "issues s cs0 t" "claimReady cs0 claim" "createClaims e sts p claims [] t = ([], s')" "errs = []"
    for cs0 t
  proof -
    from Cons.IH [OF that(3)] obtain cs where cs: "issues t cs s'" "\<forall>c \<in> List.set claims. claimReady cs c" by blast
    from issues_trans [OF that(1) cs(1)] have "issues s (cs0 @ cs) s'" .
    moreover have "\<forall>c \<in> List.set (claim # claims). claimReady (cs0 @ cs) c"
      using that(2) cs(2) by (auto intro: claimReady_mono)
    ultimately show ?thesis using that(4) by blast
  qed
  have no: "createClaims e sts p claims (xs @ [x]) t = ([], s') \<Longrightarrow> False" for xs x t
    using Cons.IH [of "xs @ [x]" t] by simp
  show ?case
  proof (cases got)
    case (Inr y)
    with Cons.prems g have r: "createClaims e sts p claims errs s1 = ([], s')" by simp
    with Cons.IH have "errs = []" by blast
    moreover from g Inr obtain z where "issues s [(GetCall PvcK (metaKey (pvc_Meta claim)), Got z)] s1"
      by (auto dest: getAs_Got)
    ultimately show ?thesis using r by (intro step) (auto simp: claimReady_def)
  next
    case (Inl x)
    with Cons.prems g no have x: "x = NotFound" by (auto split: if_splits)
    have e: "err = None"
      using Cons.prems g Inl x w by (auto simp: Let_def IsAlreadyExists_def split: option.splits if_splits dest: no)
    define t where "t = recordClaimEvent (core e) ''create'' sts p c None s2"
    from Cons.prems g Inl x w e have r: "createClaims e sts p claims errs t = ([], s')"
      by (simp add: Let_def IsAlreadyExists_def t_def)
    with Cons.IH have "errs = []" by blast
    moreover from getAs_issues [OF g] obtain r1 where "issues s [(GetCall PvcK (metaKey (pvc_Meta claim)), r1)] s1" by blast
    moreover from w e obtain r2 where "issues s1 [(CreateCall (PvcObj claim), r2)] s2" "\<forall>x. r2 \<noteq> Fail x"
      by (auto dest: writeAs_ok)
    ultimately show ?thesis using r
      by (intro step [of "[(GetCall PvcK (metaKey (pvc_Meta claim)), r1), (CreateCall (PvcObj claim), r2)]" t])
        (auto simp: claimReady_def issues_def t_def recordClaimEvent_def resultEvent_def Let_def recordEvent_def)
  qed
qed

lemma CreateStatefulPod_claims_first:
  assumes "ranges_all (core e)" and "spc_CreateStatefulPod e sts p s = Some (err, p', s')"
    and "issues s cs s'" and "podWrites cs \<noteq> []"
  shows "\<exists>claims cs0 r. getPersistentVolumeClaims sts p = Some claims \<and> cs = cs0 @ [(CreateCall (PodObj p), r)]
    \<and> podWrites cs0 = [] \<and> (\<forall>c \<in> snd ` List.set claims. claimReady cs0 c)"
proof -
  from assms(2) obtain claims cerr s1 where c: "getPersistentVolumeClaims sts p = Some claims"
    "createPersistentVolumeClaims e sts p s = Some (cerr, s1)"
    by (auto simp: spc_CreateStatefulPod_def createPersistentVolumeClaims_def split: option.splits prod.splits)
  from createPersistentVolumeClaims_does [OF c(2)] obtain cs1 where cs1: "issues s cs1 s1" "podWrites cs1 = []"
    by (auto simp: does_def podSteps_def)
  show ?thesis
  proof (cases cerr)
    case (Some x)
    with assms(2) c have "s' = recordPodEvent (core e) ''create'' sts p (Some x) s1"
      by (auto simp: spc_CreateStatefulPod_def)
    with assms(3) cs1 have "cs = cs1" by (auto intro: issues_det)
    with cs1 assms(4) show ?thesis by simp
  next
    case None
    with c have "createClaims e sts p (map snd (lib_RangeClaims (core e) claims)) [] s = ([], s1)"
      by (auto simp: createPersistentVolumeClaims_def split: prod.splits if_splits)
    from createClaims_ready [OF this] obtain cs2 where
      cs2: "issues s cs2 s1" "\<forall>c \<in> snd ` List.set claims. claimReady cs2 c"
      using assms(1) by (auto simp: ranges_all_set)
    with cs1 have same: "cs2 = cs1" by (auto intro: issues_det)
    obtain werr q s2 where w: "writeAs asPod e (CreateCall (PodObj p)) p s1 = (werr, q, s2)" by (metis prod_cases3)
    from writeAs_issues [OF w] obtain r where r: "issues s1 [(CreateCall (PodObj p), r)] s2" by blast
    from assms(2) c None w have "issues s0 cs s' = issues s0 cs s2" for s0 cs
      by (auto simp: spc_CreateStatefulPod_def split: if_splits)
    with assms(3) issues_trans [OF cs1(1) r] have "cs = cs1 @ [(CreateCall (PodObj p), r)]"
      by (auto intro: issues_det)
    with c cs1 cs2 same show ?thesis by blast
  qed
qed

section \<open>The caller's pod after a condition update\<close>

text \<open>
  A successful update of the status subresource answers with the same object: its key is the one of the
  request, and so are its labels, which the subresource does not change (a concurrent change of them is a
  conflict).
\<close>

definition status_keeps_identity :: "'w k8s \<Rightarrow> bool" where
  "status_keeps_identity e \<longleftrightarrow>
     (\<forall>p w p'. fst (api e (StatusUpdateCall (PodObj p)) w) = Got (PodObj p') \<longrightarrow>
        podKey p' = podKey p \<and> podLabels p' = podLabels p)"

definition sameIdentity :: "pod \<Rightarrow> pod \<Rightarrow> bool" where
  "sameIdentity p q \<longleftrightarrow> podKey q = podKey p \<and> getPodRevision q = getPodRevision p"

lemma sameIdentity_refl [simp, intro]: "sameIdentity p p"
  by (simp add: sameIdentity_def)

lemma writeAs_status_identity:
  assumes "status_keeps_identity e" and "writeAs asPod e (StatusUpdateCall (PodObj p)) p s = (err, p', s')"
  shows "podKey p' = podKey p \<and> podLabels p' = podLabels p"
proof -
  obtain r w where r: "api e (StatusUpdateCall (PodObj p)) (world s) = (r, w)" by fastforce
  have keep: "podKey q = podKey p \<and> podLabels q = podLabels p" if "r = Got (PodObj q)" for q
    using assms(1) r that unfolding status_keeps_identity_def by (metis fst_conv)
  show ?thesis
  proof (cases "\<exists>q. r = Got (PodObj q)")
    case True
    then obtain q where q: "r = Got (PodObj q)" ..
    with assms(2) r have "p' = q" by (simp add: writeAs_def clientWrite_def request_def)
    with keep q show ?thesis by simp
  next
    case False
    with assms(2) r have "p' = p"
      by (auto simp: writeAs_def clientWrite_def request_def badKind_def split: reply.splits option.splits sum.splits
          elim!: asPod.elims)
    then show ?thesis by simp
  qed
qed

lemma conditionAttempt_identity:
  assumes "status_keeps_identity e" and "conditionAttempt e c (p, q, b, s) = Some (err, p', q', b', s')"
    and "b \<Longrightarrow> p = q"
  shows "podKey q' = podKey q \<and> podLabels q' = podLabels q \<and> (b' \<longrightarrow> p' = q')"
proof -
  define p1 where "p1 = updatePodCondition p c"
  obtain werr p2 s1 where w: "writeAs asPod e (StatusUpdateCall (PodObj p1)) p1 s = (werr, p2, s1)"
    by (metis prod_cases3)
  from writeAs_status_identity [OF assms(1) w] have id: "podKey p2 = podKey p" "podLabels p2 = podLabels p"
    by (simp_all add: p1_def)
  have "werr \<noteq> None \<Longrightarrow> p2 = p1"
    using w by (auto simp: writeAs_def clientWrite_def split: prod.splits reply.splits)
  with assms(2,3) w id show ?thesis
    by (auto simp: conditionAttempt_def p1_def [symmetric] Let_def split: option.splits sum.splits prod.splits)
      (auto simp: p1_def)
qed

lemma UpdateStatefulPodCondition_identity:
  assumes "status_keeps_identity e"
    and "UpdateStatefulPodCondition (NewRealStatefulPodControl e) sts p c s = Some (err, p', s')"
  shows "sameIdentity p p'"
proof -
  from assms(2) obtain p1 b s1 where
    run: "RetryOnConflict (core e) (lib_DefaultRetrySteps (core e)) (conditionAttempt e c) (p, p, True, s)
      = Some (err, p1, p', b, s1)"
    by (auto simp: NewRealStatefulPodControl_def spc_UpdateStatefulPodCondition_def
        split: option.splits prod.splits)
  have "(\<lambda>(x, q, b, t). podKey q = podKey p \<and> podLabels q = podLabels p \<and> (b \<longrightarrow> x = q)) (p1, p', b, s1)"
    using run by (rule RetryOnConflict_inv) (auto dest!: conditionAttempt_identity [OF assms(1)])
  then show ?thesis by (auto simp: sameIdentity_def getPodRevision_meta metaRevision_def)
qed

section \<open>Properties\<close>

text \<open>
  C20. \<open>CreateStatefulPod\<close> sends the pod only after all its volume claims: if the calls it issues write a pod at all,
  they end with one creation of exactly the given pod, and before it every claim of the pod was found or its creation
  accepted by the API server.
\<close>

theorem claims_before_pod:
  assumes "ranges_all (core e)" and "spc_CreateStatefulPod e sts p s = Some (err, p', s')"
    and "issues s cs s'" and "podWrites cs \<noteq> []"
  shows "\<exists>claims cs0 r. getPersistentVolumeClaims sts p = Some claims \<and> cs = cs0 @ [(CreateCall (PodObj p), r)]
    \<and> podWrites cs0 = [] \<and> (\<forall>c \<in> snd ` List.set claims. claimReady cs0 c)"
  using assms by (rule CreateStatefulPod_claims_first)

definition createSample :: "(error option \<times> podOp list) option" where
  "createSample = map_option (\<lambda>(err, p, s). (err, podWrites (trace s)))
     (spc_CreateStatefulPod (sampleEnv webSet) webSet (samplePod ''web-0'' ''r1'' []) sampleSys)"

lemma sample_create: "createSample = Some (None, [PodCreate \<lparr>key_Namespace = ''ns'', key_Name = ''web-0''\<rparr>])"
  by code_simp

theorem claims_before_pod_witness:
  "\<exists>claims cs0. getPersistentVolumeClaims webSet (samplePod ''web-0'' ''r1'' []) = Some claims
    \<and> (\<forall>c \<in> snd ` List.set claims. claimReady cs0 c)"
proof -
  from sample_create obtain p' s' where run: "spc_CreateStatefulPod (sampleEnv webSet) webSet
      (samplePod ''web-0'' ''r1'' []) sampleSys = Some (None, p', s')" and w: "podWrites (trace s') \<noteq> []"
    by (auto simp: createSample_def)
  have "issues sampleSys (trace s') s'" by (simp add: issues_def sampleSys_def)
  from claims_before_pod [OF sample_ranges_all run this w] show ?thesis by blast
qed

end
