(* ===== verification/SetStatus.thy ===== *)
theory SetStatus
  imports Identity
begin

text \<open>
  The status of a StatefulSet: its conditions and its completion (\<^verbatim>\<open>stateful_set_utils.go\<close>, last part) and
  \<^verbatim>\<open>stateful_set_status_updater.go\<close>. The Go interface \<^verbatim>\<open>StatusUpdaterInterface\<close> has one method, so a value of
  it is that function; its contract is the locale \<open>status_updater\<close>.
\<close>

section \<open>Comparing and completing\<close>

definition inconsistentStatus :: "statefulSet \<Rightarrow> statefulSetStatus \<Rightarrow> bool" where
  "inconsistentStatus sts status =
     (let old = set_Status sts
      in sint (ObservedGeneration old) < sint (ObservedGeneration status)
         \<or> st_Replicas status \<noteq> st_Replicas old
         \<or> CurrentReplicas status \<noteq> CurrentReplicas old
         \<or> ReadyReplicas status \<noteq> ReadyReplicas old
         \<or> UpdatedReplicas status \<noteq> UpdatedReplicas old
         \<or> CurrentRevision status \<noteq> CurrentRevision old
         \<or> UpdateRevision status \<noteq> UpdateRevision old)"

definition completeRollingUpdate :: "statefulSet \<Rightarrow> statefulSetStatus \<Rightarrow> statefulSetStatus option" where
  "completeRollingUpdate sts status =
     (case UpdateStrategy (set_Spec sts) of
        None \<Rightarrow> None
      | Some us \<Rightarrow>
          Some (if us_Type us = RollingUpdateStatefulSetStrategyType
                   \<and> UpdatedReplicas status = st_Replicas status
                   \<and> ReadyReplicas status = st_Replicas status
                then status\<lparr>CurrentReplicas := UpdatedReplicas status, CurrentRevision := UpdateRevision status\<rparr>
                else status))"

section \<open>Conditions\<close>

definition NewStatefulsetCondition ::
  "'w k8s \<Rightarrow> string \<Rightarrow> string \<Rightarrow> string \<Rightarrow> string \<Rightarrow> 'w sys \<Rightarrow> statefulSetCondition" where
  "NewStatefulsetCondition e conditionType conditionStatus reason message s =
     \<lparr>sc_Type = conditionType, sc_Status = conditionStatus, LastTransitionTime = clock e (world s),
      sc_Reason = reason, sc_Message = message\<rparr>"

fun findCondition :: "statefulSetCondition list \<Rightarrow> string \<Rightarrow> statefulSetCondition option" where
  "findCondition [] ty = None"
| "findCondition (c # cs) ty = (if sc_Type c = ty then Some c else findCondition cs ty)"

definition GetStatefulsetConditition :: "statefulSetStatus \<Rightarrow> string \<Rightarrow> statefulSetCondition option" where
  "GetStatefulsetConditition status condType = findCondition (st_Conditions status) condType"

definition filterOutCondition :: "statefulSetCondition list \<Rightarrow> string \<Rightarrow> statefulSetCondition list" where
  "filterOutCondition conditions condType = filter (\<lambda>c. sc_Type c \<noteq> condType) conditions"

definition SetStatefulsetCondition :: "statefulSetStatus \<Rightarrow> statefulSetCondition \<Rightarrow> statefulSetStatus" where
  "SetStatefulsetCondition status condition =
     (case GetStatefulsetConditition status (sc_Type condition) of
        None \<Rightarrow> status\<lparr>st_Conditions := filterOutCondition (st_Conditions status) (sc_Type condition) @ [condition]\<rparr>
      | Some cur \<Rightarrow>
          if sc_Status cur = sc_Status condition \<and> sc_Reason cur = sc_Reason condition then status
          else
            let condition = (if sc_Status cur = sc_Status condition
                  then condition\<lparr>LastTransitionTime := LastTransitionTime cur\<rparr> else condition)
            in status\<lparr>st_Conditions := filterOutCondition (st_Conditions status) (sc_Type condition) @ [condition]\<rparr>)"

section \<open>The status updater\<close>

type_synonym 'w statusUpdaterInterface =
  "statefulSet \<Rightarrow> statefulSetStatus \<Rightarrow> 'w sys \<Rightarrow> (error option \<times> 'w sys) option"

definition statusAttempt ::
  "'w k8s \<Rightarrow> statefulSetStatus \<Rightarrow> (statefulSet \<times> 'w sys) \<Rightarrow> (error option \<times> statefulSet \<times> 'w sys) option" where
  "statusAttempt e status v =
     (case v of (sts, s) \<Rightarrow>
        let sts = sts\<lparr>set_Status := status\<rparr>
        in case writeAs asSet e (StatusUpdateCall (SetObj sts)) sts s of
             (Some updateErr, sts, s) \<Rightarrow> Some (Some updateErr, sts, s)
           | (None, sts, s) \<Rightarrow>
               (case getAs asSet e SetK (metaKey (set_Meta sts)) s of
                  (Inr updated, s) \<Rightarrow> Some (None, updated, s)
                | (Inl err, s) \<Rightarrow> Some (None, sts, s)))"

definition UpdateStatefulSetStatus :: "'w k8s \<Rightarrow> 'w statusUpdaterInterface" where
  "UpdateStatefulSetStatus e sts status s =
     (case RetryOnConflict (core e) (lib_DefaultRetrySteps (core e)) (statusAttempt e status) (sts, s) of
        None \<Rightarrow> None
      | Some (err, sts, s) \<Rightarrow> Some (err, s))"

text \<open>
  What a client relies on: the updater returns, it issues only status updates of the set and reads, and when
  it reports success the last status it sent, which the server accepted, is the given one.
\<close>

fun statusCall :: "statefulSetStatus \<Rightarrow> call \<Rightarrow> bool" where
  "statusCall st (StatusUpdateCall (SetObj x)) = (set_Status x = st)"
| "statusCall st c = isRead c"

definition statusSent :: "statefulSetStatus \<Rightarrow> (call \<times> reply) list \<Rightarrow> bool" where
  "statusSent st cs \<longleftrightarrow> (\<exists>x r. (StatusUpdateCall (SetObj x), r) \<in> List.set cs \<and> set_Status x = st \<and> (\<forall>y. r \<noteq> Fail y))"

locale status_updater =
  fixes upd :: "'w statusUpdaterInterface"
  assumes upd_returns: "\<exists>err s'. upd sts st s = Some (err, s')"
    and upd_does: "upd sts st s = Some (err, s') \<Longrightarrow> does s [] s'"
    and upd_calls: "upd sts st s = Some (err, s') \<Longrightarrow> onlyCalls (statusCall st) s s'"
    and upd_sent: "upd sts st s = Some (None, s') \<Longrightarrow> \<exists>cs. issues s cs s' \<and> statusSent st cs"

lemma statusAttempt_returns: "\<exists>err v'. statusAttempt e st v = Some (err, v')"
  by (cases v) (auto simp: statusAttempt_def Let_def split: option.splits sum.splits prod.splits)

lemma statusAttempt_step:
  assumes "statusAttempt e st (x, s) = Some (err, x', s')"
  shows "\<exists>cs. issues s cs s' \<and> expectations s' = expectations s \<and> list_all (statusCall st \<circ> fst) cs
    \<and> podWrites cs = [] \<and> (err = None \<longrightarrow> statusSent st cs)"
proof -
  define y where "y = x\<lparr>set_Status := st\<rparr>"
  obtain werr y1 s1 where w: "writeAs asSet e (StatusUpdateCall (SetObj y)) y s = (werr, y1, s1)"
    by (metis prod_cases3)
  obtain got s2 where g: "getAs asSet e SetK (metaKey (set_Meta y1)) s1 = (got, s2)" by fastforce
  from writeAs_issues [OF w] obtain r where r: "issues s [(StatusUpdateCall (SetObj y), r)] s1"
    and e1: "expectations s1 = expectations s" by blast
  have ok: "werr = None \<Longrightarrow> \<forall>z. r \<noteq> Fail z"
    using w r by (auto dest!: writeAs_ok dest: issues_det)
  from getAs_issues [OF g] obtain r2 where r2: "issues s1 [(GetCall SetK (metaKey (set_Meta y1)), r2)] s2"
    and e2: "expectations s2 = expectations s1" by blast
  show ?thesis
  proof (cases werr)
    case None
    with assms w g have "s' = s2" by (auto simp: statusAttempt_def y_def Let_def split: sum.splits)
    with issues_trans [OF r r2] e1 e2 ok None show ?thesis
      by (intro exI) (auto simp: y_def statusSent_def)
  next
    case (Some z)
    with assms w have "s' = s1" "err \<noteq> None" by (auto simp: statusAttempt_def y_def Let_def)
    with r e1 show ?thesis by (intro exI) (auto simp: y_def)
  qed
qed

interpretation rsu: status_updater "UpdateStatefulSetStatus e" for e :: "'w k8s"
proof -
  have run: "(\<exists>cs. issues s cs s' \<and> list_all (statusCall st \<circ> fst) cs) \<and> does s [] s'
      \<and> (err = None \<longrightarrow> (\<exists>cs. issues s cs s' \<and> statusSent st cs))"
    if "UpdateStatefulSetStatus e sts st s = Some (err, s')" for sts st and s s' :: "'w sys" and err
  proof -
    from that obtain x where
      run: "RetryOnConflict (core e) (lib_DefaultRetrySteps (core e)) (statusAttempt e st) (sts, s) = Some (err, x, s')"
      by (auto simp: UpdateStatefulSetStatus_def split: option.splits)
    let ?I = "\<lambda>(x, t). \<exists>cs. issues s cs t \<and> expectations t = expectations s
        \<and> list_all (statusCall st \<circ> fst) cs \<and> podWrites cs = []"
    have step: "?I (x', t') \<and> (err = None \<longrightarrow> (\<exists>cs. issues s cs t' \<and> statusSent st cs))"
      if I: "?I (x, t)" and at: "statusAttempt e st (x, t) = Some (err, x', t')" for x t err x' t'
    proof -
      from I obtain cs where cs: "issues s cs t" "expectations t = expectations s"
        "list_all (statusCall st \<circ> fst) cs" "podWrites cs = []" by auto
      from statusAttempt_step [OF at] obtain cs' where cs': "issues t cs' t'" "expectations t' = expectations t"
        "list_all (statusCall st \<circ> fst) cs'" "podWrites cs' = []" "err = None \<longrightarrow> statusSent st cs'" by blast
      from issues_trans [OF cs(1) cs'(1)] have i: "issues s (cs @ cs') t'" .
      moreover from cs'(5) have "err = None \<longrightarrow> statusSent st (cs @ cs')" unfolding statusSent_def by auto
      ultimately show ?thesis using cs cs' by auto
    qed
    obtain v where "?I v" "statusAttempt e st v = Some (err, x, s')"
    proof (rule RetryOnConflict_last [OF run, of ?I])
      show "?I (sts, s)" by auto
      show "?I v'" if "?I v" "statusAttempt e st v = Some (er, v')" for v er v'
        using that step by (cases v, cases v') blast
    qed
    with step show ?thesis by (cases v) (fastforce simp: does_def podSteps_def)
  qed
  show "status_updater (UpdateStatefulSetStatus e)"
  proof
    fix sts st err and s s' :: "'w sys"
    have "\<exists>err v. RetryOnConflict (core e) (lib_DefaultRetrySteps (core e)) (statusAttempt e st) (sts, s) = Some (err, v)"
      by (rule RetryOnConflict_returns [where I = "\<lambda>_. True"]) (simp_all only: simp_thms statusAttempt_returns)
    then show "\<exists>err s'. UpdateStatefulSetStatus e sts st s = Some (err, s')"
      by (fastforce simp: UpdateStatefulSetStatus_def)
  qed (use run in \<open>auto simp: onlyCalls_def\<close>)
qed

section \<open>Facts: conditions\<close>

lemma findCondition_filterOut [simp]:
  "findCondition (filterOutCondition cs ty) ty' = (if ty' = ty then None else findCondition cs ty')"
  by (induction cs) (auto simp: filterOutCondition_def)

lemma findCondition_append:
  "findCondition (xs @ ys) ty = (case findCondition xs ty of None \<Rightarrow> findCondition ys ty | Some c \<Rightarrow> Some c)"
  by (induction xs) auto

lemma findCondition_type: "findCondition cs ty = Some c \<Longrightarrow> sc_Type c = ty"
  by (induction cs) (auto split: if_splits)

lemma distinct_filterOut:
  assumes "distinct (map sc_Type cs)" and "sc_Type c = ty"
  shows "distinct (map sc_Type (filterOutCondition cs ty @ [c]))"
  using assms by (auto simp: filterOutCondition_def distinct_map_filter)

section \<open>Properties\<close>

text \<open>
  The conditions of a status stay unique by type. Setting a condition leaves the other types alone and gives its
  type the new status and reason; its transition time is the old one when the status did not change.
\<close>

theorem condition_unique:
  assumes "distinct (map sc_Type (st_Conditions st))"
  shows "distinct (map sc_Type (st_Conditions (SetStatefulsetCondition st c)))
    \<and> GetStatefulsetConditition (SetStatefulsetCondition st c) ty =
        (if ty \<noteq> sc_Type c then GetStatefulsetConditition st ty
         else (case GetStatefulsetConditition st ty of
                 None \<Rightarrow> Some c
               | Some cur \<Rightarrow>
                   if sc_Status cur \<noteq> sc_Status c then Some c
                   else if sc_Reason cur = sc_Reason c then Some cur
                   else Some (c\<lparr>LastTransitionTime := LastTransitionTime cur\<rparr>)))"
proof -
  let ?set = "st_Conditions (SetStatefulsetCondition st c)"
  have "?set = st_Conditions st \<or> (\<exists>t. ?set = filterOutCondition (st_Conditions st) (sc_Type c) @ [c\<lparr>LastTransitionTime := t\<rparr>])"
    by (auto simp: SetStatefulsetCondition_def Let_def split: option.splits intro: exI [of _ "LastTransitionTime c"])
  with distinct_filterOut [OF assms] assms have "distinct (map sc_Type ?set)" by fastforce
  then show ?thesis
    by (simp add: SetStatefulsetCondition_def GetStatefulsetConditition_def Let_def findCondition_append
        split: option.splits)
qed

definition failedCreate :: "string \<Rightarrow> int \<Rightarrow> statefulSetCondition" where
  "failedCreate status time = \<lparr>sc_Type = FailedCreatePod, sc_Status = status, LastTransitionTime = time,
     sc_Reason = [], sc_Message = []\<rparr>"

theorem condition_unique_witness:
  "GetStatefulsetConditition (SetStatefulsetCondition (sampleStatus\<lparr>st_Conditions := [failedCreate ''True'' 3]\<rparr>)
     (failedCreate ''True'' 9)) FailedCreatePod = Some (failedCreate ''True'' 3)"
  using condition_unique [of "sampleStatus\<lparr>st_Conditions := [failedCreate ''True'' 3]\<rparr>" "failedCreate ''True'' 9" FailedCreatePod]
  by (simp add: failedCreate_def GetStatefulsetConditition_def)

text \<open>
  C26. \<open>UpdateStatefulSetStatus\<close> returns for every behaviour of the API server, conflicts that never end included. It
  sends nothing but status updates with the given status, and reads; when it reports success the server has accepted
  one of them.
\<close>

theorem status_update_sent:
  "\<exists>err s'. UpdateStatefulSetStatus e sts st s = Some (err, s') \<and> onlyCalls (statusCall st) s s'
     \<and> (case err of Some _ \<Rightarrow> True | None \<Rightarrow> \<exists>cs. issues s cs s' \<and> statusSent st cs)"
proof -
  from rsu.upd_returns obtain err s' where run: "UpdateStatefulSetStatus e sts st s = Some (err, s')" by blast
  from run rsu.upd_calls [OF run] rsu.upd_sent [of e sts st s s'] show ?thesis by (cases err) auto
qed

end
