(* ===== verification/SetControl.thy ===== *)
theory SetControl
  imports Revisions PodControl SetStatus
begin

text \<open>
  \<^verbatim>\<open>controllers/stateful_set_control.go\<close>: the control loop of a StatefulSet. \<open>updateStatefulSet\<close> is one Go
  function of 350 lines; here it is the composition of its phases, in the order of the code:
  classifying the pods, filling the gaps, finding the first unhealthy pod, the loop over the replicas, the
  loop over the condemned pods, the guards of the update, and the update loop. A piece of it ends with a
  \<open>flow\<close>: the function returns there, or goes on. Pods are passed by pointer in the source, so a piece
  gives back the pods it was handed as they are after it.
\<close>

section \<open>Locals of the update\<close>

record rollout =
  ro_set :: statefulSet
  ro_currentSet :: statefulSet
  ro_updateSet :: statefulSet
  ro_currentRevision :: controllerRevision
  ro_updateRevision :: controllerRevision
  ro_revisions :: "controllerRevision list"

abbreviation currentName :: "rollout \<Rightarrow> string" where "currentName u \<equiv> revName (ro_currentRevision u)"
abbreviation updateName :: "rollout \<Rightarrow> string" where "updateName u \<equiv> revName (ro_updateRevision u)"

definition monotonic :: "rollout \<Rightarrow> bool" where
  "monotonic u \<longleftrightarrow> \<not> allowsBurst (ro_set u)"

text \<open>How a piece of the function ends: by falling through to what follows, or by \<^verbatim>\<open>return &status, err\<close>.\<close>

datatype flow = Next | Return "error option"

section \<open>Classifying the pods\<close>

definition initialStatus :: "statefulSet \<Rightarrow> string \<Rightarrow> string \<Rightarrow> int32 \<Rightarrow> statefulSetStatus" where
  "initialStatus sts current update collisionCount =
     \<lparr>ObservedGeneration = Generation (set_Meta sts), st_Replicas = 0, ReadyReplicas = 0, CurrentReplicas = 0,
      UpdatedReplicas = 0, CurrentRevision = current, UpdateRevision = update,
      CollisionCount = Some collisionCount, st_Conditions = []\<rparr>"

definition addRevisionCount :: "int32 \<Rightarrow> string \<Rightarrow> string \<Rightarrow> pod \<Rightarrow> statefulSetStatus \<Rightarrow> statefulSetStatus" where
  \<comment> \<open>the pair of \<open>if getPodRevision(...) == ...\<close> statements that the code repeats, with the increment\<close>
  "addRevisionCount d current update pod st =
     (let st = (if getPodRevision pod = current then st\<lparr>CurrentReplicas := CurrentReplicas st + d\<rparr> else st)
      in if getPodRevision pod = update then st\<lparr>UpdatedReplicas := UpdatedReplicas st + d\<rparr> else st)"

definition countPod :: "coreLib \<Rightarrow> string \<Rightarrow> string \<Rightarrow> pod \<Rightarrow> statefulSetStatus \<Rightarrow> statefulSetStatus" where
  "countPod L current update pod st =
     (let st = st\<lparr>st_Replicas := st_Replicas st + 1\<rparr>;
          st = (if isRunningAndReady L pod then st\<lparr>ReadyReplicas := ReadyReplicas st + 1\<rparr> else st)
      in if isCreated pod \<and> \<not> isTerminating pod then addRevisionCount 1 current update pod st else st)"

definition placePod :: "int \<Rightarrow> pod \<Rightarrow> pod option list \<times> pod list \<Rightarrow> pod option list \<times> pod list" where
  "placePod replicaCount pod rc =
     (let ord = getOrdinal pod
      in if 0 \<le> ord \<and> ord < replicaCount then ((fst rc)[nat ord := Some pod], snd rc)
         else if replicaCount \<le> ord then (fst rc, snd rc @ [pod])
         else rc)"

fun partitionPods ::
  "coreLib \<Rightarrow> string \<Rightarrow> string \<Rightarrow> int \<Rightarrow> pod list \<Rightarrow> statefulSetStatus \<Rightarrow> pod option list \<times> pod list
     \<Rightarrow> statefulSetStatus \<times> pod option list \<times> pod list" where
  "partitionPods L current update n [] st rc = (st, rc)"
| "partitionPods L current update n (p # ps) st rc =
     partitionPods L current update n ps (countPod L current update p st) (placePod n p rc)"

fun fillReplicas :: "'w k8s \<Rightarrow> rollout \<Rightarrow> nat \<Rightarrow> pod option list \<Rightarrow> pod list option" where
  "fillReplicas e u i [] = Some []"
| "fillReplicas e u i (r # rs) =
     do {
       p \<leftarrow> (case r of
               Some p \<Rightarrow> Some p
             | None \<Rightarrow> newVersionedStatefulSetPod e (ro_currentSet u) (ro_updateSet u)
                         (currentName u) (updateName u) (int i));
       ps \<leftarrow> fillReplicas e u (Suc i) rs;
       Some (p # ps)
     }"

text \<open>
  \<^verbatim>\<open>firstUnhealthyPod\<close> is a pointer that is later compared with the condemned pods. The pods of the two
  slices are different objects, so a position names the object.
\<close>

datatype podRef = InReplicas nat | InCondemned nat

fun scanUnhealthy ::
  "coreLib \<Rightarrow> (nat \<Rightarrow> podRef) \<Rightarrow> nat \<Rightarrow> pod list \<Rightarrow> nat \<times> int \<times> podRef option \<Rightarrow> nat \<times> int \<times> podRef option" where
  "scanUnhealthy L ref i [] acc = acc"
| "scanUnhealthy L ref i (p # ps) (unhealthy, firstOrdinal, first) =
     scanUnhealthy L ref (Suc i) ps
       (if isHealthy L p then (unhealthy, firstOrdinal, first)
        else if getOrdinal p < firstOrdinal then (Suc unhealthy, getOrdinal p, Some (ref i))
        else (Suc unhealthy, firstOrdinal, first))"

definition MaxInt32 :: int where "MaxInt32 = 2147483647"

definition findUnhealthy :: "coreLib \<Rightarrow> pod list \<Rightarrow> pod list \<Rightarrow> nat \<times> int \<times> podRef option" where
  "findUnhealthy L replicas condemned =
     scanUnhealthy L InCondemned 0 condemned (scanUnhealthy L InReplicas 0 replicas (0, MaxInt32, None))"

section \<open>The loop over the replicas\<close>

definition recreatingEvent :: "rollout \<Rightarrow> pod \<Rightarrow> 'w sys \<Rightarrow> 'w sys" where
  "recreatingEvent u pod s =
     recordEvent ''Warning'' ''RecreatingFailedPod''
       (''StatefulSet '' @ setNamespace (ro_set u) @ ''/'' @ setName (ro_set u)
         @ '' is recreating failed Pod '' @ podName pod) s"

definition recreateFailed ::
  "'w k8s \<Rightarrow> 'w statefulPodControlInterface \<Rightarrow> rollout \<Rightarrow> nat \<Rightarrow> pod \<Rightarrow> statefulSetStatus \<Rightarrow> 'w sys
     \<Rightarrow> (flow \<times> pod \<times> statefulSetStatus \<times> 'w sys) option" where
  "recreateFailed e pc u i pod st s =
     (if \<not> isFailed pod then Some (Next, pod, st, s)
      else
        (case DeleteStatefulPod pc (ro_set u) pod (recreatingEvent u pod s) of
           (Some err, s) \<Rightarrow> Some (Return (Some err), pod, st, s)
         | (None, s) \<Rightarrow>
             let st = addRevisionCount (- 1) (currentName u) (updateName u) pod st;
                 st = st\<lparr>st_Replicas := st_Replicas st - 1\<rparr>
             in (case newVersionedStatefulSetPod e (ro_currentSet u) (ro_updateSet u)
                        (currentName u) (updateName u) (int i) of
                   None \<Rightarrow> None
                 | Some pod \<Rightarrow> Some (Next, pod, st, s))))"

definition failedCondition ::
  "'w k8s \<Rightarrow> string \<Rightarrow> string \<Rightarrow> error \<Rightarrow> statefulSetStatus \<Rightarrow> 'w sys \<Rightarrow> statefulSetStatus" where
  "failedCondition e ty verb err st s =
     SetStatefulsetCondition st (NewStatefulsetCondition e ty ConditionTrue []
       (''StatefulPodControl failed to '' @ verb @ '' Pod error: '' @ lib_ErrorString (core e) err) s)"

definition createReplica ::
  "'w k8s \<Rightarrow> 'w statefulPodControlInterface \<Rightarrow> rollout \<Rightarrow> pod \<Rightarrow> statefulSetStatus \<Rightarrow> 'w sys
     \<Rightarrow> (flow \<times> pod \<times> statefulSetStatus \<times> 'w sys) option" where
  "createReplica e pc u pod st s =
     (case CreateStatefulPod pc (ro_set u) pod s of
        None \<Rightarrow> None
      | Some (Some err, pod, s) \<Rightarrow>
          Some (Return (Some err), pod, failedCondition e FailedCreatePod ''create'' err st s, s)
      | Some (None, pod, s) \<Rightarrow>
          let st = st\<lparr>st_Replicas := st_Replicas st + 1\<rparr>;
              st = addRevisionCount 1 (currentName u) (updateName u) pod st
          in Some (if monotonic u then Return None else Next, pod, st, s))"

definition inPlaceReadyCondition :: podCondition where
  "inPlaceReadyCondition = \<lparr>pc_Type = StatefulSetInPlaceUpdateReady, pc_Status = ConditionTrue, pc_Reason = []\<rparr>"

definition markInPlaceReady ::
  "'w k8s \<Rightarrow> 'w statefulPodControlInterface \<Rightarrow> rollout \<Rightarrow> pod \<Rightarrow> 'w sys \<Rightarrow> (error option \<times> pod \<times> 'w sys) option" where
  "markInPlaceReady e pc u pod s =
     (if shouldUpdateInPlaceReady (codec e) pod
      then UpdateStatefulPodCondition pc (ro_set u) pod inPlaceReadyCondition s
      else Some (None, pod, s))"

definition enforceInvariants ::
  "'w k8s \<Rightarrow> 'w statefulPodControlInterface \<Rightarrow> rollout \<Rightarrow> pod \<Rightarrow> statefulSetStatus \<Rightarrow> 'w sys
     \<Rightarrow> (flow \<times> pod \<times> statefulSetStatus \<times> 'w sys) option" where
  \<comment> \<open>\<open>UpdateStatefulPod\<close> is given a deep copy of the replica\<close>
  "enforceInvariants e pc u pod st s =
     (if identityMatches (ro_set u) pod \<and> storageMatches (ro_set u) pod then Some (Next, pod, st, s)
      else
        (case UpdateStatefulPod pc (ro_updateSet u) pod s of
           None \<Rightarrow> None
         | Some (Some err, replica, s) \<Rightarrow>
             Some (Return (Some err), pod, failedCondition e FailedUpdatePod ''update'' err st s, s)
         | Some (None, replica, s) \<Rightarrow> Some (Next, pod, st, s)))"

definition examineReplica ::
  "'w k8s \<Rightarrow> 'w statefulPodControlInterface \<Rightarrow> rollout \<Rightarrow> pod \<Rightarrow> statefulSetStatus \<Rightarrow> 'w sys
     \<Rightarrow> (flow \<times> pod \<times> statefulSetStatus \<times> 'w sys) option" where
  \<comment> \<open>the rest of the loop's body, from \<open>if !isCreated(replicas[i])\<close> on\<close>
  "examineReplica e pc u pod st s =
     (if \<not> isCreated pod then createReplica e pc u pod st s
      else if isTerminating pod \<and> monotonic u then Some (Return None, pod, st, s)
      else
        (case markInPlaceReady e pc u pod s of
           None \<Rightarrow> None
         | Some (Some err, pod, s) \<Rightarrow> Some (Return (Some err), pod, st, s)
         | Some (None, pod, s) \<Rightarrow>
             if \<not> isRunningAndReady (core e) pod \<and> monotonic u then Some (Return None, pod, st, s)
             else enforceInvariants e pc u pod st s))"

definition replicaStep ::
  "'w k8s \<Rightarrow> 'w statefulPodControlInterface \<Rightarrow> rollout \<Rightarrow> nat \<Rightarrow> pod \<Rightarrow> statefulSetStatus \<Rightarrow> 'w sys
     \<Rightarrow> (flow \<times> pod \<times> statefulSetStatus \<times> 'w sys) option" where
  "replicaStep e pc u i pod st s =
     (case recreateFailed e pc u i pod st s of
        None \<Rightarrow> None
      | Some (Return err, pod, st, s) \<Rightarrow> Some (Return err, pod, st, s)
      | Some (Next, pod, st, s) \<Rightarrow> examineReplica e pc u pod st s)"

fun replicaLoop ::
  "'w k8s \<Rightarrow> 'w statefulPodControlInterface \<Rightarrow> rollout \<Rightarrow> pod list \<Rightarrow> pod list \<Rightarrow> statefulSetStatus \<Rightarrow> 'w sys
     \<Rightarrow> (flow \<times> pod list \<times> statefulSetStatus \<times> 'w sys) option" where
  \<comment> \<open>\<open>replicas[0..i)\<close> is \<open>examined\<close>\<close>
  "replicaLoop e pc u examined [] st s = Some (Next, examined, st, s)"
| "replicaLoop e pc u examined (pod # pods) st s =
     (case replicaStep e pc u (length examined) pod st s of
        None \<Rightarrow> None
      | Some (Return err, pod, st, s) \<Rightarrow> Some (Return err, examined @ pod # pods, st, s)
      | Some (Next, pod, st, s) \<Rightarrow> replicaLoop e pc u (examined @ [pod]) pods st s)"

section \<open>The loop over the condemned pods\<close>

fun condemnedLoop ::
  "'w k8s \<Rightarrow> 'w statefulPodControlInterface \<Rightarrow> rollout \<Rightarrow> podRef option \<Rightarrow> (nat \<times> pod) list \<Rightarrow> statefulSetStatus
     \<Rightarrow> 'w sys \<Rightarrow> flow \<times> statefulSetStatus \<times> 'w sys" where
  "condemnedLoop e pc u first [] st s = (Next, st, s)"
| "condemnedLoop e pc u first ((target, pod) # pods) st s =
     (if isTerminating pod then
        (if monotonic u then (Return None, st, s) else condemnedLoop e pc u first pods st s)
      else if \<not> isRunningAndReady (core e) pod \<and> monotonic u \<and> first \<noteq> Some (InCondemned target) then
        (Return None, st, s)
      else
        (case DeleteStatefulPod pc (ro_set u) pod s of
           (Some err, s) \<Rightarrow> (Return (Some err), st, s)
         | (None, s) \<Rightarrow>
             let st = addRevisionCount (- 1) (currentName u) (updateName u) pod st
             in if monotonic u then (Return None, st, s) else condemnedLoop e pc u first pods st s))"

section \<open>The rolling update\<close>

datatype bounds = NoUpdate "error option" | UpdateFrom int int

definition updateBounds :: "'w k8s \<Rightarrow> rollout \<Rightarrow> int \<Rightarrow> controllerCache \<Rightarrow> bounds option" where
  \<comment> \<open>the guards before the update loop, and its \<open>updateMin\<close> and \<open>maxUnavailable\<close>\<close>
  "updateBounds e u replicaCount cache =
     (case UpdateStrategy (set_Spec (ro_set u)) of
        None \<Rightarrow> None
      | Some us \<Rightarrow>
          if us_Type us = OnDeleteStatefulSetStrategyType then Some (NoUpdate None)
          else if \<not> fst (SatisfiedExpectations (getStatefulSetKey (ro_set u)) (updateName u) cache)
          then Some (NoUpdate None)
          else
            (case RollingUpdate us of
               None \<Rightarrow> Some (UpdateFrom 0 1)
             | Some ru \<Rightarrow>
                 (case Partition ru of
                    None \<Rightarrow> None
                  | Some part \<Rightarrow>
                      (case lib_GetValueFromIntOrPercent (core e)
                              (case MaxUnavailable ru of None \<Rightarrow> IntVal 1 | Some v \<Rightarrow> v) replicaCount True of
                         Inl err \<Rightarrow> Some (NoUpdate (Some err))
                       | Inr maxUnavailable \<Rightarrow>
                           if Paused ru then Some (NoUpdate None)
                           else Some (UpdateFrom (sint part) maxUnavailable)))))"

definition startInPlaceCondition :: podCondition where
  "startInPlaceCondition = \<lparr>pc_Type = StatefulSetInPlaceUpdateReady, pc_Status = ConditionFalse,
     pc_Reason = ''StartInPlaceUpdate''\<rparr>"

definition inPlaceUpdatePod ::
  "'w statefulPodControlInterface \<Rightarrow> statefulSet \<Rightarrow> pod \<Rightarrow> inPlaceUpdateSpec \<Rightarrow> 'w sys
     \<Rightarrow> (error option \<times> pod \<times> 'w sys) option" where
  "inPlaceUpdatePod pc sts pod spec s =
     (case UpdateStatefulPodCondition pc sts pod startInPlaceCondition s of
        None \<Rightarrow> None
      | Some (Some err, pod, s) \<Rightarrow> Some (Some err, pod, s)
      | Some (None, pod, s) \<Rightarrow>
          (case InPlaceUpdateStatefulPod pc sts pod spec s of
             None \<Rightarrow> None
           | Some (Some err, s) \<Rightarrow> Some (Some err, pod, s)
           | Some (None, s) \<Rightarrow>
               Some (None, pod, s\<lparr>expectations :=
                  ExpectUpdated (getStatefulSetKey sts) (ipu_revision spec) (p_Meta pod) (expectations s)\<rparr>)))"

text \<open>
  The attempt to update an outdated pod in place: the results are \<^verbatim>\<open>useInPlaceUpdate\<close> after it and
  \<^verbatim>\<open>skipUpdating\<close>.
\<close>

definition tryInPlace ::
  "'w k8s \<Rightarrow> 'w statefulPodControlInterface \<Rightarrow> rollout \<Rightarrow> pod \<Rightarrow> error option \<Rightarrow> 'w sys
     \<Rightarrow> (bool \<times> bool \<times> pod \<times> 'w sys) option" where
  "tryInPlace e pc u pod notCompleted s =
     (case shouldDoInPlaceUpdate (codec e) (ro_set u) (ro_updateRevision u) (getPodRevision pod) (ro_revisions u) of
        None \<Rightarrow> None
      | Some (False, _) \<Rightarrow> Some (False, False, pod, s)
      | Some (True, None) \<Rightarrow> None
      | Some (True, Some spec) \<Rightarrow>
          if notCompleted \<noteq> None then Some (True, True, pod, s)
          else
            (case inPlaceUpdatePod pc (ro_set u) pod spec s of
               None \<Rightarrow> None
             | Some (updateErr, pod, s) \<Rightarrow>
                 (case isInPlaceOnly (ro_set u) of
                    None \<Rightarrow> None
                  | Some only \<Rightarrow>
                      Some (\<not> (updateErr \<noteq> None \<and> \<not> IsConflict updateErr \<and> \<not> only), False, pod, s))))"

definition updateOutdated ::
  "'w k8s \<Rightarrow> 'w statefulPodControlInterface \<Rightarrow> rollout \<Rightarrow> pod \<Rightarrow> error option \<Rightarrow> statefulSetStatus \<Rightarrow> 'w sys
     \<Rightarrow> (flow \<times> pod \<times> statefulSetStatus \<times> 'w sys) option" where
  "updateOutdated e pc u pod notCompleted st s =
     (case tryInPlace e pc u pod notCompleted s of
        None \<Rightarrow> None
      | Some (useInPlace, skipUpdating, pod, s) \<Rightarrow>
          (case (if useInPlace then (None, s) else DeleteStatefulPod pc (ro_set u) pod s) of
             (Some err, s) \<Rightarrow> Some (Return (Some err), pod, st, s)
           | (None, s) \<Rightarrow>
               Some (Next, pod,
                 (if \<not> skipUpdating \<and> getPodRevision pod = currentName u
                  then st\<lparr>CurrentReplicas := CurrentReplicas st - 1\<rparr> else st), s)))"

definition updateTarget ::
  "'w k8s \<Rightarrow> 'w statefulPodControlInterface \<Rightarrow> rollout \<Rightarrow> pod \<Rightarrow> statefulSetStatus \<Rightarrow> 'w sys
     \<Rightarrow> (flow \<times> bool \<times> pod \<times> statefulSetStatus \<times> 'w sys) option" where
  \<comment> \<open>one pod of the update loop; the Boolean says whether it is appended to \<open>unavailablePods\<close>\<close>
  "updateTarget e pc u pod st s =
     (let notCompleted = checkInPlaceUpdateCompleted (codec e) pod
      in case (if getPodRevision pod \<noteq> updateName u \<and> \<not> isTerminating pod
               then updateOutdated e pc u pod notCompleted st s else Some (Next, pod, st, s)) of
           None \<Rightarrow> None
         | Some (fl, pod, st, s) \<Rightarrow>
             Some (fl, getPodRevision pod \<noteq> updateName u \<or> \<not> isHealthy (core e) pod \<or> notCompleted \<noteq> None,
               pod, st, s))"

fun updateLoop ::
  "'w k8s \<Rightarrow> 'w statefulPodControlInterface \<Rightarrow> rollout \<Rightarrow> int \<Rightarrow> int list \<Rightarrow> pod list \<Rightarrow> int \<Rightarrow> statefulSetStatus
     \<Rightarrow> 'w sys \<Rightarrow> (error option \<times> pod list \<times> statefulSetStatus \<times> 'w sys) option" where
  \<comment> \<open>\<open>unavailable\<close> is \<open>len(unavailablePods)\<close>; a negative target is an index out of range\<close>
  "updateLoop e pc u maxUnavailable [] replicas unavailable st s = Some (None, replicas, st, s)"
| "updateLoop e pc u maxUnavailable (target # targets) replicas unavailable st s =
     (if target < 0 then None
      else
        (case updateTarget e pc u (replicas ! nat target) st s of
           None \<Rightarrow> None
         | Some (Return err, _, pod, st, s) \<Rightarrow> Some (err, replicas[nat target := pod], st, s)
         | Some (Next, isUnavailable, pod, st, s) \<Rightarrow>
             let unavailable = (if isUnavailable then unavailable + 1 else unavailable);
                 replicas = replicas[nat target := pod]
             in if maxUnavailable \<le> unavailable then Some (None, replicas, st, s)
                else updateLoop e pc u maxUnavailable targets replicas unavailable st s))"

section \<open>The whole update\<close>

definition rollingUpdate ::
  "'w k8s \<Rightarrow> 'w statefulPodControlInterface \<Rightarrow> rollout \<Rightarrow> pod list \<Rightarrow> statefulSetStatus \<Rightarrow> 'w sys
     \<Rightarrow> (error option \<times> pod list \<times> statefulSetStatus \<times> 'w sys) option" where
  "rollingUpdate e pc u replicas st s =
     (case updateBounds e u (int (length replicas)) (expectations s) of
        None \<Rightarrow> None
      | Some (NoUpdate err) \<Rightarrow> Some (err, replicas, st, s)
      | Some (UpdateFrom updateMin maxUnavailable) \<Rightarrow>
          updateLoop e pc u maxUnavailable (rev [updateMin .. int (length replicas) - 1]) replicas 0 st s)"

definition managePods ::
  "'w k8s \<Rightarrow> 'w statefulPodControlInterface \<Rightarrow> rollout \<Rightarrow> pod list \<Rightarrow> pod list \<Rightarrow> podRef option \<Rightarrow> statefulSetStatus
     \<Rightarrow> 'w sys \<Rightarrow> (error option \<times> pod list \<times> statefulSetStatus \<times> 'w sys) option" where
  \<comment> \<open>the three loops, after the early return for a set that is being deleted\<close>
  "managePods e pc u replicas condemned first st s =
     (case replicaLoop e pc u [] replicas st s of
        None \<Rightarrow> None
      | Some (Return err, replicas, st, s) \<Rightarrow> Some (err, replicas, st, s)
      | Some (Next, replicas, st, s) \<Rightarrow>
          (case condemnedLoop e pc u first (rev (enumerate 0 condemned)) st s of
             (Return err, st, s) \<Rightarrow> Some (err, replicas, st, s)
           | (Next, st, s) \<Rightarrow> rollingUpdate e pc u replicas st s))"

text \<open>
  The caller's pods after the update: the replica at an ordinal is the last listed pod with that ordinal, by
  pointer, unless a failed pod was replaced there by a new object.
\<close>

fun refreshPods :: "pod list \<Rightarrow> pod list \<Rightarrow> pod list" where
  "refreshPods replicas [] = []"
| "refreshPods replicas (p # ps) =
     (let ord = getOrdinal p
      in (if 0 \<le> ord \<and> ord < int (length replicas) \<and> \<not> list_ex (\<lambda>q. getOrdinal q = ord) ps \<and> \<not> isFailed p
          then replicas ! nat ord else p) # refreshPods replicas ps)"

definition updateReplicas ::
  "'w k8s \<Rightarrow> 'w statefulPodControlInterface \<Rightarrow> rollout \<Rightarrow> int32 \<Rightarrow> pod list \<Rightarrow> 'w sys
     \<Rightarrow> (error option \<times> pod list \<times> statefulSetStatus \<times> 'w sys) option" where
  \<comment> \<open>the function after \<open>currentSet\<close> and \<open>updateSet\<close> are computed\<close>
  "updateReplicas e pc u collisionCount pods s =
     do {
       n \<leftarrow> Replicas (set_Spec (ro_set u));
       let replicaCount = sint n;
       if replicaCount < 0 then None
       else do {
         let (st, slots, condemned) = partitionPods (core e) (currentName u) (updateName u) replicaCount pods
               (initialStatus (ro_set u) (currentName u) (updateName u) collisionCount)
               (replicate (nat replicaCount) None, []);
         replicas \<leftarrow> fillReplicas e u 0 slots;
         let condemned = lib_Sort (core e) getOrdinal condemned;
         let (unhealthy, firstOrdinal, first) = findUnhealthy (core e) replicas condemned;
         if 0 < unhealthy \<and> first = None then None
         else if DeletionTimestamp (set_Meta (ro_set u)) \<noteq> None then Some (None, pods, st, s)
         else do {
           (err, replicas, st, s) \<leftarrow> managePods e pc u replicas condemned first st s;
           Some (err, refreshPods replicas pods, st, s)
         }
       }
     }"

definition updateStatefulSet ::
  "'w k8s \<Rightarrow> 'w statefulPodControlInterface \<Rightarrow> statefulSet \<Rightarrow> controllerRevision \<Rightarrow> controllerRevision \<Rightarrow> int32
     \<Rightarrow> pod list \<Rightarrow> controllerRevision list \<Rightarrow> 'w sys
     \<Rightarrow> (error option \<times> pod list \<times> statefulSetStatus option \<times> 'w sys) option" where
  "updateStatefulSet e pc sts currentRevision updateRevision collisionCount pods revisions s =
     (case ApplyRevision (codec e) sts currentRevision of
        None \<Rightarrow> None
      | Some (Inl err) \<Rightarrow> Some (Some err, pods, None, s)
      | Some (Inr currentSet) \<Rightarrow>
          (case ApplyRevision (codec e) sts updateRevision of
             None \<Rightarrow> None
           | Some (Inl err) \<Rightarrow> Some (Some err, pods, None, s)
           | Some (Inr updateSet) \<Rightarrow>
               (case updateReplicas e pc
                       \<lparr>ro_set = sts, ro_currentSet = currentSet, ro_updateSet = updateSet,
                        ro_currentRevision = currentRevision, ro_updateRevision = updateRevision,
                        ro_revisions = revisions\<rparr> collisionCount pods s of
                  None \<Rightarrow> None
                | Some (err, pods, st, s) \<Rightarrow> Some (err, pods, Some st, s))))"

definition updateStatefulSetStatus ::
  "'w statusUpdaterInterface \<Rightarrow> statefulSet \<Rightarrow> statefulSetStatus \<Rightarrow> 'w sys \<Rightarrow> (error option \<times> 'w sys) option" where
  "updateStatefulSetStatus su sts status s =
     (case completeRollingUpdate sts status of
        None \<Rightarrow> None
      | Some status \<Rightarrow>
          if \<not> inconsistentStatus sts status then Some (None, s) else su sts status s)"

definition observePods :: "statefulSet \<Rightarrow> string \<Rightarrow> pod list \<Rightarrow> 'w sys \<Rightarrow> 'w sys" where
  "observePods sts revision pods s =
     s\<lparr>expectations := fold (ObserveUpdated metaRevision (getStatefulSetKey sts) revision)
         (map p_Meta pods) (expectations s)\<rparr>"

definition UpdateStatefulSet ::
  "'w k8s \<Rightarrow> 'w statefulPodControlInterface \<Rightarrow> 'w statusUpdaterInterface \<Rightarrow> 'w historyInterface
     \<Rightarrow> statefulSet \<Rightarrow> pod list \<Rightarrow> 'w sys \<Rightarrow> (error option \<times> 'w sys) option" where
  "UpdateStatefulSet e pc su h sts pods s =
     (case ListRevisions e h sts s of
        (Inl err, s) \<Rightarrow> Some (Some err, s)
      | (Inr revisions, s) \<Rightarrow>
          (case getStatefulSetRevisions e h sts (lib_SortControllerRevisions (hist e) revisions) s of
             None \<Rightarrow> None
           | Some (Inl err, cc, revisions, s) \<Rightarrow> Some (Some err, s)
           | Some (Inr (currentRevision, updateRevision), cc, revisions, s) \<Rightarrow>
               (case updateStatefulSet e pc sts currentRevision updateRevision cc pods revisions
                       (observePods sts (revName updateRevision) pods s) of
                  None \<Rightarrow> None
                | Some (Some err, pods, st, s) \<Rightarrow> Some (Some err, s)
                | Some (None, pods, None, s) \<Rightarrow> None
                | Some (None, pods, Some status, s) \<Rightarrow>
                    (case updateStatefulSetStatus su sts status s of
                       None \<Rightarrow> None
                     | Some (Some err, s) \<Rightarrow> Some (Some err, s)
                     | Some (None, s) \<Rightarrow> truncateHistory h sts pods revisions currentRevision updateRevision s))))"

end
