(* ===== verification/ReplicaSafety.thy ===== *)
theory ReplicaSafety
  imports SetControl "HOL-Library.Sublist"
begin

text \<open>
  What the loop over the replicas and the loop over the condemned pods of \<open>updateStatefulSet\<close> write, for every
  behaviour of the API server. The lemmas are proved in the locale \<open>stateful_pod_control\<close>, from the contract of
  the pod control alone.
\<close>

section \<open>Classifying the writes\<close>

fun creates :: "podOp list \<Rightarrow> objectKey list" where
  "creates [] = []"
| "creates (PodCreate k # ops) = k # creates ops"
| "creates (_ # ops) = creates ops"

fun deletes :: "podOp list \<Rightarrow> objectKey list" where
  "deletes [] = []"
| "deletes (PodDelete k # ops) = k # deletes ops"
| "deletes (_ # ops) = deletes ops"

definition touches :: "podOp \<Rightarrow> bool" where
  "touches op \<longleftrightarrow> isUpdate op \<or> isStatusUpdate op"

lemma creates_append [simp]: "creates (a @ b) = creates a @ creates b"
  by (induction a rule: creates.induct) auto

lemma deletes_append [simp]: "deletes (a @ b) = deletes a @ deletes b"
  by (induction a rule: deletes.induct) auto

lemma creates_touches [simp]: "list_all touches ops \<Longrightarrow> creates ops = []"
  by (induction ops rule: creates.induct) (auto simp: touches_def)

lemma deletes_touches [simp]: "list_all touches ops \<Longrightarrow> deletes ops = []"
  by (induction ops rule: deletes.induct) (auto simp: touches_def)

lemma creates_deletions [simp]: "creates (map (\<lambda>p. PodDelete (f p)) ps) = []"
  by (induction ps) auto

lemma deletes_deletions [simp]: "deletes (map (\<lambda>p. PodDelete (f p)) ps) = map f ps"
  by (induction ps) auto

lemma touches_ops [simp]:
  "touches (PodUpdate k)" "touches (PodStatus k)" "\<not> touches (PodCreate k)" "\<not> touches (PodDelete k)"
  by (simp_all add: touches_def)

lemma writes_touches: "writes isUpdate s s' \<Longrightarrow> writes touches s s'" "writes isStatusUpdate s s' \<Longrightarrow> writes touches s s'"
  by (auto simp: writes_def touches_def list_all_iff)

text \<open>A replica the loop goes past in monotonic mode; a pod whose in-place update has just completed is judged
  by the server's copy, which the readiness condition is written to.\<close>

definition settled :: "'w k8s \<Rightarrow> pod \<Rightarrow> bool" where
  "settled e p \<longleftrightarrow> isCreated p \<and> \<not> isFailed p \<and> \<not> isTerminating p
     \<and> (isRunningAndReady (core e) p \<or> shouldUpdateInPlaceReady (codec e) p)"

text \<open>The pod the loop would create at index \<open>i\<close>, and what it may do there beyond touching the replica.\<close>

abbreviation newPod :: "'w k8s \<Rightarrow> rollout \<Rightarrow> nat \<Rightarrow> pod option" where
  "newPod e u i \<equiv> newVersionedStatefulSetPod e (ro_currentSet u) (ro_updateSet u) (currentName u) (updateName u) (int i)"

inductive replaces :: "'w k8s \<Rightarrow> rollout \<Rightarrow> nat \<Rightarrow> pod \<Rightarrow> podOp list \<Rightarrow> bool"
  for e u i p where
  nothing: "replaces e u i p []"
| delete_failed: "isFailed p \<Longrightarrow> replaces e u i p [PodDelete (podKey p)]"
| create_missing: "\<not> isCreated p \<Longrightarrow> replaces e u i p [PodCreate (podKey p)]"
| recreate: "isFailed p \<Longrightarrow> newPod e u i = Some q \<Longrightarrow>
    replaces e u i p [PodDelete (podKey p), PodCreate (podKey q)]"

definition replicaOp :: "'w k8s \<Rightarrow> rollout \<Rightarrow> nat \<Rightarrow> pod \<Rightarrow> podOp \<Rightarrow> bool" where
  "replicaOp e u i p op \<longleftrightarrow> touches op \<or> (\<exists>rep. replaces e u i p rep \<and> op \<in> List.set rep)"

abbreviation deletions :: "pod list \<Rightarrow> podOp list" where
  "deletions ps \<equiv> map (\<lambda>p. PodDelete (podKey p)) ps"

inductive_cases replacesE: "replaces e u i p ops"

lemma newVersioned_fresh:
  assumes "fresh_pods (core e)" and "newVersionedStatefulSetPod e cs us c r i = Some q"
  shows "\<not> isCreated q" and "\<not> isTerminating q"
proof -
  have "\<not> isCreated x \<and> \<not> isTerminating x" if x: "newStatefulSetPod e sts i = Some x" for sts x
  proof -
    obtain p0 where p0: "lib_GetPodFromTemplate (core e) (Template (set_Spec sts)) (set_Meta sts)
        (Some (lib_NewControllerRef (core e) (set_Meta sts) controllerKind)) = Some p0"
      and fresh: "Phase (p_Status p0) = []" "DeletionTimestamp (p_Meta p0) = None"
      using assms(1) by (rule fresh_podsE)
    define p1 where "p1 = initIdentity sts (p0\<lparr>p_Meta := (p_Meta p0)\<lparr>Name := getPodName sts i\<rparr>\<rparr>)"
    from x p0 obtain p2 where p2: "updateStorage (core e) sts p1 = Some p2" "coordinatorPod e sts p2 i = Some x"
      by (auto simp: newStatefulSetPod_def Let_def p1_def bind_eq_Some_conv)
    with fresh updateStorage_frame [OF p2(1)] coordinatorPod_frame [OF p2(2)] show ?thesis
      by (simp add: isCreated_def isTerminating_def p1_def initIdentity_def updateIdentity_def Let_def)
  qed
  with assms(2) show "\<not> isCreated q" "\<not> isTerminating q"
    by (auto simp: newVersionedStatefulSetPod_def bind_eq_Some_conv split: if_splits)
qed

lemma does_writes_trans: "does s [] s' \<Longrightarrow> writes P s' s'' \<Longrightarrow> writes P s s''"
  unfolding writes_def by (metis append_Nil does_trans)

section \<open>One replica\<close>

context stateful_pod_control
begin

lemma recreateFailed_cases:
  assumes "recreateFailed e pc u i p st s = Some (fl, q, st', s')"
  obtains (ok) "\<not> isFailed p" "fl = Next" "q = p" "st' = st" "s' = s"
  | (err) err where "isFailed p" "fl = Return (Some err)" "q = p" "does s [PodDelete (podKey p)] s'"
  | (new) "isFailed p" "fl = Next" "newPod e u i = Some q" "does s [PodDelete (podKey p)] s'"
proof (cases "isFailed p")
  case False
  with assms show ?thesis by (intro ok) (auto simp: recreateFailed_def)
next
  case True
  obtain derr s1 where d: "DeleteStatefulPod pc (ro_set u) p (recreatingEvent u p s) = (derr, s1)" by fastforce
  from delete_does [OF d] have "does s [PodDelete (podKey p)] s1" by (simp add: recreatingEvent_def)
  with assms True d show ?thesis
    by (auto simp: recreateFailed_def Let_def split: option.splits intro: err new)
qed

lemma createReplica_cases:
  assumes "createReplica e pc u p st s = Some (fl, q, st', s')"
  obtains (ok) "fl = (if monotonic u then Return None else Next)" "does s [PodCreate (podKey p)] s'"
  | (err) err ops where "fl = Return (Some err)" "does s ops s'" "ops = [] \<or> ops = [PodCreate (podKey p)]"
proof -
  from assms obtain cerr r s1 where c: "CreateStatefulPod pc (ro_set u) p s = Some (cerr, r, s1)"
    by (auto simp: createReplica_def split: option.splits)
  from create_does [OF c] assms c show ?thesis
    by (auto simp: createReplica_def Let_def split: option.splits intro: ok err)
qed

lemma enforceInvariants_writes:
  assumes "enforceInvariants e pc u p st s = Some (fl, q, st', s')"
  shows "writes isUpdate s s' \<and> q = p \<and> (fl = Next \<longrightarrow> st' = st) \<and> fl \<noteq> Return None"
  using assms
  by (auto simp: enforceInvariants_def split: if_splits option.splits dest: update_writes)

lemma markInPlaceReady_writes:
  assumes "markInPlaceReady e pc u p s = Some (err, q, s')"
  shows "writes isStatusUpdate s s' \<and> (q = p \<or> shouldUpdateInPlaceReady (codec e) p)"
  using assms by (auto simp: markInPlaceReady_def split: if_splits dest: condition_writes)

lemma examineReplica_created:
  assumes "examineReplica e pc u p st s = Some (fl, q, st', s')" and "isCreated p"
  shows "writes touches s s'
    \<and> (monotonic u \<and> fl = Next \<longrightarrow> \<not> isTerminating p
         \<and> (isRunningAndReady (core e) p \<or> shouldUpdateInPlaceReady (codec e) p))"
proof -
  consider (stop) "isTerminating p" "monotonic u" "fl = Return None" "s' = s"
    | (go) err r s1 where "\<not> (isTerminating p \<and> monotonic u)" "markInPlaceReady e pc u p s = Some (err, r, s1)"
    using assms by (auto simp: examineReplica_def split: if_splits option.splits)
  then show ?thesis
  proof cases
    case stop
    then show ?thesis by simp
  next
    case go
    note mark = markInPlaceReady_writes [OF go(2)]
    then have touch: "writes touches s s1" by (auto intro: writes_touches)
    have enf: "writes touches s s'" if "enforceInvariants e pc u r st s1 = Some (fl, q, st', s')"
      using enforceInvariants_writes [OF that] touch by (blast intro: writes_trans writes_touches)
    from assms go mark touch show ?thesis
      by (auto simp: examineReplica_def split: if_splits option.splits intro: enf)
  qed
qed

text \<open>What one round of the loop writes: touches of the replica, and at most one replacement.\<close>

lemma replicaStep_ops:
  assumes "fresh_pods (core e)" and "replicaStep e pc u i p st s = Some (fl, q, st', s')"
  shows "\<exists>ops rep. does s (ops @ rep) s' \<and> list_all touches ops \<and> replaces e u i p rep
    \<and> (monotonic u \<and> fl = Next \<longrightarrow> rep = [] \<and> settled e p)
    \<and> (rep \<noteq> [] \<longrightarrow> ops = [])"
proof -
  from assms(2) obtain f1 p1 st1 s1 where r: "recreateFailed e pc u i p st s = Some (f1, p1, st1, s1)"
    by (auto simp: replicaStep_def split: option.splits)
  from r show ?thesis
  proof (cases rule: recreateFailed_cases)
    case ok
    with assms(2) r have x: "examineReplica e pc u p st s = Some (fl, q, st', s')" by (simp add: replicaStep_def)
    show ?thesis
    proof (cases "isCreated p")
      case True
      from examineReplica_created [OF x True] True ok show ?thesis
        by (auto simp: writes_def settled_def intro!: replaces.nothing)
          (metis append_Nil2 replaces.nothing)+
    next
      case False
      with x have "createReplica e pc u p st s = Some (fl, q, st', s')" by (simp add: examineReplica_def)
      then show ?thesis
        by (cases rule: createReplica_cases)
          (use False in \<open>force intro: replaces.intros exI [of _ "[]"] split: if_splits\<close>)+
    qed
  next
    case (err x)
    with assms(2) r have "fl = Return (Some x)" "s' = s1" by (auto simp: replicaStep_def)
    with err show ?thesis by (intro exI [of _ "[]"] exI [of _ "[PodDelete (podKey p)]"]) (auto intro: replaces.intros)
  next
    case new
    from newVersioned_fresh(1) [OF assms(1) new(3)] have "\<not> isCreated p1" .
    with assms(2) r new have "createReplica e pc u p1 st1 s1 = Some (fl, q, st', s')"
      by (simp add: replicaStep_def examineReplica_def)
    then show ?thesis
    proof (cases rule: createReplica_cases)
      case ok
      from does_trans [OF new(4) ok(2)] ok new show ?thesis
        by (intro exI [of _ "[]"] exI [of _ "[PodDelete (podKey p), PodCreate (podKey p1)]"])
          (auto intro: replaces.intros split: if_splits)
    next
      case (err x ops)
      from does_trans [OF new(4) err(2)] err new show ?thesis
        by (intro exI [of _ "[]"] exI [of _ "PodDelete (podKey p) # ops"])
          (auto intro: replaces.intros)
    qed
  qed
qed

lemma examineReplica_does:
  assumes "examineReplica e pc u p st s = Some (fl, q, st', s')" shows "\<exists>ops. does s ops s'"
proof (cases "isCreated p")
  case True
  from examineReplica_created [OF assms True] show ?thesis by (auto simp: writes_def)
next
  case False
  with assms have "createReplica e pc u p st s = Some (fl, q, st', s')" by (simp add: examineReplica_def)
  then show ?thesis by (cases rule: createReplica_cases) auto
qed

lemma replicaStep_does:
  assumes "replicaStep e pc u i p st s = Some (fl, q, st', s')" shows "\<exists>ops. does s ops s'"
proof -
  from assms obtain f1 p1 st1 s1 where r: "recreateFailed e pc u i p st s = Some (f1, p1, st1, s1)"
    by (auto simp: replicaStep_def split: option.splits)
  then have d: "\<exists>ops. does s ops s1" by (cases rule: recreateFailed_cases) auto
  show ?thesis
  proof (cases f1)
    case Next
    with assms r have "examineReplica e pc u p1 st1 s1 = Some (fl, q, st', s')" by (simp add: replicaStep_def)
    from examineReplica_does [OF this] d show ?thesis by (blast intro: does_trans)
  next
    case (Return err)
    with assms r d show ?thesis by (auto simp: replicaStep_def)
  qed
qed

lemma replicaLoop_does:
  "replicaLoop e pc u ex ps st s = Some (fl, rs, st', s') \<Longrightarrow> \<exists>ops. does s ops s'"
proof (induction ps arbitrary: ex st s)
  case Nil
  then show ?case by auto
next
  case (Cons p ps)
  then show ?case
    by (auto split: option.splits flow.splits) (meson does_trans replicaStep_does, meson replicaStep_does)
qed

text \<open>
  The loop in monotonic mode: it goes past a prefix of settled replicas, touching them at most, and where it
  stops it may replace or create one pod.
\<close>

lemma replicaLoop_monotonic:
  assumes "fresh_pods (core e)" and "monotonic u"
    and "replicaLoop e pc u ex ps st s = Some (fl, rs, st', s')"
  shows "\<exists>ops rep k. does s (ops @ rep) s' \<and> list_all touches ops \<and> k \<le> length ps
    \<and> (\<forall>j < k. settled e (ps ! j))
    \<and> (if k < length ps then replaces e u (length ex + k) (ps ! k) rep else rep = [])
    \<and> (fl = Next \<longrightarrow> k = length ps)"
  using assms(3)
proof (induction ps arbitrary: ex st s)
  case Nil
  then show ?case by (auto intro!: exI [of _ "[]"])
next
  case (Cons p ps)
  from Cons.prems obtain f1 q st1 s1 where step: "replicaStep e pc u (length ex) p st s = Some (f1, q, st1, s1)"
    by (auto split: option.splits)
  from replicaStep_ops [OF assms(1) step] obtain ops rep where
    o: "does s (ops @ rep) s1" "list_all touches ops" "replaces e u (length ex) p rep"
      "f1 = Next \<Longrightarrow> rep = [] \<and> settled e p"
    using assms(2) by blast
  show ?case
  proof (cases f1)
    case (Return err)
    with Cons.prems step have "s' = s1" "fl \<noteq> Next" by auto
    with o show ?thesis by (intro exI [of _ ops] exI [of _ rep] exI [of _ "0::nat"]) auto
  next
    case Next
    with Cons.prems step have "replicaLoop e pc u (ex @ [q]) ps st1 s1 = Some (fl, rs, st', s')" by simp
    from Cons.IH [OF this] obtain ops' rep' k where
      ih: "does s1 (ops' @ rep') s'" "list_all touches ops'" "k \<le> length ps" "\<forall>j < k. settled e (ps ! j)"
        "if k < length ps then replaces e u (length (ex @ [q]) + k) (ps ! k) rep' else rep' = []"
        "fl = Next \<longrightarrow> k = length ps" by blast
    from does_trans [OF o(1) ih(1)] Next o(4) have "does s ((ops @ ops') @ rep') s'" by simp
    with o ih Next show ?thesis
      by (intro exI [of _ "ops @ ops'"] exI [of _ rep'] exI [of _ "Suc k"]) (auto simp: nth_Cons split: nat.splits)
  qed
qed

text \<open>In every mode, each write is a touch or belongs to the replacement of one replica.\<close>

lemma replicaLoop_ops:
  assumes "fresh_pods (core e)" and "replicaLoop e pc u ex ps st s = Some (fl, rs, st', s')"
  shows "\<exists>ops. does s ops s'
    \<and> (\<forall>op \<in> List.set ops. touches op \<or> (\<exists>j < length ps. replicaOp e u (length ex + j) (ps ! j) op))"
  using assms(2)
proof (induction ps arbitrary: ex st s)
  case Nil
  then show ?case by (auto intro!: exI [of _ "[]"])
next
  case (Cons p ps)
  from Cons.prems obtain f1 q st1 s1 where step: "replicaStep e pc u (length ex) p st s = Some (f1, q, st1, s1)"
    by (auto split: option.splits)
  from replicaStep_ops [OF assms(1) step] obtain ops rep where
    o: "does s (ops @ rep) s1" "list_all touches ops" "replaces e u (length ex) p rep" by blast
  have here: "touches op \<or> (\<exists>j < length (p # ps). replicaOp e u (length ex + j) ((p # ps) ! j) op)"
    if "op \<in> List.set (ops @ rep)" for op
    using that o(2,3) by (auto simp: list_all_iff replicaOp_def intro!: exI [of _ "0::nat"])
  show ?case
  proof (cases f1)
    case (Return err)
    with Cons.prems step have "s' = s1" by auto
    with o here show ?thesis by blast
  next
    case Next
    with Cons.prems step have "replicaLoop e pc u (ex @ [q]) ps st1 s1 = Some (fl, rs, st', s')" by simp
    from Cons.IH [OF this] obtain ops' where ih: "does s1 ops' s'"
      "\<forall>op \<in> List.set ops'. touches op \<or> (\<exists>j < length ps. replicaOp e u (length ex + 1 + j) (ps ! j) op)" by auto
    have "touches op \<or> (\<exists>j < length (p # ps). replicaOp e u (length ex + j) ((p # ps) ! j) op)"
      if "op \<in> List.set ops'" for op
      using that ih(2) by (fastforce intro: exI [of _ "Suc j" for j])
    with does_trans [OF o(1) ih(1)] here show ?thesis by (intro exI [of _ "(ops @ rep) @ ops'"]) auto
  qed
qed

lemma replicaLoop_length:
  "replicaLoop e pc u ex ps st s = Some (fl, rs, st', s') \<Longrightarrow> length rs = length ex + length ps"
  by (induction ps arbitrary: ex st s) (auto split: option.splits prod.splits flow.splits)

text \<open>In burst mode, a run of the whole loop creates every replica that does not exist.\<close>

lemma replicaLoop_burst:
  assumes "\<not> monotonic u" and "replicaLoop e pc u ex ps st s = Some (Next, rs, st', s')"
    and "does s ops s'" and "p \<in> List.set ps" and "\<not> isCreated p"
  shows "PodCreate (podKey p) \<in> List.set ops"
  using assms(2-4)
proof (induction ps arbitrary: ex st s ops)
  case Nil
  then show ?case by simp
next
  case (Cons p' ps)
  from Cons.prems obtain f1 q st1 s1 where step: "replicaStep e pc u (length ex) p' st s = Some (f1, q, st1, s1)"
    by (auto split: option.splits)
  with Cons.prems have f1: "f1 = Next" by (cases f1) auto
  with Cons.prems step have rest: "replicaLoop e pc u (ex @ [q]) ps st1 s1 = Some (Next, rs, st', s')" by simp
  obtain ops1 where ops1: "does s ops1 s1" using replicaStep_does [OF step] by blast
  obtain ops2 where ops2: "does s1 ops2 s'" using replicaLoop_does [OF rest] by blast
  from does_trans [OF ops1 ops2] Cons.prems(2) have ops: "ops = ops1 @ ops2" by (auto simp: does_def dest: podSteps_det)
  show ?case
  proof (cases "p' = p")
    case True
    with assms(5) have "\<not> isFailed p'" "\<not> isCreated p'" by (auto simp: isCreated_def isFailed_def)
    with step f1 have "createReplica e pc u p' st s = Some (Next, q, st1, s1)"
      by (simp add: replicaStep_def recreateFailed_def examineReplica_def)
    then have "does s [PodCreate (podKey p')] s1" by (cases rule: createReplica_cases) auto
    with ops1 have "ops1 = [PodCreate (podKey p')]" by (auto simp: does_def dest: podSteps_det)
    with ops True show ?thesis by simp
  next
    case False
    with Cons.IH [OF rest ops2] Cons.prems(3) ops show ?thesis by auto
  qed
qed

section \<open>The condemned pods\<close>

lemma condemnedLoop_ops:
  assumes "condemnedLoop e pc u first xs st s = (fl, st', s')"
  shows "\<exists>ys. subseq ys (map snd xs) \<and> does s (deletions ys) s' \<and> (\<forall>p \<in> List.set ys. \<not> isTerminating p)
    \<and> (monotonic u \<longrightarrow> ys = [] \<or> ys = [snd (hd xs)]) \<and> (monotonic u \<and> fl = Next \<longrightarrow> xs = [])"
  using assms
proof (induction xs arbitrary: st s)
  case Nil
  then show ?case by (auto intro!: exI [of _ "[]"])
next
  case (Cons x xs)
  obtain t p where x: "x = (t, p)" by fastforce
  obtain derr s1 where d: "DeleteStatefulPod pc (ro_set u) p s = (derr, s1)" by fastforce
  from delete_does [OF d] have d1: "does s [PodDelete (podKey p)] s1" .
  show ?case
  proof (cases "isTerminating p \<or> \<not> isRunningAndReady (core e) p \<and> monotonic u \<and> first \<noteq> Some (InCondemned t)")
    case True
    show ?thesis
    proof (cases "monotonic u")
      case True
      with \<open>_ \<or> _\<close> Cons.prems x have "s' = s" "fl = Return None" by (auto split: if_splits)
      then show ?thesis by (auto intro!: exI [of _ "[]"])
    next
      case False
      with True Cons.prems x have "condemnedLoop e pc u first xs st s = (fl, st', s')" by simp
      from Cons.IH [OF this] False x show ?thesis by (auto intro: list_emb_Cons)
    qed
  next
    case False
    show ?thesis
    proof (cases "derr \<noteq> None \<or> monotonic u")
      case True
      with False Cons.prems x d have "s' = s1" "fl \<noteq> Next" by (auto split: option.splits)
      with d1 False x show ?thesis by (auto intro!: exI [of _ "[p]"])
    next
      case go: False
      with False Cons.prems x d obtain st1 where "condemnedLoop e pc u first xs st1 s1 = (fl, st', s')" by auto
      from Cons.IH [OF this] obtain ys where ys: "subseq ys (map snd xs)" "does s1 (deletions ys) s'"
        "\<forall>p \<in> List.set ys. \<not> isTerminating p" by blast
      from does_trans [OF d1 ys(2)] ys False go x show ?thesis by (intro exI [of _ "p # ys"]) auto
    qed
  qed
qed

end

end
