(* ===== verification/UpdateSafety.thy ===== *)
theory UpdateSafety
  imports ReplicaSafety
begin

text \<open>
  What the rolling update writes: it visits the replicas from the highest ordinal down to the partition, disrupts
  only outdated pods, and stops when as many pods as allowed are unavailable.
\<close>

section \<open>Writes that may change the expectations\<close>

definition podWritesAre :: "(podOp \<Rightarrow> bool) \<Rightarrow> 'w sys \<Rightarrow> 'w sys \<Rightarrow> bool" where
  "podWritesAre P s s' \<longleftrightarrow> (\<exists>ops. podSteps s ops s' \<and> list_all P ops)"

lemma podWritesAre_refl [simp, intro]: "podWritesAre P s s"
  by (auto simp: podWritesAre_def intro!: exI [of _ "[]"])

lemma podWritesAre_trans: "podWritesAre P s s' \<Longrightarrow> podWritesAre P s' s'' \<Longrightarrow> podWritesAre P s s''"
  unfolding podWritesAre_def by (metis podSteps_trans list_all_append)

lemma writes_podWritesAre: "writes P s s' \<Longrightarrow> podWritesAre P s s'"
  by (auto simp: writes_def podWritesAre_def does_def)

lemma podWritesAre_expectations [simp]:
  "podWritesAre P s (s'\<lparr>expectations := x\<rparr>) = podWritesAre P s s'"
  by (simp add: podWritesAre_def)

definition outdated :: "rollout \<Rightarrow> pod \<Rightarrow> bool" where
  "outdated u p \<longleftrightarrow> getPodRevision p \<noteq> updateName u \<and> \<not> isTerminating p"

definition disrupts :: "rollout \<Rightarrow> pod list \<Rightarrow> int \<Rightarrow> podOp list \<Rightarrow> bool" where
  "disrupts u rs t ops \<longleftrightarrow> 0 \<le> t \<and> outdated u (rs ! nat t)
     \<and> deletes ops \<in> {[], [podKey (rs ! nat t)]} \<and> creates ops = []"

text \<open>A condition update leaves key and revision of the caller's pod alone.\<close>

definition keepsIdentity :: "'w statefulPodControlInterface \<Rightarrow> bool" where
  "keepsIdentity pc \<longleftrightarrow> (\<forall>sts p c s err p' s'.
     UpdateStatefulPodCondition pc sts p c s = Some (err, p', s') \<longrightarrow> sameIdentity p p')"

section \<open>One pod\<close>

context stateful_pod_control
begin

lemma inPlaceUpdatePod_writes:
  assumes "inPlaceUpdatePod pc sts p spec s = Some (err, p', s')"
  shows "podWritesAre touches s s'"
proof -
  from assms obtain cerr p1 s1 where c: "UpdateStatefulPodCondition pc sts p startInPlaceCondition s = Some (cerr, p1, s1)"
    by (auto simp: inPlaceUpdatePod_def split: option.splits)
  from condition_writes [OF c] have c1: "podWritesAre touches s s1"
    by (intro writes_podWritesAre writes_touches)
  have "podWritesAre touches s s2" if "InPlaceUpdateStatefulPod pc sts p1 spec s1 = Some (x, s2)" for x s2
    using c1 inPlace_writes [OF that] by (blast intro: podWritesAre_trans writes_podWritesAre writes_touches)
  with assms c c1 show ?thesis
    by (auto simp: inPlaceUpdatePod_def split: option.splits)
qed

lemma inPlaceUpdatePod_identity:
  assumes "keepsIdentity pc"
    and "inPlaceUpdatePod pc sts p spec s = Some (err, p', s')"
  shows "sameIdentity p p'"
  using assms unfolding keepsIdentity_def inPlaceUpdatePod_def
  by (auto split: option.splits) blast+

lemma tryInPlace_spec:
  assumes "keepsIdentity pc"
    and "tryInPlace e pc u p nc s = Some (b, skip, p', s')"
  shows "podWritesAre touches s s' \<and> sameIdentity p p'"
proof -
  have ip: "podWritesAre touches s t \<and> sameIdentity p q"
    if "inPlaceUpdatePod pc (ro_set u) p spec s = Some (err, q, t)" for spec err q t
    using that inPlaceUpdatePod_writes inPlaceUpdatePod_identity [OF assms(1)] by blast
  from assms(2) show ?thesis
    by (auto simp: tryInPlace_def split: option.splits bool.splits if_splits dest!: ip)
qed

lemma updateTarget_cases:
  assumes id: "keepsIdentity pc"
    and run: "updateTarget e pc u p st s = Some (fl, un, p', st', s')"
  obtains (same) "\<not> outdated u p" "fl = Next" "p' = p" "st' = st" "s' = s"
  | (upd) ops del where "outdated u p" "un" "podSteps s (ops @ del) s'" "list_all touches ops"
      "del = [] \<or> del = [PodDelete (podKey p)]"
proof (cases "outdated u p")
  case False
  with run show ?thesis by (intro same) (auto simp: updateTarget_def outdated_def Let_def)
next
  case True
  with run have o: "updateOutdated e pc u p (checkInPlaceUpdateCompleted (codec e) p) st s = Some (fl, p', st', s')"
    and un: "un = (getPodRevision p' \<noteq> updateName u \<or> \<not> isHealthy (core e) p'
      \<or> checkInPlaceUpdateCompleted (codec e) p \<noteq> None)"
    by (auto simp: updateTarget_def outdated_def Let_def split: option.splits)
  from o obtain b skip p1 s1 where t: "tryInPlace e pc u p (checkInPlaceUpdateCompleted (codec e) p) s = Some (b, skip, p1, s1)"
    by (auto simp: updateOutdated_def split: option.splits)
  from tryInPlace_spec [OF id t] obtain ops where ops: "podSteps s ops s1" "list_all touches ops"
    and p1: "sameIdentity p p1" by (auto simp: podWritesAre_def)
  obtain derr s2 where d: "DeleteStatefulPod pc (ro_set u) p1 s1 = (derr, s2)" by fastforce
  from delete_does [OF d] p1 have d1: "podSteps s1 [PodDelete (podKey p)] s2" by (simp add: does_def sameIdentity_def)
  from o t d have p': "p' = p1" and s': "s' = (if b then s1 else s2)"
    by (auto simp: updateOutdated_def split: if_splits option.splits)
  from p1 p' True un have "un" by (simp add: sameIdentity_def outdated_def)
  show ?thesis
  proof (cases b)
    case True
    with upd [of ops "[]"] \<open>outdated u p\<close> \<open>un\<close> ops s' show ?thesis by simp
  next
    case False
    with upd [of ops "[PodDelete (podKey p)]"] \<open>outdated u p\<close> \<open>un\<close> ops s' podSteps_trans [OF ops(1) d1]
    show ?thesis by simp
  qed
qed

section \<open>The loop\<close>

text \<open>
  The pods written are those of the disrupted targets \<open>ts\<close>, in the order of the targets; each of them is
  outdated, and there are at most as many as may become unavailable.
\<close>

lemma updateLoop_ops:
  assumes id: "keepsIdentity pc"
    and "updateLoop e pc u m targets rs un st s = Some (err, rs', st', s')" and "distinct targets"
  shows "\<exists>ts opss. subseq ts targets \<and> podSteps s (concat opss) s'
    \<and> list_all2 (disrupts u rs) ts opss
    \<and> int (length ts) \<le> max 1 (m - un)"
  using assms(2,3)
proof (induction targets arbitrary: rs un st s)
  case Nil
  then show ?case by (auto intro!: exI [of _ "[]"])
next
  case (Cons t targets)
  from Cons.prems(1) obtain fl b p st1 s1 where t0: "0 \<le> t"
    and step: "updateTarget e pc u (rs ! nat t) st s = Some (fl, b, p, st1, s1)"
    by (auto split: if_splits option.splits)
  let ?rs = "rs[nat t := p]"
  have stays: "list_all2 (disrupts u rs) ts opss"
    if l: "list_all2 (disrupts u ?rs) ts opss" and ss: "subseq ts targets" for ts opss
  proof -
    have "?rs ! nat x = rs ! nat x" if "x \<in> List.set ts" "0 \<le> x" for x
    proof -
      from ss that(1) have "x \<in> List.set targets" by (auto elim: list_emb_set)
      with Cons.prems(2) that(2) t0 have "nat x \<noteq> nat t" by (auto simp: eq_nat_nat_iff)
      then show ?thesis by simp
    qed
    with l show ?thesis by (elim list.rel_mono_strong) (auto simp: disrupts_def)
  qed
  from id step show ?case
  proof (cases rule: updateTarget_cases)
    case same
    define un' where "un' = (if b then un + 1 else un)"
    have rs': "?rs = rs" using same by (cases "nat t < length rs") (auto simp: list_update_beyond)
    show ?thesis
    proof (cases "m \<le> un'")
      case True
      with Cons.prems step t0 same have "s' = s" by (simp add: Let_def un'_def)
      then show ?thesis by (auto intro!: exI [of _ "[]"])
    next
      case False
      with Cons.prems step t0 same rs' have
        "updateLoop e pc u m targets rs un' st s = Some (err, rs', st', s')" by (simp add: Let_def un'_def)
      from Cons.IH [OF this] Cons.prems(2) obtain ts opss where ih: "subseq ts targets" "podSteps s (concat opss) s'"
        "list_all2 (disrupts u rs) ts opss"
        "int (length ts) \<le> max 1 (m - un')" by auto
      moreover have "max 1 (m - un') \<le> max 1 (m - un)" by (auto simp: un'_def max_def)
      ultimately show ?thesis by (intro exI [of _ ts] exI [of _ opss]) auto
    qed
  next
    case (upd ops del)
    then have here: "disrupts u rs t (ops @ del)"
      using t0 by (auto simp: disrupts_def)
    show ?thesis
    proof (cases "fl \<noteq> Next \<or> m \<le> un + 1")
      case True
      with Cons.prems step t0 upd(2) have "s' = s1" by (cases fl) (auto simp: Let_def split: if_splits)
      with upd here show ?thesis by (intro exI [of _ "[t]"] exI [of _ "[ops @ del]"]) auto
    next
      case False
      with Cons.prems step t0 upd(2) have
        "updateLoop e pc u m targets ?rs (un + 1) st1 s1 = Some (err, rs', st', s')" by (simp add: Let_def)
      from Cons.IH [OF this] Cons.prems(2) obtain ts opss where ih: "subseq ts targets" "podSteps s1 (concat opss) s'"
        "list_all2 (disrupts u ?rs) ts opss"
        "int (length ts) \<le> max 1 (m - (un + 1))" by auto
      from podSteps_trans [OF upd(3) ih(2)] stays [OF ih(3,1)] ih(1,4) here False show ?thesis
        by (intro exI [of _ "t # ts"] exI [of _ "(ops @ del) # opss"]) auto
    qed
  qed
qed

end

end
