(* ===== verification/SetSafety.thy ===== *)
theory SetSafety
  imports UpdateSafety
begin

text \<open>
  The guarantees of a whole \<open>updateStatefulSet\<close>: how the pods are classified and counted, the abstract
  specification \<open>orderly\<close> of what one round may write in monotonic mode with the refinement lemma, what a burst
  round writes, and when a round does not panic.
\<close>

section \<open>Classification\<close>

text \<open>The listed pod at an ordinal: the last one of the list, as later pods overwrite earlier ones.\<close>

definition podAt :: "pod list \<Rightarrow> nat \<Rightarrow> pod option" where
  "podAt pods i = find (\<lambda>p. getOrdinal p = int i) (rev pods)"

lemma find_SomeD: "find P xs = Some x \<Longrightarrow> x \<in> List.set xs \<and> P x"
  by (induction xs) (auto split: if_splits)

lemma podAt_Some: "podAt pods i = Some p \<Longrightarrow> p \<in> List.set pods \<and> getOrdinal p = int i"
  unfolding podAt_def by (drule find_SomeD) simp

lemma podAt_None: "podAt pods i = None \<longleftrightarrow> (\<forall>p \<in> List.set pods. getOrdinal p \<noteq> int i)"
  by (auto simp: podAt_def find_None_iff)

lemma find_append: "find P (xs @ ys) = (case find P xs of None \<Rightarrow> find P ys | Some x \<Rightarrow> Some x)"
  by (induction xs) auto

lemma partitionPods_slots:
  assumes "partitionPods L c r (int (length slots)) pods st (slots, cond) = (st', slots', cond')"
  shows "cond' = cond @ filter (\<lambda>p. int (length slots) \<le> getOrdinal p) pods \<and> length slots' = length slots
    \<and> (\<forall>i < length slots. slots' ! i = (case podAt pods i of None \<Rightarrow> slots ! i | Some p \<Rightarrow> Some p))"
  using assms
proof (induction pods arbitrary: st slots cond)
  case Nil
  then show ?case by (simp add: podAt_def)
next
  case (Cons p pods)
  obtain slots1 cond1 where pl: "placePod (int (length slots)) p (slots, cond) = (slots1, cond1)" by fastforce
  have len: "length slots1 = length slots" using pl by (auto simp: placePod_def Let_def split: if_splits)
  have at: "slots1 ! i = (if getOrdinal p = int i then Some p else slots ! i)" if "i < length slots" for i
    using pl that by (auto simp: placePod_def Let_def nth_list_update split: if_splits)
  have cond1: "cond1 = cond @ filter (\<lambda>p. int (length slots) \<le> getOrdinal p) [p]"
    using pl by (auto simp: placePod_def Let_def split: if_splits)
  from Cons.prems pl len have "partitionPods L c r (int (length slots1)) pods (countPod L c r p st) (slots1, cond1)
      = (st', slots', cond')" by simp
  from Cons.IH [OF this] len at cond1 show ?case
    by (auto simp: podAt_def find_append split: option.splits)
qed

definition countWhere :: "(pod \<Rightarrow> bool) \<Rightarrow> pod list \<Rightarrow> int32" where
  "countWhere P pods = of_nat (length (filter P pods))"

lemma countWhere_simps [simp]:
  "countWhere P [] = 0" "countWhere P (p # ps) = (if P p then 1 else 0) + countWhere P ps"
  by (simp_all add: countWhere_def)

definition counted :: "pod \<Rightarrow> bool" where
  "counted p \<longleftrightarrow> isCreated p \<and> \<not> isTerminating p"

lemma partitionPods_counts:
  assumes "partitionPods L c r n pods st rc = (st', rc')"
  shows "st_Replicas st' = st_Replicas st + of_nat (length pods)
    \<and> ReadyReplicas st' = ReadyReplicas st + countWhere (isRunningAndReady L) pods
    \<and> CurrentReplicas st' = CurrentReplicas st + countWhere (\<lambda>p. counted p \<and> getPodRevision p = c) pods
    \<and> UpdatedReplicas st' = UpdatedReplicas st + countWhere (\<lambda>p. counted p \<and> getPodRevision p = r) pods
    \<and> ObservedGeneration st' = ObservedGeneration st \<and> CurrentRevision st' = CurrentRevision st
    \<and> UpdateRevision st' = UpdateRevision st \<and> CollisionCount st' = CollisionCount st
    \<and> st_Conditions st' = st_Conditions st"
  using assms
proof (induction pods arbitrary: st rc)
  case Nil
  then show ?case by simp
next
  case (Cons p pods)
  from Cons.prems have "partitionPods L c r n pods (countPod L c r p st) (placePod n p rc) = (st', rc')" by simp
  note ih = Cons.IH [OF this]
  show ?case
    unfolding ih
    by (simp add: ih countPod_def addRevisionCount_def counted_def Let_def)
qed

lemma fillReplicas_nth:
  assumes "fillReplicas e u i slots = Some rs"
  shows "length rs = length slots \<and> (\<forall>j < length slots.
    case slots ! j of Some p \<Rightarrow> rs ! j = p | None \<Rightarrow> newPod e u (i + j) = Some (rs ! j))"
  using assms
proof (induction slots arbitrary: i rs)
  case Nil
  then show ?case by simp
next
  case (Cons r slots)
  then obtain p ps where p: "case r of Some p' \<Rightarrow> p = p' | None \<Rightarrow> newPod e u i = Some p"
    "fillReplicas e u (Suc i) slots = Some ps" "rs = p # ps"
    by (auto simp: bind_eq_Some_conv split: option.splits)
  from Cons.IH [OF p(2)] p show ?case
    by (auto simp: nth_Cons split: nat.splits option.splits)
qed

text \<open>The replicas the loops work on.\<close>

definition replicasOf :: "'w k8s \<Rightarrow> rollout \<Rightarrow> pod list \<Rightarrow> pod list \<Rightarrow> bool" where
  "replicasOf e u pods rs \<longleftrightarrow> (\<forall>i < length rs.
     podAt pods i = Some (rs ! i) \<or> podAt pods i = None \<and> newPod e u i = Some (rs ! i))"

definition condemnedOf :: "'w k8s \<Rightarrow> int \<Rightarrow> pod list \<Rightarrow> pod list" where
  "condemnedOf e n pods = lib_Sort (core e) getOrdinal (filter (\<lambda>p. n \<le> getOrdinal p) pods)"

lemma updateReplicas_cases:
  assumes "updateReplicas e pc u cc pods s = Some (err, pods', st, s')"
  obtains n st0 rs first where "Replicas (set_Spec (ro_set u)) = Some n" "0 \<le> sint n"
    "length rs = nat (sint n)" "replicasOf e u pods rs"
    "st0 = fst (partitionPods (core e) (currentName u) (updateName u) (sint n) pods
        (initialStatus (ro_set u) (currentName u) (updateName u) cc) (replicate (nat (sint n)) None, []))"
    "snd (snd (findUnhealthy (core e) rs (condemnedOf e (sint n) pods))) = first"
    "if DeletionTimestamp (set_Meta (ro_set u)) \<noteq> None then err = None \<and> st = st0 \<and> s' = s \<and> pods' = pods
     else \<exists>rs'. managePods e pc u rs (condemnedOf e (sint n) pods) first st0 s = Some (err, rs', st, s')
            \<and> pods' = refreshPods rs' pods"
proof -
  from assms obtain n where n: "Replicas (set_Spec (ro_set u)) = Some n" "0 \<le> sint n"
    by (auto simp: updateReplicas_def bind_eq_Some_conv Let_def split: if_splits)
  obtain st0 slots cond where part: "partitionPods (core e) (currentName u) (updateName u) (sint n) pods
        (initialStatus (ro_set u) (currentName u) (updateName u) cc) (replicate (nat (sint n)) None, [])
      = (st0, slots, cond)" by (metis prod_cases3)
  have slots: "cond = filter (\<lambda>p. sint n \<le> getOrdinal p) pods" "length slots = nat (sint n)"
    "\<forall>i < nat (sint n). slots ! i = podAt pods i"
    using partitionPods_slots [of "core e" "currentName u" "updateName u" "replicate (nat (sint n)) None" pods
        "initialStatus (ro_set u) (currentName u) (updateName u) cc" "[]" st0 slots cond] part n
    by (auto split: option.splits)
  from assms n part obtain rs where fill: "fillReplicas e u 0 slots = Some rs"
    by (auto simp: updateReplicas_def bind_eq_Some_conv Let_def)
  from fillReplicas_nth [OF fill] slots have len: "length rs = nat (sint n)" and rs: "replicasOf e u pods rs"
    by (auto simp: replicasOf_def split: option.splits) (metis not_None_eq option.inject)+
  obtain un fo first where fu: "findUnhealthy (core e) rs (condemnedOf e (sint n) pods) = (un, fo, first)"
    by (metis prod_cases3)
  have res: "if DeletionTimestamp (set_Meta (ro_set u)) \<noteq> None then err = None \<and> st = st0 \<and> s' = s \<and> pods' = pods
     else \<exists>rs'. managePods e pc u rs (condemnedOf e (sint n) pods) first st0 s = Some (err, rs', st, s')
            \<and> pods' = refreshPods rs' pods"
    using assms n part fill fu slots(1)
    by (auto simp: updateReplicas_def bind_eq_Some_conv condemnedOf_def split: if_splits)
  show ?thesis
    by (rule that [OF n len rs, of st0 first]) (use part fu res in auto)
qed

section \<open>The specification of a monotonic round\<close>

text \<open>
  The documented promise of the default policy: scale up in ordinal order, one pod at a time, nothing new while
  a predecessor is not ready; terminate from the highest ordinal down; update only when scaling is done, from the
  highest ordinal down to the partition and within the unavailability budget. \<open>orderly e u replicas condemned
  cache ops\<close> allows exactly such writes \<open>ops\<close>.
\<close>

inductive orderly ::
  "'w k8s \<Rightarrow> rollout \<Rightarrow> pod list \<Rightarrow> pod list \<Rightarrow> controllerCache \<Rightarrow> podOp list \<Rightarrow> bool"
  for e u rs condemned cache where
  touch: "list_all touches ops \<Longrightarrow> orderly e u rs condemned cache ops"
| scale_up: "list_all touches ops \<Longrightarrow> i < length rs \<Longrightarrow> \<forall>j < i. settled e (rs ! j) \<Longrightarrow>
    replaces e u i (rs ! i) rep \<Longrightarrow> orderly e u rs condemned cache (ops @ rep)"
| scale_down: "list_all touches ops \<Longrightarrow> \<forall>j < length rs. settled e (rs ! j) \<Longrightarrow> condemned \<noteq> [] \<Longrightarrow>
    \<not> isTerminating (last condemned) \<Longrightarrow>
    orderly e u rs condemned cache (ops @ [PodDelete (podKey (last condemned))])"
| update: "list_all touches ops \<Longrightarrow> \<forall>j < length rs. settled e (rs ! j) \<Longrightarrow> condemned = [] \<Longrightarrow>
    updateBounds e u (int (length rs)) cache = Some (UpdateFrom updateMin maxUnavailable) \<Longrightarrow>
    list_all2 sameIdentity rs qs \<Longrightarrow> subseq ts (rev [updateMin .. int (length rs) - 1]) \<Longrightarrow>
    list_all2 (disrupts u qs) ts opss \<Longrightarrow> int (length ts) \<le> max 1 maxUnavailable \<Longrightarrow>
    orderly e u rs condemned cache (ops @ concat opss)"

context stateful_pod_control
begin

lemma examineReplica_identity:
  assumes "keepsIdentity pc" and "isCreated p" and "examineReplica e pc u p st s = Some (fl, q, st', s')"
  shows "sameIdentity p q"
proof -
  have mark: "sameIdentity p r" if "markInPlaceReady e pc u p s = Some (err, r, t)" for err r t
    using that assms(1) unfolding markInPlaceReady_def keepsIdentity_def by (metis Pair_inject option.inject sameIdentity_refl)
  from assms(2,3) show ?thesis
    by (auto simp: examineReplica_def split: if_splits option.splits dest!: enforceInvariants_writes intro: mark)
qed

lemma replicaLoop_identity:
  assumes "fresh_pods (core e)" and "keepsIdentity pc" and "monotonic u"
    and "replicaLoop e pc u ex ps st s = Some (Next, rs, st', s')"
  shows "\<exists>qs. rs = ex @ qs \<and> list_all2 sameIdentity ps qs"
  using assms(4)
proof (induction ps arbitrary: ex st s)
  case Nil
  then show ?case by simp
next
  case (Cons p ps)
  from Cons.prems obtain f1 q st1 s1 where step: "replicaStep e pc u (length ex) p st s = Some (f1, q, st1, s1)"
    by (auto split: option.splits)
  with Cons.prems have f1: "f1 = Next" by (cases f1) auto
  with Cons.prems step have "replicaLoop e pc u (ex @ [q]) ps st1 s1 = Some (Next, rs, st', s')" by simp
  from Cons.IH [OF this] obtain qs where qs: "rs = ex @ q # qs" "list_all2 sameIdentity ps qs" by auto
  from replicaStep_ops [OF assms(1) step] f1 assms(3) have "settled e p" by blast
  with step have "examineReplica e pc u p st s = Some (f1, q, st1, s1)"
    by (auto simp: replicaStep_def recreateFailed_def settled_def)
  with examineReplica_identity [OF assms(2)] \<open>settled e p\<close> have "sameIdentity p q" by (auto simp: settled_def)
  with qs show ?case by auto
qed

lemma rollingUpdate_cases:
  assumes "keepsIdentity pc" and "rollingUpdate e pc u rs st s = Some (err, rs', st', s')"
  obtains (none) er where "updateBounds e u (int (length rs)) (expectations s) = Some (NoUpdate er)"
      "err = er" "st' = st" "s' = s" "rs' = rs"
  | (some) updateMin maxUnavailable ts opss where
      "updateBounds e u (int (length rs)) (expectations s) = Some (UpdateFrom updateMin maxUnavailable)"
      "subseq ts (rev [updateMin .. int (length rs) - 1])" "podSteps s (concat opss) s'"
      "list_all2 (disrupts u rs) ts opss" "int (length ts) \<le> max 1 maxUnavailable"
proof -
  from assms(2) obtain b where b: "updateBounds e u (int (length rs)) (expectations s) = Some b"
    by (auto simp: rollingUpdate_def split: option.splits)
  show ?thesis
  proof (cases b)
    case (NoUpdate er)
    with assms(2) b show ?thesis by (intro none) (auto simp: rollingUpdate_def)
  next
    case (UpdateFrom m mu)
    with assms(2) b have "updateLoop e pc u mu (rev [m .. int (length rs) - 1]) rs 0 st s = Some (err, rs', st', s')"
      by (simp add: rollingUpdate_def)
    from updateLoop_ops [OF assms(1) this] obtain ts opss where
      "subseq ts (rev [m .. int (length rs) - 1])" "podSteps s (concat opss) s'"
      "list_all2 (disrupts u rs) ts opss" "int (length ts) \<le> max 1 mu" by auto
    with b UpdateFrom show ?thesis by (intro some) auto
  qed
qed

lemma managePods_orderly:
  assumes "fresh_pods (core e)" and "keepsIdentity pc" and "monotonic u"
    and run: "managePods e pc u rs condemned first st s = Some (err, rs', st', s')"
  shows "\<exists>ops. podSteps s ops s' \<and> orderly e u rs condemned (expectations s) ops"
proof -
  from run obtain fl qs st1 s1 where loop: "replicaLoop e pc u [] rs st s = Some (fl, qs, st1, s1)"
    by (auto simp: managePods_def split: option.splits)
  from replicaLoop_monotonic [OF assms(1,3) loop] obtain ops rep k where
    r: "does s (ops @ rep) s1" "list_all touches ops" "k \<le> length rs" "\<forall>j < k. settled e (rs ! j)"
      "if k < length rs then replaces e u k (rs ! k) rep else rep = []" "fl = Next \<longrightarrow> k = length rs"
    unfolding list.size add_0 by blast
  show ?thesis
  proof (cases fl)
    case (Return er)
    with run loop have "s' = s1" by (simp add: managePods_def)
    moreover have "orderly e u rs condemned (expectations s) (ops @ rep)"
      using r by (cases "k < length rs") (auto intro: orderly.intros)
    ultimately show ?thesis using r by (auto simp: does_def)
  next
    case Next
    with r have r': "does s ops s1" "\<forall>j < length rs. settled e (rs ! j)" by auto
    obtain fc st2 s2 where c: "condemnedLoop e pc u first (rev (enumerate 0 condemned)) st1 s1 = (fc, st2, s2)"
      by (metis prod_cases3)
    have xs: "map snd (rev (enumerate 0 condemned)) = rev condemned" by (simp add: rev_map [symmetric])
    show ?thesis
    proof (cases "condemned = []")
      case False
      then have ne: "enumerate 0 condemned \<noteq> []" by (metis length_0_conv length_enumerate)
      from False have hd: "snd (hd (rev (enumerate 0 condemned))) = last condemned"
        using xs by (metis hd_map hd_rev map_is_Nil_conv rev_is_Nil_conv)
      from condemnedLoop_ops [OF c] assms(3) False obtain ys where
        y: "does s1 (deletions ys) s2" "ys = [] \<or> ys = [last condemned]" "\<forall>p \<in> List.set ys. \<not> isTerminating p"
          "fc \<noteq> Next"
        by (auto simp: hd xs ne)
      with run loop Next c have "s' = s2" by (auto simp: managePods_def split: flow.splits)
      with does_trans [OF r'(1) y(1)] y(2,3) r(2) r'(2) False show ?thesis
        by (fastforce simp: does_def intro: orderly.touch orderly.scale_down)
    next
      case True
      with run loop Next have ru: "rollingUpdate e pc u qs st1 s1 = Some (err, rs', st', s')"
        by (simp add: managePods_def)
      from replicaLoop_identity [OF assms(1-3)] loop Next have qs: "list_all2 sameIdentity rs qs" by fastforce
      then have len: "length qs = length rs" by (simp add: list_all2_lengthD)
      from r'(1) have "podSteps s ops s1" "expectations s1 = expectations s" by (auto simp: does_def)
      note before = this
      from assms(2) ru show ?thesis
      proof (cases rule: rollingUpdate_cases)
        case none
        with before r(2) show ?thesis by (auto intro: orderly.touch)
      next
        case (some m mu ts opss)
        have "orderly e u rs condemned (expectations s) (ops @ concat opss)"
          using some before len by (intro orderly.update [OF r(2) r'(2) True _ qs]) auto
        with podSteps_trans [OF before(1) some(3)] show ?thesis by blast
      qed
    qed
  qed
qed

end

section \<open>What the specification gives\<close>

lemma orderly_creates:
  assumes "orderly e u rs condemned cache ops"
  shows "length (creates ops) \<le> 1"
    and "k \<in> List.set (creates ops) \<Longrightarrow> last ops = PodCreate k \<and> (\<exists>i < length rs. (\<forall>j < i. settled e (rs ! j))
      \<and> (\<not> isCreated (rs ! i) \<and> k = podKey (rs ! i) \<or> isFailed (rs ! i) \<and> (\<exists>q. newPod e u i = Some q \<and> k = podKey q)))"
proof -
  have no: "creates (concat opss) = []" if "list_all2 (disrupts u qs) ts opss" for qs ts opss
    using that by (induction rule: list_all2_induct) (auto simp: disrupts_def)
  have "length (creates ops) \<le> 1 \<and> (\<forall>k \<in> List.set (creates ops). last ops = PodCreate k
      \<and> (\<exists>i < length rs. (\<forall>j < i. settled e (rs ! j))
      \<and> (\<not> isCreated (rs ! i) \<and> k = podKey (rs ! i) \<or> isFailed (rs ! i) \<and> (\<exists>q. newPod e u i = Some q \<and> k = podKey q))))"
    using assms
  proof cases
    case (scale_up ops' i rep)
    then show ?thesis by (auto elim!: replacesE)
  qed (auto simp: no)
  then show "length (creates ops) \<le> 1"
    and "k \<in> List.set (creates ops) \<Longrightarrow> last ops = PodCreate k \<and> (\<exists>i < length rs. (\<forall>j < i. settled e (rs ! j))
      \<and> (\<not> isCreated (rs ! i) \<and> k = podKey (rs ! i) \<or> isFailed (rs ! i) \<and> (\<exists>q. newPod e u i = Some q \<and> k = podKey q)))"
    by blast+
qed

text \<open>The reasons for which a monotonic round may delete a pod.\<close>

definition deletable :: "'w k8s \<Rightarrow> rollout \<Rightarrow> pod list \<Rightarrow> pod list \<Rightarrow> controllerCache \<Rightarrow> objectKey \<Rightarrow> bool" where
  "deletable e u rs condemned cache k \<longleftrightarrow>
     (\<exists>i < length rs. isFailed (rs ! i) \<and> k = podKey (rs ! i) \<and> (\<forall>j < i. settled e (rs ! j)))
     \<or> condemned \<noteq> [] \<and> k = podKey (last condemned) \<and> (\<forall>j < length rs. settled e (rs ! j))
     \<or> condemned = [] \<and> (\<forall>j < length rs. settled e (rs ! j))
        \<and> (\<exists>t updateMin maxUnavailable. updateBounds e u (int (length rs)) cache = Some (UpdateFrom updateMin maxUnavailable)
             \<and> updateMin \<le> int t \<and> t < length rs \<and> k = podKey (rs ! t) \<and> getPodRevision (rs ! t) \<noteq> updateName u)"

lemma disrupted_deletes:
  assumes "list_all2 (disrupts u qs) ts opss" and "k \<in> List.set (deletes (concat opss))"
  shows "\<exists>t \<in> List.set ts. 0 \<le> t \<and> k = podKey (qs ! nat t) \<and> getPodRevision (qs ! nat t) \<noteq> updateName u"
  using assms by (induction rule: list_all2_induct) (auto simp: disrupts_def outdated_def)

lemma disrupted_count: "list_all2 (disrupts u qs) ts opss \<Longrightarrow> length (deletes (concat opss)) \<le> length ts"
  by (induction rule: list_all2_induct) (auto simp: disrupts_def)

lemma orderly_deletes:
  assumes "orderly e u rs condemned cache ops" and "k \<in> List.set (deletes ops)"
  shows "deletable e u rs condemned cache k"
  using assms(1)
proof cases
  case touch
  with assms(2) show ?thesis by simp
next
  case (scale_up ops' i rep)
  with assms(2) show ?thesis by (auto simp: deletable_def elim!: replacesE)
next
  case (scale_down ops')
  with assms(2) show ?thesis by (auto simp: deletable_def)
next
  case (update ops' m mu qs ts opss)
  with assms(2) disrupted_deletes [OF update(8), of k] obtain t where
    t: "t \<in> List.set ts" "0 \<le> t" "k = podKey (qs ! nat t)" "getPodRevision (qs ! nat t) \<noteq> updateName u" by auto
  from update(7) t(1) have range: "m \<le> t" "t < int (length rs)" by (auto elim!: list_emb_set)
  with update(6) t(2) have "sameIdentity (rs ! nat t) (qs ! nat t)" by (auto intro: list_all2_nthD)
  with update t range show ?thesis unfolding deletable_def sameIdentity_def
    by (intro disjI2 conjI exI [of _ "nat t"] exI [of _ m] exI [of _ mu]) auto
qed

lemma orderly_few_deletes:
  assumes "orderly e u rs condemned cache ops"
  shows "length (deletes ops) \<le> 1 \<or> (\<exists>updateMin maxUnavailable.
    updateBounds e u (int (length rs)) cache = Some (UpdateFrom updateMin maxUnavailable)
    \<and> int (length (deletes ops)) \<le> maxUnavailable)"
  using assms
proof cases
  case (scale_up ops' i rep)
  then show ?thesis by (auto elim!: replacesE)
next
  case (update ops' m mu qs ts opss)
  with disrupted_count [OF update(8)] show ?thesis by (cases "mu \<le> 1") auto
qed auto

text \<open>A replica that is settled is a listed pod: a new one is not created yet.\<close>

lemma settled_listed:
  assumes "fresh_pods (core e)" and "replicasOf e u pods rs" and "i < length rs" and "settled e (rs ! i)"
  shows "\<exists>p \<in> List.set pods. getOrdinal p = int i \<and> settled e p"
proof -
  from assms(2,3) consider "podAt pods i = Some (rs ! i)" | "newPod e u i = Some (rs ! i)"
    unfolding replicasOf_def by blast
  then show ?thesis
  proof cases
    case 1
    with assms(4) show ?thesis by (auto dest: podAt_Some)
  next
    case 2
    from newVersioned_fresh(1) [OF assms(1) 2] assms(4) show ?thesis by (simp add: settled_def)
  qed
qed

lemma failed_listed:
  assumes "fresh_pods (core e)" and "replicasOf e u pods rs" and "p \<in> List.set rs" and "isFailed p"
  shows "p \<in> List.set pods"
proof -
  from assms(3) obtain i where i: "i < length rs" "p = rs ! i" by (metis in_set_conv_nth)
  with assms(2) consider "podAt pods i = Some p" | "newPod e u i = Some p" unfolding replicasOf_def by blast
  then show ?thesis
  proof cases
    case 1
    then show ?thesis by (auto dest: podAt_Some)
  next
    case 2
    from newVersioned_fresh(1) [OF assms(1) 2] assms(4) show ?thesis by (simp add: isCreated_def isFailed_def)
  qed
qed

section \<open>The start of a round\<close>

text \<open>
  What an \<open>UpdateStatefulSet\<close> works with is a function of the run: the revisions it lists and chooses, the two sets
  they give, and the state after the listed pods were observed, with the expectations of that moment. \<open>roundStart\<close> is
  \<open>None\<close> when the run ends before its replicas are updated.
\<close>

definition roundStart ::
  "'w k8s \<Rightarrow> 'w historyInterface \<Rightarrow> statefulSet \<Rightarrow> pod list \<Rightarrow> 'w sys \<Rightarrow> (rollout \<times> int32 \<times> 'w sys) option" where
  "roundStart e h sts pods s =
     (case ListRevisions e h sts s of
        (Inl err, s) \<Rightarrow> None
      | (Inr revisions, s) \<Rightarrow>
          (case getStatefulSetRevisions e h sts (lib_SortControllerRevisions (hist e) revisions) s of
             Some (Inr (current, update), cc, revisions, s) \<Rightarrow>
               (case (ApplyRevision (codec e) sts current, ApplyRevision (codec e) sts update) of
                  (Some (Inr currentSet), Some (Inr updateSet)) \<Rightarrow>
                    Some (\<lparr>ro_set = sts, ro_currentSet = currentSet, ro_updateSet = updateSet,
                       ro_currentRevision = current, ro_updateRevision = update, ro_revisions = revisions\<rparr>, cc,
                       observePods sts (revName update) pods s)
                | _ \<Rightarrow> None)
           | _ \<Rightarrow> None))"

section \<open>The control as a whole\<close>

locale stateful_set_control =
  stateful_pod_control pc + controller_history h + status_updater su
  for pc :: "'w statefulPodControlInterface" and h :: "'w historyInterface" and su :: "'w statusUpdaterInterface"
begin

lemma updateStatefulSetStatus_does:
  "updateStatefulSetStatus su sts st s = Some (err, s') \<Longrightarrow> does s [] s'"
  by (auto simp: updateStatefulSetStatus_def split: option.splits if_splits dest: upd_does)

text \<open>Outside \<open>updateStatefulSet\<close> no pod is written.\<close>

lemma UpdateStatefulSet_cases:
  assumes "UpdateStatefulSet e pc su h sts pods s = Some (err, s')"
  obtains (none) "podSteps s [] s'" "err \<noteq> None"
  | (upd) current update cc revisions s1 err1 pods1 st1 s2 where "podSteps s [] s1"
      "expectations s1 = fold (ObserveUpdated metaRevision (getStatefulSetKey sts) (revName update)) (map p_Meta pods)
         (expectations s)"
      "updateStatefulSet e pc sts current update cc pods revisions s1 = Some (err1, pods1, st1, s2)" "podSteps s2 [] s'"
      "err = None \<longrightarrow> err1 = None \<and> (\<exists>st s3. st1 = Some st \<and> updateStatefulSetStatus su sts st s2 = Some (None, s3)
         \<and> does s3 [] s')"
      "roundStart e h sts pods s = (case (ApplyRevision (codec e) sts current, ApplyRevision (codec e) sts update) of
         (Some (Inr cs), Some (Inr us)) \<Rightarrow> Some (\<lparr>ro_set = sts, ro_currentSet = cs, ro_updateSet = us,
            ro_currentRevision = current, ro_updateRevision = update, ro_revisions = revisions\<rparr>, cc, s1)
       | _ \<Rightarrow> None)"
proof -
  obtain lr s1 where l: "ListRevisions e h sts s = (lr, s1)" by fastforce
  from ListRevisions_does [OF l] have l1: "does s [] s1" .
  show ?thesis
  proof (cases lr)
    case (Inl er)
    with assms l l1 none show ?thesis by (auto simp: UpdateStatefulSet_def does_def)
  next
    case (Inr revs)
    with assms l obtain res cc revs' s2 where g: "getStatefulSetRevisions e h sts
        (lib_SortControllerRevisions (hist e) revs) s1 = Some (res, cc, revs', s2)"
      by (auto simp: UpdateStatefulSet_def split: option.splits)
    from does_nothing_trans [OF l1 getStatefulSetRevisions_does [OF g]] have g1: "does s [] s2" .
    show ?thesis
    proof (cases res)
      case (Inl er)
      with assms l Inr g g1 none show ?thesis by (auto simp: UpdateStatefulSet_def does_def)
    next
      case res: (Inr cu)
      obtain cur upd where cu: "cu = (cur, upd)" by fastforce
      define s3 where "s3 = observePods sts (revName upd) pods s2"
      from g1 have s3: "podSteps s [] s3" "expectations s3 = fold (ObserveUpdated metaRevision (getStatefulSetKey sts)
          (revName upd)) (map p_Meta pods) (expectations s)"
        by (simp_all add: s3_def observePods_def does_def)
      from assms l Inr g res cu obtain err1 pods1 st1 s4 where
        us: "updateStatefulSet e pc sts cur upd cc pods revs' s3 = Some (err1, pods1, st1, s4)"
        by (auto simp: UpdateStatefulSet_def s3_def split: option.splits)
      note run = assms [unfolded UpdateStatefulSet_def l Inr g res cu prod.case sum.case option.case s3_def [symmetric] us]
      have "podSteps s4 [] s'"
        using run by (auto simp: does_def split: option.splits
            dest!: truncateHistory_does updateStatefulSetStatus_does) (rule podSteps_trans0)
      moreover have "err = None \<longrightarrow> err1 = None \<and> (\<exists>st s5. st1 = Some st
          \<and> updateStatefulSetStatus su sts st s4 = Some (None, s5) \<and> does s5 [] s')"
        using run by (auto split: option.splits dest: truncateHistory_does)
      moreover from l Inr g res cu have "roundStart e h sts pods s
          = (case (ApplyRevision (codec e) sts cur, ApplyRevision (codec e) sts upd) of
               (Some (Inr cs), Some (Inr us)) \<Rightarrow> Some (\<lparr>ro_set = sts, ro_currentSet = cs, ro_updateSet = us,
                  ro_currentRevision = cur, ro_updateRevision = upd, ro_revisions = revs'\<rparr>, cc, s3)
             | _ \<Rightarrow> None)"
        unfolding s3_def by (simp add: roundStart_def)
      ultimately show ?thesis by (rule upd [OF s3 us])
    qed
  qed
qed

lemma UpdateStatefulSet_rounds:
  assumes "UpdateStatefulSet e pc su h sts pods s = Some (err, s')"
  obtains (none) "podSteps s [] s'" "err \<noteq> None"
  | (round) u cc s1 err1 pods1 st1 s2 where "podSteps s [] s1" "ro_set u = sts"
      "ApplyRevision (codec e) sts (ro_currentRevision u) = Some (Inr (ro_currentSet u))"
      "ApplyRevision (codec e) sts (ro_updateRevision u) = Some (Inr (ro_updateSet u))"
      "updateReplicas e pc u cc pods s1 = Some (err1, pods1, st1, s2)" "podSteps s2 [] s'"
      "expectations s1 = fold (ObserveUpdated metaRevision (getStatefulSetKey sts) (updateName u)) (map p_Meta pods)
         (expectations s)"
      "err = None \<longrightarrow> err1 = None \<and> (\<exists>s3. updateStatefulSetStatus su sts st1 s2 = Some (None, s3) \<and> does s3 [] s')"
      "roundStart e h sts pods s = Some (u, cc, s1)"
  using assms
proof (cases rule: UpdateStatefulSet_cases)
  case none
  then show ?thesis by (rule that(1))
next
  case (upd cur upd cc revs s1 err1 pods1 st1 s2)
  from upd(3) consider (err) "s2 = s1" "err1 \<noteq> None" | (ok) cs us st where
      "ApplyRevision (codec e) sts cur = Some (Inr cs)" "ApplyRevision (codec e) sts upd = Some (Inr us)" "st1 = Some st"
      "updateReplicas e pc \<lparr>ro_set = sts, ro_currentSet = cs, ro_updateSet = us, ro_currentRevision = cur,
         ro_updateRevision = upd, ro_revisions = revs\<rparr> cc pods s1 = Some (err1, pods1, st, s2)"
    by (auto simp: updateStatefulSet_def split: option.splits sum.splits)
  then show ?thesis
  proof cases
    case err
    with upd that(1) show ?thesis by (auto intro: podSteps_trans0)
  next
    case ok
    from that(2) [OF upd(1) _ _ _ ok(4) upd(4)] ok upd(2,5,6) show ?thesis by simp
  qed
qed

end

interpretation rsc: stateful_set_control "NewRealStatefulPodControl e" "realHistory e" "UpdateStatefulSetStatus e"
  for e :: "'w k8s"
  by unfold_locales

section \<open>Properties\<close>

text \<open>
  C15. Classifying the listed pods: the replica at an ordinal is the last listed pod with that ordinal, the condemned
  pods are those at ordinals beyond the replicas, in order, and pods without an ordinal are neither; and the status
  counts, modulo 2^32, all listed pods, those that are running and ready, and those created and not terminating that
  carry the current and the update revision.
\<close>

theorem pods_classified:
  assumes "partitionPods L cur upd (int n) pods (initialStatus sts cur upd cc) (replicate n None, [])
      = (st, replicas, condemned)"
  shows "condemned = filter (\<lambda>p. int n \<le> getOrdinal p) pods \<and> length replicas = n
    \<and> (\<forall>i < n. replicas ! i = podAt pods i)
    \<and> st = \<lparr>ObservedGeneration = Generation (set_Meta sts), st_Replicas = of_nat (length pods),
         ReadyReplicas = countWhere (isRunningAndReady L) pods,
         CurrentReplicas = countWhere (\<lambda>p. counted p \<and> getPodRevision p = cur) pods,
         UpdatedReplicas = countWhere (\<lambda>p. counted p \<and> getPodRevision p = upd) pods,
         CurrentRevision = cur, UpdateRevision = upd, CollisionCount = Some cc, st_Conditions = []\<rparr>"
  using partitionPods_counts [OF assms]
    partitionPods_slots [of L cur upd "replicate n None" pods "initialStatus sts cur upd cc" "[]" st replicas condemned] assms
  by (auto simp: initialStatus_def split: option.splits)

theorem pods_classified_witness:
  "ReadyReplicas (fst (partitionPods sampleCore ''r1'' ''r2'' 1 [samplePod ''web-0'' ''r1'' PodRunning,
     samplePod ''web-4'' ''r2'' PodRunning, samplePod ''web'' ''r2'' PodRunning] (initialStatus webSet ''r1'' ''r2'' 0) ([None], [])))
   = 3"
proof -
  let ?pods = "[samplePod ''web-0'' ''r1'' PodRunning, samplePod ''web-4'' ''r2'' PodRunning, samplePod ''web'' ''r2'' PodRunning]"
  obtain st rs cond where "partitionPods sampleCore ''r1'' ''r2'' (int 1) ?pods (initialStatus webSet ''r1'' ''r2'' 0)
      (replicate 1 None, []) = (st, rs, cond)" by (metis prod_cases3)
  moreover have "\<forall>p \<in> List.set ?pods. isRunningAndReady sampleCore p" by code_simp
  ultimately show ?thesis using pods_classified [of sampleCore "''r1''" "''r2''" 1 ?pods webSet 0 st rs cond]
    by (simp add: countWhere_def)
qed

end
