(* ===== verification/SetRounds.thy ===== *)
theory SetRounds
  imports SetSafety
begin

text \<open>
  What a round of \<open>updateStatefulSet\<close> is sure to do: which pods it may delete in either mode, what a burst round
  creates and deletes, what a monotonic round creates next, and when a round does not panic.
\<close>

section \<open>Deletions in either mode\<close>

definition noRollingUpdate :: "statefulSet \<Rightarrow> bool" where
  "noRollingUpdate sts \<longleftrightarrow> (\<exists>us. UpdateStrategy (set_Spec sts) = Some us \<and>
     (us_Type us = OnDeleteStatefulSetStrategyType \<or> (\<exists>ru. RollingUpdate us = Some ru \<and> Paused ru)))"

lemma noRollingUpdate_bounds:
  "noRollingUpdate (ro_set u) \<Longrightarrow> updateBounds e u n cache \<noteq> Some (UpdateFrom m mu)"
  by (auto simp: noRollingUpdate_def updateBounds_def split: option.splits sum.splits)

lemma unsatisfied_bounds:
  assumes "awaited cache (getStatefulSetKey (ro_set u)) (updateName u) \<noteq> {}"
  shows "updateBounds e u n cache \<noteq> Some (UpdateFrom m mu)"
  using assms real.satisfied_iff [of "getStatefulSetKey (ro_set u)" "updateName u" cache]
  by (auto simp: updateBounds_def split: option.splits sum.splits)

definition scalingDelete :: "'w k8s \<Rightarrow> pod list \<Rightarrow> pod list \<Rightarrow> objectKey \<Rightarrow> bool" where
  "scalingDelete e rs condemned k \<longleftrightarrow>
     (\<exists>p \<in> List.set rs. isFailed p \<and> k = podKey p) \<or> (\<exists>p \<in> List.set condemned. \<not> isTerminating p \<and> k = podKey p)"

lemma deletes_set: "k \<in> List.set (deletes ops) \<longleftrightarrow> PodDelete k \<in> List.set ops"
  by (induction ops rule: deletes.induct) auto

lemma creates_set: "k \<in> List.set (creates ops) \<longleftrightarrow> PodCreate k \<in> List.set ops"
  by (induction ops rule: creates.induct) auto

context stateful_pod_control
begin

lemma managePods_split:
  assumes "managePods e pc u rs condemned first st s = Some (err, rs', st', s')"
  obtains (stop) er qs where "replicaLoop e pc u [] rs st s = Some (Return er, qs, st', s')" "err = er"
  | (down) qs st1 s1 er where "replicaLoop e pc u [] rs st s = Some (Next, qs, st1, s1)"
      "condemnedLoop e pc u first (rev (enumerate 0 condemned)) st1 s1 = (Return er, st', s')" "err = er"
  | (roll) qs st1 s1 st2 s2 where "replicaLoop e pc u [] rs st s = Some (Next, qs, st1, s1)"
      "condemnedLoop e pc u first (rev (enumerate 0 condemned)) st1 s1 = (Next, st2, s2)"
      "rollingUpdate e pc u qs st2 s2 = Some (err, rs', st', s')"
proof -
  from assms obtain fl qs st1 s1 where l: "replicaLoop e pc u [] rs st s = Some (fl, qs, st1, s1)"
    by (auto simp: managePods_def split: option.splits)
  obtain fc st2 s2 where c: "condemnedLoop e pc u first (rev (enumerate 0 condemned)) st1 s1 = (fc, st2, s2)"
    by (metis prod_cases3)
  show ?thesis
  proof (cases fl)
    case (Return er)
    with assms l show ?thesis by (intro stop) (auto simp: managePods_def)
  next
    case Next
    show ?thesis
    proof (cases fc)
      case (Return er)
      with assms l Next c show ?thesis by (intro down) (auto simp: managePods_def)
    next
      case fc: Next
      with assms l Next c show ?thesis by (intro roll) (auto simp: managePods_def)
    qed
  qed
qed

lemma replicaLoop_deletes:
  assumes "fresh_pods (core e)" and "replicaLoop e pc u [] rs st s = Some (fl, qs, st', s')"
  shows "\<exists>ops. does s ops s' \<and> (\<forall>k \<in> List.set (deletes ops). scalingDelete e rs condemned k)"
proof -
  from replicaLoop_ops [OF assms] obtain ops where ops: "does s ops s'"
    "\<forall>op \<in> List.set ops. touches op \<or> (\<exists>j < length rs. replicaOp e u j (rs ! j) op)"
    unfolding list.size add_0 by blast
  have "scalingDelete e rs condemned k" if k: "k \<in> List.set (deletes ops)" for k
  proof -
    from k have in_ops: "PodDelete k \<in> List.set ops" by (simp only: deletes_set)
    have "\<not> touches (PodDelete k)" by simp
    with bspec [OF ops(2) in_ops] obtain j rep where
      j: "j < length rs" "replaces e u j (rs ! j) rep" "PodDelete k \<in> List.set rep"
      unfolding replicaOp_def by blast
    from j(2,3) have "isFailed (rs ! j) \<and> k = podKey (rs ! j)" by cases auto
    with nth_mem [OF j(1)] show ?thesis unfolding scalingDelete_def by blast
  qed
  with ops(1) show ?thesis by blast
qed

lemma condemnedLoop_deletes:
  assumes "condemnedLoop e pc u first (rev (enumerate 0 condemned)) st s = (fl, st', s')"
  shows "\<exists>ops. does s ops s' \<and> (\<forall>k \<in> List.set (deletes ops). scalingDelete e rs condemned k)"
proof -
  from condemnedLoop_ops [OF assms] obtain ys where ys: "subseq ys (map snd (rev (enumerate 0 condemned)))"
    "does s (deletions ys) s'" "\<forall>p \<in> List.set ys. \<not> isTerminating p" by blast
  from ys(1) have "List.set ys \<subseteq> List.set condemned"
    by (auto simp: rev_map [symmetric] elim!: list_emb_set)
  with ys show ?thesis by (intro exI [of _ "deletions ys"]) (auto simp: scalingDelete_def)
qed

lemma managePods_deletes:
  assumes "fresh_pods (core e)" and "keepsIdentity pc"
    and "managePods e pc u rs condemned first st s = Some (err, rs', st', s')"
    and "\<And>n m mu. updateBounds e u n (expectations s) \<noteq> Some (UpdateFrom m mu)"
  shows "\<exists>ops. podSteps s ops s' \<and> (\<forall>k \<in> List.set (deletes ops). scalingDelete e rs condemned k)"
  using assms(3)
proof (cases rule: managePods_split)
  case (stop er qs)
  from replicaLoop_deletes [OF assms(1) stop(1)] show ?thesis by (auto simp: does_def)
next
  case (down qs st1 s1 er)
  from replicaLoop_deletes [OF assms(1) down(1)] condemnedLoop_deletes [OF down(2)] show ?thesis
    by (fastforce simp: does_def dest: podSteps_trans)
next
  case (roll qs st1 s1 st2 s2)
  from replicaLoop_deletes [OF assms(1) roll(1), of condemned] obtain a where
    a: "does s a s1" "\<forall>k \<in> List.set (deletes a). scalingDelete e rs condemned k" by blast
  from condemnedLoop_deletes [OF roll(2), of rs] obtain b where
    b: "does s1 b s2" "\<forall>k \<in> List.set (deletes b). scalingDelete e rs condemned k" by blast
  from a b have "expectations s2 = expectations s" by (simp add: does_def)
  with assms(4) have no: "updateBounds e u n (expectations s2) \<noteq> Some (UpdateFrom m mu)" for n m mu by simp
  from assms(2) roll(3) have "s' = s2" by (cases rule: rollingUpdate_cases) (use no in auto)
  with a b podSteps_trans [of s a s1 b s2] show ?thesis by (intro exI [of _ "a @ b"]) (auto simp: does_def)
qed

section \<open>A burst round\<close>

lemma replicaLoop_burst_flow:
  assumes "\<not> monotonic u" and "replicaLoop e pc u ex rs st s = Some (fl, qs, st', s')"
  shows "fl = Next \<or> (\<exists>err. fl = Return (Some err))"
  using assms(2)
proof (induction rs arbitrary: ex st s)
  case Nil
  then show ?case by simp
next
  case (Cons p rs)
  have ex: "fl' = Next \<or> (\<exists>err. fl' = Return (Some err))"
    if "replicaStep e pc u i p st s = Some (fl', q, st1, s1)" for i fl' q st1 s1
    using that assms(1)
    by (auto simp: replicaStep_def recreateFailed_def examineReplica_def createReplica_def enforceInvariants_def
        Let_def split: if_splits option.splits prod.splits flow.splits)
  from Cons.prems obtain f1 q st1 s1 where step: "replicaStep e pc u (length ex) p st s = Some (f1, q, st1, s1)"
    by (auto split: option.splits)
  from ex [OF step] show ?case
  proof
    assume "f1 = Next"
    with Cons.prems step Cons.IH show ?thesis by auto
  next
    assume "\<exists>err. f1 = Return (Some err)"
    with Cons.prems step show ?thesis by auto
  qed
qed

lemma condemnedLoop_burst:
  assumes "\<not> monotonic u" and "condemnedLoop e pc u first xs st s = (fl, st', s')"
  shows "(\<exists>err. fl = Return (Some err))
    \<or> fl = Next \<and> does s (deletions (filter (\<lambda>p. \<not> isTerminating p) (map snd xs))) s'"
  using assms(2)
proof (induction xs arbitrary: st s)
  case Nil
  then show ?case by auto
next
  case (Cons x xs)
  obtain t p where x: "x = (t, p)" by fastforce
  obtain derr s1 where d: "DeleteStatefulPod pc (ro_set u) p s = (derr, s1)" by fastforce
  note d1 = delete_does [OF d]
  show ?case
  proof (cases "isTerminating p")
    case True
    with Cons assms(1) x show ?thesis by auto
  next
    case False
    show ?thesis
    proof (cases derr)
      case (Some err)
      with False Cons.prems x d assms(1) show ?thesis by auto
    next
      case None
      with False Cons.prems x d assms(1) obtain st1 where
        "condemnedLoop e pc u first xs st1 s1 = (fl, st', s')" by auto
      from Cons.IH [OF this] show ?thesis using does_trans [OF d1] False x by fastforce
    qed
  qed
qed

text \<open>A burst round that reports no error created every missing replica and deleted every condemned pod.\<close>

lemma managePods_burst:
  assumes "\<not> monotonic u" and "managePods e pc u rs condemned first st s = Some (None, rs', st', s')"
    and "keepsIdentity pc"
  shows "\<exists>ops. podSteps s ops s' \<and> (\<forall>p \<in> List.set rs. \<not> isCreated p \<longrightarrow> PodCreate (podKey p) \<in> List.set ops)
    \<and> (\<forall>p \<in> List.set condemned. \<not> isTerminating p \<longrightarrow> PodDelete (podKey p) \<in> List.set ops)"
  using assms(2)
proof (cases rule: managePods_split)
  case (stop er qs)
  with replicaLoop_burst_flow [OF assms(1) stop(1)] show ?thesis by auto
next
  case (down qs st1 s1 er)
  with condemnedLoop_burst [OF assms(1) down(2)] show ?thesis by auto
next
  case (roll qs st1 s1 st2 s2)
  from replicaLoop_does [OF roll(1)] obtain a where a: "does s a s1" by blast
  from condemnedLoop_burst [OF assms(1) roll(2)]
  have b: "does s1 (deletions (filter (\<lambda>p. \<not> isTerminating p) (rev condemned))) s2" by (simp add: rev_map [symmetric])
  obtain c where c: "podSteps s2 c s'"
    using assms(3) roll(3) by (cases rule: rollingUpdate_cases) (auto intro: podSteps_refl)
  from podSteps_trans [OF podSteps_trans c, of s a s1] a b
  have "podSteps s ((a @ deletions (filter (\<lambda>p. \<not> isTerminating p) (rev condemned))) @ c) s'"
    by (auto simp: does_def)
  with replicaLoop_burst [OF assms(1) roll(1) a] show ?thesis by fastforce
qed

end

section \<open>The next pod of a monotonic round\<close>

text \<open>A replica that the loop passes without any call.\<close>

definition steady :: "'w k8s \<Rightarrow> statefulSet \<Rightarrow> pod \<Rightarrow> bool" where
  "steady e sts p \<longleftrightarrow> isHealthy (core e) p \<and> \<not> shouldUpdateInPlaceReady (codec e) p
     \<and> identityMatches sts p \<and> storageMatches sts p"

lemma steady_state: "steady e sts p \<Longrightarrow> isCreated p \<and> \<not> isFailed p \<and> \<not> isTerminating p \<and> isRunningAndReady (core e) p"
  by (auto simp: steady_def isHealthy_def isRunningAndReady_def isCreated_def isFailed_def)

context stateful_pod_control
begin

lemma replicaStep_steady: "steady e (ro_set u) p \<Longrightarrow> replicaStep e pc u i p st s = Some (Next, p, st, s)"
  using steady_state [of e "ro_set u" p]
  by (simp add: replicaStep_def recreateFailed_def examineReplica_def markInPlaceReady_def enforceInvariants_def
      steady_def)

lemma replicaLoop_steady:
  "\<forall>p \<in> List.set ps. steady e (ro_set u) p \<Longrightarrow> replicaLoop e pc u ex ps st s = Some (Next, ex @ ps, st, s)"
  by (induction ps arbitrary: ex) (auto simp: replicaStep_steady)

lemma replicaLoop_next:
  assumes "monotonic u" and "k < length rs" and "\<forall>j < k. steady e (ro_set u) (rs ! j)" and "\<not> isCreated (rs ! k)"
    and "replicaLoop e pc u ex rs st s = Some (fl, qs, st', s')"
  shows "\<exists>er. fl = Return er \<and> (er = None \<longrightarrow> does s [PodCreate (podKey (rs ! k))] s')"
  using assms(2-5)
proof (induction rs arbitrary: k ex)
  case Nil
  then show ?case by simp
next
  case (Cons p rs)
  show ?case
  proof (cases k)
    case 0
    with Cons.prems(3) have p: "\<not> isCreated p" "\<not> isFailed p" by (auto simp: isCreated_def isFailed_def)
    with Cons.prems(4) obtain f1 q st1 s1 where c: "createReplica e pc u p st s = Some (f1, q, st1, s1)"
      by (auto simp: replicaStep_def recreateFailed_def examineReplica_def split: option.splits)
    from c show ?thesis
    proof (cases rule: createReplica_cases)
      case ok
      with Cons.prems(4) c p assms(1) 0 show ?thesis
        by (auto simp: replicaStep_def recreateFailed_def examineReplica_def)
    next
      case (err er ops)
      with Cons.prems(4) c p 0 show ?thesis
        by (auto simp: replicaStep_def recreateFailed_def examineReplica_def)
    qed
  next
    case (Suc m)
    with Cons.prems have "steady e (ro_set u) p" by (metis nth_Cons_0 zero_less_Suc)
    with Cons.prems(4) have "replicaLoop e pc u (ex @ [p]) rs st s = Some (fl, qs, st', s')"
      by (simp add: replicaStep_steady)
    moreover have "\<forall>j < m. steady e (ro_set u) (rs ! j)" using Cons.prems(2) Suc by auto
    ultimately show ?thesis using Cons.IH [of m "ex @ [p]"] Cons.prems(1,3) Suc by simp
  qed
qed

text \<open>Nothing is written when everything is as it should be.\<close>

lemma updateLoop_current:
  assumes "\<forall>p \<in> List.set rs. getPodRevision p = updateName u" and "\<forall>t \<in> List.set ts. t < int (length rs)"
    and "updateLoop e pc u m ts rs un st s = Some r"
  shows "r = (None, rs, st, s)"
  using assms(2,3)
proof (induction ts arbitrary: un)
  case Nil
  then show ?case by simp
next
  case (Cons t ts)
  show ?case
  proof (cases "t < 0")
    case True
    with Cons.prems show ?thesis by simp
  next
    case False
    with Cons.prems have "rs ! nat t \<in> List.set rs" by (simp add: nat_less_iff)
    with assms(1) have "getPodRevision (rs ! nat t) = updateName u" by blast
    with Cons False show ?thesis by (auto simp: updateTarget_def Let_def split: if_splits)
  qed
qed

lemma managePods_quiescent:
  assumes "\<forall>p \<in> List.set rs. steady e (ro_set u) p \<and> getPodRevision p = updateName u"
    and "managePods e pc u rs [] first st s = Some (err, rs', st', s')"
  shows "s' = s \<and> st' = st \<and> rs' = rs"
proof -
  from assms have ru: "rollingUpdate e pc u rs st s = Some (err, rs', st', s')"
    by (simp add: managePods_def replicaLoop_steady)
  then obtain b where b: "updateBounds e u (int (length rs)) (expectations s) = Some b"
    by (auto simp: rollingUpdate_def split: option.splits)
  show ?thesis
  proof (cases b)
    case (NoUpdate er)
    with ru b show ?thesis by (simp add: rollingUpdate_def)
  next
    case (UpdateFrom m mu)
    with ru b updateLoop_current [of rs u "rev [m .. int (length rs) - 1]"] assms(1) show ?thesis
      by (fastforce simp: rollingUpdate_def)
  qed
qed

end

section \<open>A round returns\<close>

text \<open>
  What the code dereferences or indexes without a check: the replicas, the strategy and its partition, the
  selector behind volume claims, the coordinates annotation.
\<close>

definition templateSafe :: "'w k8s \<Rightarrow> statefulSet \<Rightarrow> bool" where
  "templateSafe e sts \<longleftrightarrow> storageSafe sts \<and> coordinatesSafe e sts \<and> validName (setName sts)"

definition strategySafe :: "statefulSet \<Rightarrow> bool" where
  "strategySafe sts \<longleftrightarrow> (case UpdateStrategy (set_Spec sts) of None \<Rightarrow> False
     | Some us \<Rightarrow> (case RollingUpdate us of None \<Rightarrow> True
         | Some ru \<Rightarrow> (case Partition ru of None \<Rightarrow> False | Some part \<Rightarrow> 0 \<le> sint part)))"

definition recreatesPods :: "statefulSet \<Rightarrow> bool" where
  "recreatesPods sts \<longleftrightarrow> (\<forall>us ru. UpdateStrategy (set_Spec sts) = Some us \<longrightarrow> RollingUpdate us = Some ru \<longrightarrow>
     PodUpdatePolicy ru \<noteq> InPlaceIfPossiblePodUpdateStrategyType \<and> PodUpdatePolicy ru \<noteq> InPlaceOnlyPodUpdateStrategyType)"

definition rolloutSafe :: "'w k8s \<Rightarrow> rollout \<Rightarrow> bool" where
  "rolloutSafe e u \<longleftrightarrow> templateSafe e (ro_currentSet u) \<and> templateSafe e (ro_updateSet u)
     \<and> strategySafe (ro_currentSet u) \<and> storageSafe (ro_set u) \<and> strategySafe (ro_set u) \<and> recreatesPods (ro_set u)"

lemma newVersioned_returns:
  assumes "fresh_pods (core e)" and "rolloutSafe e u"
  shows "\<exists>p. newPod e u i = Some p"
proof -
  have "\<exists>b. usesCurrentRevision (ro_currentSet u) (int i) = Some b"
    using assms(2) by (auto simp: rolloutSafe_def strategySafe_def usesCurrentRevision_def split: option.splits)
  moreover have "\<exists>p. newStatefulSetPod e sts (int i) = Some p" if "sts \<in> {ro_currentSet u, ro_updateSet u}" for sts
    using that assms by (intro newStatefulSetPod_wf) (auto simp: rolloutSafe_def templateSafe_def)
  from this [of "ro_currentSet u"] this [of "ro_updateSet u"] obtain p q where "newStatefulSetPod e (ro_currentSet u) (int i) = Some p"
    "newStatefulSetPod e (ro_updateSet u) (int i) = Some q" by blast
  ultimately show ?thesis by (auto simp: newVersionedStatefulSetPod_def split: if_splits)
qed

lemma newVersioned_ordinal:
  assumes "fresh_pods (core e)" and "ranges_all (core e)" and "rolloutSafe e u" and "int i \<le> 2147483647"
    and "newPod e u i = Some p"
  shows "getOrdinal p = int i"
proof -
  have "getOrdinal (setPodRevision q r) = int i"
    if "newStatefulSetPod e sts (int i) = Some q" "validName (setName sts)" for sts q r
  proof -
    have v: "validOrdinal (int i)" using assms(4) by (simp add: validOrdinal_def)
    from newStatefulSetPod_spec(3) [OF assms(1,2) that(2) v that(1)] that(2) v
    show ?thesis by (simp add: getOrdinal_def getParentNameAndOrdinal_getPodName)
  qed
  with assms(3,5) show ?thesis
    by (auto simp: newVersionedStatefulSetPod_def bind_eq_Some_conv rolloutSafe_def templateSafe_def split: if_splits)
qed

lemma fillReplicas_returns:
  assumes "fresh_pods (core e)" and "rolloutSafe e u"
  shows "\<exists>rs. fillReplicas e u i slots = Some rs"
proof (induction slots arbitrary: i)
  case Nil
  then show ?case by simp
next
  case (Cons r slots)
  from Cons [of "Suc i"] newVersioned_returns [OF assms, of i] show ?case by (auto split: option.splits)
qed

lemma scanUnhealthy_first:
  assumes "\<forall>p \<in> List.set ps. getOrdinal p < MaxInt32" and "scanUnhealthy L ref i ps (un, fo, first) = (un', fo', first')"
    and "first = None \<longrightarrow> fo = MaxInt32" and "0 < un \<longrightarrow> first \<noteq> None"
  shows "(first' = None \<longrightarrow> fo' = MaxInt32) \<and> (0 < un' \<longrightarrow> first' \<noteq> None)"
  using assms
proof (induction ps arbitrary: i un fo first)
  case Nil
  then show ?case by simp
next
  case (Cons p ps)
  show ?case
  proof (cases "isHealthy L p")
    case True
    with Cons.prems show ?thesis by (intro Cons.IH [of "Suc i" un fo first]) auto
  next
    case False
    show ?thesis
    proof (cases "getOrdinal p < fo")
      case True
      with False Cons.prems show ?thesis by (intro Cons.IH [of "Suc i" "Suc un" "getOrdinal p" "Some (ref i)"]) auto
    next
      case le: False
      with False Cons.prems show ?thesis by (intro Cons.IH [of "Suc i" "Suc un" fo first]) auto
    qed
  qed
qed

lemma findUnhealthy_first:
  assumes "\<forall>p \<in> List.set rs \<union> List.set condemned. getOrdinal p < MaxInt32"
    and "findUnhealthy L rs condemned = (un, fo, first)"
  shows "0 < un \<longrightarrow> first \<noteq> None"
proof -
  obtain un1 fo1 first1 where a: "scanUnhealthy L InReplicas 0 rs (0, MaxInt32, None) = (un1, fo1, first1)"
    by (metis prod_cases3)
  with assms have b: "scanUnhealthy L InCondemned 0 condemned (un1, fo1, first1) = (un, fo, first)"
    by (simp add: findUnhealthy_def)
  from scanUnhealthy_first [OF _ a] assms(1) have "(first1 = None \<longrightarrow> fo1 = MaxInt32) \<and> (0 < un1 \<longrightarrow> first1 \<noteq> None)" by auto
  with scanUnhealthy_first [OF _ b] assms(1) show ?thesis by auto
qed

context stateful_pod_control
begin

lemma replicaStep_returns:
  assumes "fresh_pods (core e)" and "rolloutSafe e u"
  shows "\<exists>r. replicaStep e pc u i p st s = Some r"
proof -
  have safe: "storageSafe (ro_set u)" "storageSafe (ro_updateSet u)"
    using assms(2) by (auto simp: rolloutSafe_def templateSafe_def)
  have enf: "\<exists>r. enforceInvariants e pc u p st s = Some r" for p st s
    using update_returns [OF safe(2), of p s] by (auto simp: enforceInvariants_def split: option.splits)
  have cr: "\<exists>r. createReplica e pc u p st s = Some r" for p st s
    using create_returns [OF safe(1), of p s] by (auto simp: createReplica_def Let_def split: option.splits)
  have mark: "\<exists>r. markInPlaceReady e pc u p s = Some r" for p s
    using condition_returns [of "ro_set u" p inPlaceReadyCondition s] by (auto simp: markInPlaceReady_def)
  have ex: "\<exists>r. examineReplica e pc u p st s = Some r" for p st s
    using cr mark [of p s] enf by (auto simp: examineReplica_def split: option.splits)
  show ?thesis
    using newVersioned_returns [OF assms, of i] ex
    by (auto simp: replicaStep_def recreateFailed_def Let_def split: option.splits prod.splits flow.splits)
qed

lemma replicaLoop_returns:
  assumes "fresh_pods (core e)" and "rolloutSafe e u"
  shows "\<exists>r. replicaLoop e pc u ex rs st s = Some r"
proof (induction rs arbitrary: ex st s)
  case Nil
  then show ?case by simp
next
  case (Cons p rs)
  from replicaStep_returns [OF assms] obtain fl q st1 s1 where
    "replicaStep e pc u (length ex) p st s = Some (fl, q, st1, s1)" by (metis prod_cases4)
  with Cons [of "ex @ [q]" st1 s1] show ?case by (cases fl) auto
qed

lemma updateTarget_returns:
  assumes "strategySafe (ro_set u)" and "recreatesPods (ro_set u)"
  shows "\<exists>r. updateTarget e pc u p st s = Some r"
proof -
  have "tryInPlace e pc u p nc s = Some (False, False, p, s)" for nc
    using assms
    by (auto simp: tryInPlace_def shouldDoInPlaceUpdate_def strategySafe_def recreatesPods_def split: option.splits)
  then show ?thesis by (auto simp: updateTarget_def updateOutdated_def Let_def split: option.splits prod.splits)
qed

lemma updateLoop_returns:
  assumes "strategySafe (ro_set u)" and "recreatesPods (ro_set u)" and "\<forall>t \<in> List.set ts. 0 \<le> t"
  shows "\<exists>r. updateLoop e pc u m ts rs un st s = Some r"
  using assms(3)
proof (induction ts arbitrary: rs un st s)
  case Nil
  then show ?case by simp
next
  case (Cons t ts)
  from updateTarget_returns [OF assms(1,2)] obtain fl b q st1 s1 where
    "updateTarget e pc u (rs ! nat t) st s = Some (fl, b, q, st1, s1)" by (metis prod_cases5)
  with Cons show ?case by (cases fl) (auto simp: Let_def)
qed

lemma rollingUpdate_returns:
  assumes "rolloutSafe e u" shows "\<exists>r. rollingUpdate e pc u rs st s = Some r"
proof -
  have safe: "strategySafe (ro_set u)" "recreatesPods (ro_set u)" using assms by (auto simp: rolloutSafe_def)
  have "updateBounds e u (int (length rs)) (expectations s) \<noteq> None"
    using safe(1) by (auto simp: updateBounds_def strategySafe_def split: option.splits sum.splits)
  then obtain b where b: "updateBounds e u (int (length rs)) (expectations s) = Some b" by blast
  show ?thesis
  proof (cases b)
    case (NoUpdate er)
    with b show ?thesis by (simp add: rollingUpdate_def)
  next
    case (UpdateFrom m mu)
    with b safe(1) have "0 \<le> m"
      by (auto simp: updateBounds_def strategySafe_def split: option.splits sum.splits if_splits)
    then have "\<forall>t \<in> List.set (rev [m .. int (length rs) - 1]). 0 \<le> t" by auto
    from updateLoop_returns [OF safe this] b UpdateFrom show ?thesis by (simp add: rollingUpdate_def)
  qed
qed

lemma managePods_returns:
  assumes "fresh_pods (core e)" and "rolloutSafe e u"
  shows "\<exists>r. managePods e pc u rs condemned first st s = Some r"
proof -
  from replicaLoop_returns [OF assms] obtain fl qs st1 s1 where l: "replicaLoop e pc u [] rs st s = Some (fl, qs, st1, s1)"
    by (metis prod_cases4)
  obtain fc st2 s2 where "condemnedLoop e pc u first (rev (enumerate 0 condemned)) st1 s1 = (fc, st2, s2)"
    by (metis prod_cases3)
  with l rollingUpdate_returns [OF assms(2), of qs st2 s2] show ?thesis
    by (cases fl; cases fc) (auto simp: managePods_def)
qed

lemma updateReplicas_returns:
  assumes "fresh_pods (core e)" and "ranges_all (core e)" and "sorts_pods (core e)" and "rolloutSafe e u"
    and "Replicas (set_Spec (ro_set u)) = Some n" and "0 \<le> sint n"
    and "\<forall>p \<in> List.set pods. getOrdinal p < MaxInt32"
  shows "\<exists>r. updateReplicas e pc u cc pods s = Some r"
proof -
  obtain st0 slots cond where part: "partitionPods (core e) (currentName u) (updateName u) (sint n) pods
        (initialStatus (ro_set u) (currentName u) (updateName u) cc) (replicate (nat (sint n)) None, [])
      = (st0, slots, cond)" by (metis prod_cases3)
  have slots: "cond = filter (\<lambda>p. sint n \<le> getOrdinal p) pods" "length slots = nat (sint n)"
    "\<forall>i < nat (sint n). slots ! i = podAt pods i"
    using partitionPods_slots [of "core e" "currentName u" "updateName u" "replicate (nat (sint n)) None" pods
        "initialStatus (ro_set u) (currentName u) (updateName u) cc" "[]" st0 slots cond] part assms(6)
    by (auto split: option.splits)
  obtain rs where fill: "fillReplicas e u 0 slots = Some rs" using fillReplicas_returns [OF assms(1,4)] by blast
  have bound: "sint n \<le> MaxInt32" using sint_lt [of n] by (simp add: MaxInt32_def)
  have slot: "case slots ! i of Some p \<Rightarrow> rs ! i = p | None \<Rightarrow> newPod e u i = Some (rs ! i)"
    if "i < length rs" for i
    using fillReplicas_nth [OF fill] that unfolding add_0 by metis
  have nth: "getOrdinal (rs ! i) < MaxInt32" if i: "i < length rs" for i
  proof (cases "slots ! i")
    case None
    from slot [OF i] have at: "case slots ! i of Some p \<Rightarrow> rs ! i = p | None \<Rightarrow> newPod e u i = Some (rs ! i)" .
    with at None have p: "newPod e u i = Some (rs ! i)" by simp
    from i fillReplicas_nth [OF fill] slots(2) bound have "int i < MaxInt32" by simp
    with newVersioned_ordinal [OF assms(1,2,4) _ p] show ?thesis by (simp add: MaxInt32_def)
  next
    case (Some p)
    from slot [OF i] have at: "case slots ! i of Some p \<Rightarrow> rs ! i = p | None \<Rightarrow> newPod e u i = Some (rs ! i)" .
    with at Some slots(2,3) i fillReplicas_nth [OF fill] have "podAt pods i = Some (rs ! i)" by simp
    with assms(7) show ?thesis by (auto dest: podAt_Some)
  qed
  have "getOrdinal p < MaxInt32" if "p \<in> List.set rs" for p
    using that nth by (metis in_set_conv_nth)
  then have "\<forall>p \<in> List.set rs \<union> List.set (lib_Sort (core e) getOrdinal cond). getOrdinal p < MaxInt32"
    using assms(7) slots(1) by (auto simp: sorts_pods_set [OF assms(3)])
  moreover obtain un fo first where
    fu: "findUnhealthy (core e) rs (lib_Sort (core e) getOrdinal cond) = (un, fo, first)" by (metis prod_cases3)
  ultimately have "0 < un \<longrightarrow> first \<noteq> None" by (rule findUnhealthy_first)
  moreover obtain err rs' st' s' where
    "managePods e pc u rs (lib_Sort (core e) getOrdinal cond) first st0 s = Some (err, rs', st', s')"
    using managePods_returns [OF assms(1,4)] by (metis prod_cases4)
  ultimately show ?thesis
    using assms(5,6) part fill fu by (auto simp: updateReplicas_def)
qed

end

section \<open>A round of the control\<close>

lemma status_keeps_keepsIdentity: "status_keeps_identity e \<Longrightarrow> keepsIdentity (NewRealStatefulPodControl e)"
  by (auto simp: keepsIdentity_def intro: UpdateStatefulPodCondition_identity)

lemma monotonic_iff: "monotonic u \<longleftrightarrow> \<not> allowsBurst (ro_set u)"
  by (simp add: monotonic_def)

text \<open>The locals of an update of \<open>sts\<close>: its current and its update revision applied to it.\<close>

definition rolloutOf :: "'w k8s \<Rightarrow> statefulSet \<Rightarrow> rollout \<Rightarrow> bool" where
  "rolloutOf e sts u \<longleftrightarrow> ro_set u = sts
     \<and> ApplyRevision (codec e) sts (ro_currentRevision u) = Some (Inr (ro_currentSet u))
     \<and> ApplyRevision (codec e) sts (ro_updateRevision u) = Some (Inr (ro_updateSet u))"

text \<open>
  The round that a run from \<open>s\<close> starts, with the expectations it finds: both are functions of the run, so a property
  of \<open>u\<close> speaks of the revisions that this run chose, under their names.
\<close>

definition startsRound ::
  "'w k8s \<Rightarrow> statefulSet \<Rightarrow> pod list \<Rightarrow> 'w sys \<Rightarrow> rollout \<Rightarrow> controllerCache \<Rightarrow> bool" where
  "startsRound e sts pods s u cache \<longleftrightarrow>
     map_option (\<lambda>(u, cc, s1). (u, expectations s1)) (roundStart e (realHistory e) sts pods s) = Some (u, cache)"

lemma startsRoundI: "roundStart e (realHistory e) sts pods s = Some (u, cc, s1) \<Longrightarrow> startsRound e sts pods s u (expectations s1)"
  by (simp add: startsRound_def)

lemma startsRound_unique:
  "startsRound e sts pods s u cache \<Longrightarrow> startsRound e sts pods s v cache' \<Longrightarrow> u = v \<and> cache = cache'"
  by (auto simp: startsRound_def)

lemma startsRound_rollout: "startsRound e sts pods s u cache \<Longrightarrow> rolloutOf e sts u"
  by (auto simp: startsRound_def roundStart_def rolloutOf_def split: prod.splits sum.splits option.splits)

definition orderlyRound :: "'w k8s \<Rightarrow> statefulSet \<Rightarrow> pod list \<Rightarrow> 'w sys \<Rightarrow> podOp list \<Rightarrow> bool" where
  "orderlyRound e sts pods s ops \<longleftrightarrow>
     (\<exists>u n rs cache. startsRound e sts pods s u cache \<and> rolloutOf e sts u \<and> Replicas (set_Spec sts) = Some n
        \<and> int (length rs) = sint n \<and> replicasOf e u pods rs \<and> orderly e u rs (condemnedOf e (sint n) pods) cache ops)"

lemma monotonic_steps:
  assumes "fresh_pods (core e)" and "status_keeps_identity e" and "\<not> allowsBurst sts"
    and "UpdateStatefulSet e (NewRealStatefulPodControl e) (UpdateStatefulSetStatus e) (realHistory e) sts pods s
      = Some (err, s')"
  shows "\<exists>ops. podSteps s ops s'
    \<and> (ops = [] \<or> DeletionTimestamp (set_Meta sts) = None \<and> orderlyRound e sts pods s ops)"
  using assms(4)
proof (cases rule: rsc.UpdateStatefulSet_rounds)
  case (round u cc s1 err1 pods1 st1 s2)
  have mono: "monotonic u" using assms(3) round(2) by (simp add: monotonic_iff)
  have whole: "podSteps s1 ops s2 \<Longrightarrow> podSteps s ops s'" for ops
    using podSteps_trans0 [OF podSteps_trans [OF round(1)] round(6)] by simp
  from round(5) show ?thesis
  proof (cases rule: updateReplicas_cases)
    case (1 n st0 rs first)
    show ?thesis
    proof (cases "DeletionTimestamp (set_Meta sts) = None")
      case True
      with 1(7) round(2) obtain rs' where "managePods e (NewRealStatefulPodControl e) u rs
          (condemnedOf e (sint n) pods) first st0 s1 = Some (err1, rs', st1, s2)" by auto
      from rpc.managePods_orderly [OF assms(1) status_keeps_keepsIdentity [OF assms(2)] mono this]
      obtain ops where o: "podSteps s1 ops s2" "orderly e u rs (condemnedOf e (sint n) pods) (expectations s1) ops"
        by blast
      moreover from startsRoundI [OF round(9)] have "startsRound e sts pods s u (expectations s1)" .
      moreover from startsRound_rollout [OF this] have "rolloutOf e sts u" .
      moreover have "Replicas (set_Spec sts) = Some n" "int (length rs) = sint n" using 1(1-3) round(2) by simp_all
      ultimately have "orderlyRound e sts pods s ops" using 1(4) unfolding orderlyRound_def by blast
      with whole [OF o(1)] True show ?thesis by blast
    next
      case False
      with 1(7) round(2) whole [of "[]"] show ?thesis by auto
    qed
  qed
qed blast

lemma monotonic_round:
  assumes "fresh_pods (core e)" and "status_keeps_identity e" and "\<not> allowsBurst sts"
    and "UpdateStatefulSet e (NewRealStatefulPodControl e) (UpdateStatefulSetStatus e) (realHistory e) sts pods s
      = Some (err, s')" and "podSteps s ops s'"
  shows "ops = [] \<or> DeletionTimestamp (set_Meta sts) = None \<and> orderlyRound e sts pods s ops"
  using monotonic_steps [OF assms(1-4)] podSteps_det [OF assms(5)] by blast

end
