(* ===== verification/Sample.thy ===== *)
theory Sample
  imports Cluster SetSafety
begin

text \<open>The control of a StatefulSet on the sample cluster.\<close>

lemma sample_status_keeps_identity [simp, intro]: "status_keeps_identity (sampleEnv sts)"
  by (simp add: status_keeps_identity_def sample_defs)

text \<open>The whole control on the sample cluster.\<close>

abbreviation sampleRun :: "statefulSet \<Rightarrow> pod list \<Rightarrow> (error option \<times> nat sys) option" where
  "sampleRun sts pods \<equiv> UpdateStatefulSet (sampleEnv sts) (NewRealStatefulPodControl (sampleEnv sts))
     (UpdateStatefulSetStatus (sampleEnv sts)) (realHistory (sampleEnv sts)) sts pods sampleSys"

definition sampleOps :: "statefulSet \<Rightarrow> pod list \<Rightarrow> (error option \<times> podOp list) option" where
  "sampleOps sts pods =
     (case sampleRun sts pods of None \<Rightarrow> None | Some (err, s') \<Rightarrow> Some (err, podWrites (trace s')))"

lemma sampleRunE:
  assumes "sampleOps sts pods = Some (err, ops)"
  obtains s' where "sampleRun sts pods = Some (err, s')" "podSteps sampleSys ops s'"
  using assms by (auto simp: sampleOps_def podSteps_def issues_def sampleSys_def split: option.splits)

lemma sample_not_burst [simp, intro]: "\<not> allowsBurst (sampleSet n part ''OrderedReady'')"
  by (simp add: allowsBurst_def sampleSet_def)

end
