(* ===== verification/SetProgress.thy ===== *)
theory SetProgress
  imports SetRounds Sample
begin

text \<open>
  A reference for the rounds of \<^verbatim>\<open>updateStatefulSet\<close> under the default policy: \<open>plan\<close> says, from the ordinals and
  revisions of the listed pods alone, what one round writes when every listed pod is as it should be. The loops of the
  code are proved to write exactly that, and a sequence of such rounds, between which the cluster carries out what was
  asked, to reach the state with nothing left to do in a number of rounds given by a measure.
\<close>

section \<open>The plan of a round\<close>

definition ordinalKey :: "statefulSet \<Rightarrow> nat \<Rightarrow> objectKey" where
  "ordinalKey sts i = \<lparr>key_Namespace = setNamespace sts, key_Name = getPodName sts (int i)\<rparr>"

text \<open>The ordinals without a pod, those beyond the replicas, and those that wait for the rolling update.\<close>

definition gaps :: "nat \<Rightarrow> pod list \<Rightarrow> nat list" where
  "gaps n pods = filter (\<lambda>i. podAt pods i = None) [0..<n]"

definition beyond :: "nat \<Rightarrow> pod list \<Rightarrow> nat list" where
  "beyond n pods = map (\<lambda>p. nat (getOrdinal p)) (filter (\<lambda>p. int n \<le> getOrdinal p) pods)"

definition lagging :: "string \<Rightarrow> int \<Rightarrow> nat \<Rightarrow> pod list \<Rightarrow> nat list" where
  "lagging r m n pods =
     filter (\<lambda>i. case podAt pods i of None \<Rightarrow> False | Some p \<Rightarrow> getPodRevision p \<noteq> r) (rev [nat m..<n])"

definition plan :: "statefulSet \<Rightarrow> string \<Rightarrow> bounds \<Rightarrow> nat \<Rightarrow> pod list \<Rightarrow> podOp list" where
  "plan sts r b n pods =
     (if gaps n pods \<noteq> [] then [PodCreate (ordinalKey sts (hd (gaps n pods)))]
      else if beyond n pods \<noteq> [] then [PodDelete (ordinalKey sts (Max (List.set (beyond n pods))))]
      else (case b of
              NoUpdate err \<Rightarrow> []
            | UpdateFrom m maxUnavailable \<Rightarrow>
                map (\<lambda>i. PodDelete (ordinalKey sts i)) (take (nat maxUnavailable) (lagging r m n pods))))"

text \<open>Every listed pod is healthy and as it should be, with no in-place update under way.\<close>

definition calm :: "'w k8s \<Rightarrow> statefulSet \<Rightarrow> pod list \<Rightarrow> bool" where
  "calm e sts pods \<longleftrightarrow> (\<forall>p \<in> List.set pods. steady e sts p \<and> checkInPlaceUpdateCompleted (codec e) p = None)"

text \<open>The locals of an update under the default policy that recreates outdated pods.\<close>

definition plannable :: "'w k8s \<Rightarrow> rollout \<Rightarrow> bool" where
  "plannable e u \<longleftrightarrow> monotonic u \<and> DeletionTimestamp (set_Meta (ro_set u)) = None \<and> recreatesPods (ro_set u)
     \<and> validName (setName (ro_set u))
     \<and> (\<forall>x \<in> {ro_currentSet u, ro_updateSet u}. setName x = setName (ro_set u)
          \<and> setNamespace x = setNamespace (ro_set u)
          \<and> UpdateStrategy (set_Spec x) = UpdateStrategy (set_Spec (ro_set u)))"

lemma ordinalKey_inj [simp]: "ordinalKey sts i = ordinalKey sts j \<longleftrightarrow> i = j"
  by (auto simp: ordinalKey_def dest: getPodName_inj)

lemma matches_key:
  "identityMatches sts p \<Longrightarrow> 0 \<le> getOrdinal p \<and> podKey p = ordinalKey sts (nat (getOrdinal p))"
  by (auto simp: identityMatches_def getOrdinal_def ordinalKey_def metaKey_def Let_def split: prod.splits)

lemma calm_key: "calm e sts pods \<Longrightarrow> p \<in> List.set pods \<Longrightarrow>
    0 \<le> getOrdinal p \<and> podKey p = ordinalKey sts (nat (getOrdinal p))"
  by (intro matches_key) (auto simp: calm_def steady_def)

lemma ordinalKey_frame: "setName x = setName sts \<Longrightarrow> setNamespace x = setNamespace sts \<Longrightarrow> ordinalKey x = ordinalKey sts"
  by (rule ext) (simp add: ordinalKey_def getPodName_def)

lemma newPod_key:
  assumes "fresh_pods (core e)" and "ranges_all (core e)" and "plannable e u" and "int i \<le> 2147483647"
    and "newPod e u i = Some q"
  shows "podKey q = ordinalKey (ro_set u) i"
proof -
  have v: "validOrdinal (int i)" using assms(4) by (simp add: validOrdinal_def)
  have key: "podKey p = ordinalKey (ro_set u) i"
    if p: "newStatefulSetPod e x (int i) = Some p" and x: "x \<in> {ro_currentSet u, ro_updateSet u}" for x p
  proof -
    from assms(3) x have f: "setName x = setName (ro_set u)" "setNamespace x = setNamespace (ro_set u)"
      "validName (setName x)" unfolding plannable_def by auto
    from newStatefulSetPod_spec(1,3) [OF assms(1,2) f(3) v p] f(3) v matches_key [of x p] show ?thesis
      by (simp add: getOrdinal_def getParentNameAndOrdinal_getPodName ordinalKey_frame [OF f(1,2)])
  qed
  with assms(5) show ?thesis
    by (auto simp: newVersionedStatefulSetPod_def bind_eq_Some_conv split: if_splits)
qed

section \<open>The update loop\<close>

lemma upto_nats: "0 \<le> m \<Longrightarrow> map nat [m .. int n - 1] = [nat m..<n]"
proof (rule nth_equalityI)
  assume "0 \<le> m"
  then show "length (map nat [m .. int n - 1]) = length [nat m..<n]" by (simp add: nat_diff_distrib')
  show "map nat [m .. int n - 1] ! i = [nat m..<n] ! i" if "i < length (map nat [m .. int n - 1])" for i
    using that \<open>0 \<le> m\<close> by (simp add: nat_add_distrib)
qed

context stateful_pod_control
begin

lemma updateTarget_calm:
  assumes "UpdateStrategy (set_Spec (ro_set u)) \<noteq> None" and "recreatesPods (ro_set u)"
    and "steady e (ro_set u) p" and "checkInPlaceUpdateCompleted (codec e) p = None"
    and "updateTarget e pc u p st s = Some (fl, un, q, st', s')"
  shows "q = p \<and> un = (getPodRevision p \<noteq> updateName u)
    \<and> ((\<exists>er. fl = Return (Some er)) \<or> fl = Next \<and> does s (if un then [PodDelete (podKey p)] else []) s')"
proof -
  have recreate: "tryInPlace e pc u p nc s = Some (False, False, p, s)" for nc
    using assms(1,2)
    by (auto simp: tryInPlace_def shouldDoInPlaceUpdate_def recreatesPods_def split: option.splits)
  have p: "\<not> isTerminating p" "isHealthy (core e) p" using assms(3) steady_state [OF assms(3)] by (auto simp: steady_def)
  obtain derr s1 where d: "DeleteStatefulPod pc (ro_set u) p s = (derr, s1)" by fastforce
  from delete_does [OF d] assms(4,5) p d show ?thesis
    by (cases derr) (auto simp: updateTarget_def updateOutdated_def recreate Let_def split: if_splits)
qed

lemma updateLoop_plan:
  assumes "UpdateStrategy (set_Spec (ro_set u)) \<noteq> None" and "recreatesPods (ro_set u)"
    and "\<forall>p \<in> List.set rs. steady e (ro_set u) p \<and> checkInPlaceUpdateCompleted (codec e) p = None"
    and "\<forall>t \<in> List.set ts. t < int (length rs)" and "un < mu"
    and "updateLoop e pc u mu ts rs un st s = Some (None, rs', st', s')"
  shows "does s (map (\<lambda>t. PodDelete (podKey (rs ! nat t)))
      (take (nat (mu - un)) (filter (\<lambda>t. getPodRevision (rs ! nat t) \<noteq> updateName u) ts))) s'"
  using assms(4-6)
proof (induction ts arbitrary: un st s)
  case Nil
  then show ?case by simp
next
  case (Cons t ts)
  from Cons.prems(3) obtain fl b q st1 s1 where t0: "0 \<le> t"
    and step: "updateTarget e pc u (rs ! nat t) st s = Some (fl, b, q, st1, s1)"
    by (auto split: if_splits option.splits)
  from Cons.prems(1) t0 have "rs ! nat t \<in> List.set rs" by (simp add: nat_less_iff)
  with updateTarget_calm [OF _ assms(2) _ _ step] assms(1,3) have q: "q = rs ! nat t"
    and b: "b = (getPodRevision (rs ! nat t) \<noteq> updateName u)"
    and fl: "(\<exists>er. fl = Return (Some er)) \<or> fl = Next \<and> does s (if b then [PodDelete (podKey (rs ! nat t))] else []) s1"
    by auto
  from Cons.prems(3) t0 step fl have next': "fl = Next" and d: "does s (if b then [PodDelete (podKey (rs ! nat t))] else []) s1"
    by (auto simp: Let_def)
  have same: "rs[nat t := q] = rs" using q by (metis list_update_id)
  define un' where "un' = (if b then un + 1 else un)"
  show ?case
  proof (cases "mu \<le> un'")
    case True
    with Cons.prems(2) have full: "b" "mu - un = 1" by (auto simp: un'_def split: if_splits)
    from True Cons.prems(3) step t0 next' have "s' = s1" by (simp add: Let_def un'_def)
    with d full b show ?thesis by simp
  next
    case False
    with Cons.prems(3) step t0 next' same have rec: "updateLoop e pc u mu ts rs un' st1 s1 = Some (None, rs', st', s')"
      by (simp add: Let_def un'_def)
    from False Cons.IH [OF _ _ rec] Cons.prems(1) have
      "does s1 (map (\<lambda>t. PodDelete (podKey (rs ! nat t)))
        (take (nat (mu - un')) (filter (\<lambda>t. getPodRevision (rs ! nat t) \<noteq> updateName u) ts))) s'" by simp
    moreover from False have "nat (mu - un) = (if b then Suc (nat (mu - un')) else nat (mu - un'))"
      by (auto simp: un'_def)
    ultimately show ?thesis using does_trans [OF d] b by (cases b) auto
  qed
qed

text \<open>
  With \<open>maxUnavailable\<close> 0 the loop visits one pod only: it deletes that pod if it is outdated, although none may become
  unavailable, and once it is up to date the update never gets past it.
\<close>

lemma updateLoop_zero:
  assumes "UpdateStrategy (set_Spec (ro_set u)) \<noteq> None" and "recreatesPods (ro_set u)"
    and "steady e (ro_set u) (rs ! nat t)" and "checkInPlaceUpdateCompleted (codec e) (rs ! nat t) = None" and "mu \<le> 0"
    and "updateLoop e pc u mu (t # ts) rs 0 st s = Some (None, rs', st', s')"
  shows "does s (if getPodRevision (rs ! nat t) \<noteq> updateName u then [PodDelete (podKey (rs ! nat t))] else []) s'"
proof -
  from assms(6) obtain fl b q st1 s1 where step: "updateTarget e pc u (rs ! nat t) st s = Some (fl, b, q, st1, s1)"
    by (auto split: if_splits option.splits)
  from updateTarget_calm [OF assms(1-4) step] step assms(5,6) show ?thesis
    by (auto simp: Let_def split: if_splits flow.splits)
qed

text \<open>Each of the three loops, when it is the one that acts.\<close>

lemma rollingUpdate_plan:
  assumes "UpdateStrategy (set_Spec (ro_set u)) \<noteq> None" and "recreatesPods (ro_set u)"
    and "\<forall>p \<in> List.set rs. steady e (ro_set u) p \<and> checkInPlaceUpdateCompleted (codec e) p = None"
    and "updateBounds e u (int (length rs)) (expectations s) = Some b"
    and "\<And>m mu. b = UpdateFrom m mu \<Longrightarrow> 0 \<le> m \<and> 1 \<le> mu"
    and "rollingUpdate e pc u rs st s = Some (None, rs', st', s')"
  shows "does s (case b of NoUpdate err \<Rightarrow> [] | UpdateFrom m mu \<Rightarrow>
      map (\<lambda>i. PodDelete (podKey (rs ! i)))
        (take (nat mu) (filter (\<lambda>i. getPodRevision (rs ! i) \<noteq> updateName u) (rev [nat m..<length rs])))) s'"
proof (cases b)
  case (NoUpdate er)
  with assms(4,6) show ?thesis by (simp add: rollingUpdate_def)
next
  case (UpdateFrom m mu)
  with assms(5) have m: "0 \<le> m" "1 \<le> mu" by simp_all
  from m(1) have nats: "map nat (rev [m .. int (length rs) - 1]) = rev [nat m..<length rs]"
    by (simp add: rev_map [symmetric] upto_nats)
  from UpdateFrom assms(4,6) have "updateLoop e pc u mu (rev [m .. int (length rs) - 1]) rs 0 st s = Some (None, rs', st', s')"
    by (simp add: rollingUpdate_def)
  from updateLoop_plan [OF assms(1-3) _ _ this] m(2) have "does s (map (\<lambda>t. PodDelete (podKey (rs ! nat t)))
      (take (nat mu) (filter (\<lambda>t. getPodRevision (rs ! nat t) \<noteq> updateName u) (rev [m .. int (length rs) - 1])))) s'"
    by simp
  then have "does s (map (\<lambda>i. PodDelete (podKey (rs ! i)))
      (take (nat mu) (filter (\<lambda>i. getPodRevision (rs ! i) \<noteq> updateName u) (rev [nat m..<length rs])))) s'"
    unfolding nats [symmetric] by (simp add: filter_map take_map comp_def)
  with UpdateFrom show ?thesis by simp
qed

lemma condemnedLoop_plan:
  assumes "monotonic u" and "cond \<noteq> []" and "steady e (ro_set u) (last cond)"
    and "condemnedLoop e pc u first (rev (enumerate 0 cond)) st s = (fl, st', s')"
  shows "\<exists>er. fl = Return er \<and> (er = None \<longrightarrow> does s [PodDelete (podKey (last cond))] s')"
proof -
  obtain front p where cond: "cond = front @ [p]" using assms(2) by (metis append_butlast_last_id)
  then have xs: "rev (enumerate 0 cond) = (length front, p) # rev (enumerate 0 front)"
    by (simp add: enumerate_append_eq)
  obtain derr s1 where d: "DeleteStatefulPod pc (ro_set u) p s = (derr, s1)" by fastforce
  from delete_does [OF d] assms(1,3,4) steady_state [OF assms(3)] d show ?thesis
    unfolding xs by (cases derr) (auto simp: cond Let_def)
qed

text \<open>All three together.\<close>

lemma managePods_gap:
  assumes "monotonic u" and "k < length rs" and "\<forall>j < k. steady e (ro_set u) (rs ! j)" and "\<not> isCreated (rs ! k)"
    and "managePods e pc u rs cond first st s = Some (None, rs', st', s')"
  shows "does s [PodCreate (podKey (rs ! k))] s'"
proof -
  from assms(5) obtain fl qs st1 s1 where l: "replicaLoop e pc u [] rs st s = Some (fl, qs, st1, s1)"
    by (auto simp: managePods_def split: option.splits)
  with replicaLoop_next [OF assms(1-4) l] assms(5) show ?thesis by (auto simp: managePods_def)
qed

lemma managePods_full:
  assumes "\<forall>p \<in> List.set rs. steady e (ro_set u) p"
    and "managePods e pc u rs cond first st s = Some (err, rs', st', s')"
  shows "if cond = [] then rollingUpdate e pc u rs st s = Some (err, rs', st', s')
    else monotonic u \<longrightarrow> steady e (ro_set u) (last cond) \<longrightarrow> err = None \<longrightarrow> does s [PodDelete (podKey (last cond))] s'"
proof -
  have l: "replicaLoop e pc u [] rs st s = Some (Next, rs, st, s)"
    using replicaLoop_steady [OF assms(1), of "[]"] by simp
  obtain fl st1 s1 where c: "condemnedLoop e pc u first (rev (enumerate 0 cond)) st s = (fl, st1, s1)"
    by (metis prod_cases3)
  show ?thesis
  proof (cases "cond = []")
    case True
    with assms(2) l show ?thesis by (simp add: managePods_def)
  next
    case False
    with assms(2) l c condemnedLoop_plan [OF _ False _ c] show ?thesis
      by (auto simp: managePods_def split: flow.splits)
  qed
qed

end

section \<open>A round follows the plan\<close>

lemma hd_gaps:
  assumes "gaps n pods \<noteq> []"
  shows "hd (gaps n pods) < n \<and> podAt pods (hd (gaps n pods)) = None \<and> (\<forall>j < hd (gaps n pods). podAt pods j \<noteq> None)"
  using assms
proof (induction n)
  case 0
  then show ?case by (simp add: gaps_def)
next
  case (Suc n)
  show ?case
  proof (cases "gaps n pods = []")
    case True
    then have all: "\<forall>j < n. podAt pods j \<noteq> None" by (auto simp: gaps_def filter_empty_conv)
    from True Suc.prems have "gaps (Suc n) pods = [n]" "podAt pods n = None"
      by (auto simp: gaps_def split: if_splits)
    with all show ?thesis by simp
  next
    case False
    then have "hd (gaps (Suc n) pods) = hd (gaps n pods)" by (simp add: gaps_def)
    with Suc.IH [OF False] show ?thesis by simp
  qed
qed

lemma set_beyond: "List.set (beyond n pods) = {i. n \<le> i \<and> podAt pods i \<noteq> None}"
proof -
  have "podAt pods (nat (getOrdinal p)) \<noteq> None" if "p \<in> List.set pods" "int n \<le> getOrdinal p" for p
    using that by (auto simp: podAt_None)
  then show ?thesis by (force simp: beyond_def dest: podAt_Some)
qed

lemma last_condemned:
  assumes "sorts_pods (core e)" and "condemnedOf e (int n) pods \<noteq> []"
  shows "last (condemnedOf e (int n) pods) \<in> List.set pods
    \<and> nat (getOrdinal (last (condemnedOf e (int n) pods))) = Max (List.set (beyond n pods))"
proof -
  let ?c = "condemnedOf e (int n) pods"
  have set_c: "List.set ?c = {p \<in> List.set pods. int n \<le> getOrdinal p}"
    by (auto simp: condemnedOf_def sorts_pods_set [OF assms(1)])
  from assms(2) obtain cs c where cs: "?c = cs @ [c]" by (metis append_butlast_last_id)
  moreover have "sorted (map getOrdinal ?c)" using assms(1) by (simp add: condemnedOf_def sorts_pods_def)
  ultimately have top: "\<forall>p \<in> List.set ?c. getOrdinal p \<le> getOrdinal (last ?c)"
    by (auto simp: sorted_append)
  have "last ?c \<in> List.set ?c" using assms(2) by simp
  with set_c top show ?thesis
    by (auto simp: beyond_def intro!: Max_eqI [symmetric] nat_mono)
qed

lemma condemned_beyond:
  assumes "sorts_pods (core e)" shows "condemnedOf e (int n) pods = [] \<longleftrightarrow> beyond n pods = []"
proof -
  have "List.set (condemnedOf e (int n) pods) = List.set (filter (\<lambda>p. int n \<le> getOrdinal p) pods)"
    by (simp add: condemnedOf_def sorts_pods_set [OF assms])
  then have "condemnedOf e (int n) pods = [] \<longleftrightarrow> filter (\<lambda>p. int n \<le> getOrdinal p) pods = []" by (metis set_empty)
  then show ?thesis by (simp add: beyond_def)
qed

lemma calm_replicas:
  assumes "calm e sts pods" and "replicasOf e u pods rs" and "gaps (length rs) pods = []"
  shows "\<forall>i < length rs. podAt pods i = Some (rs ! i)"
    and "\<forall>p \<in> List.set rs. steady e sts p \<and> checkInPlaceUpdateCompleted (codec e) p = None"
proof -
  from assms(3) have "\<forall>i < length rs. podAt pods i \<noteq> None" by (auto simp: gaps_def filter_empty_conv)
  with assms(2) show at: "\<forall>i < length rs. podAt pods i = Some (rs ! i)" unfolding replicasOf_def by blast
  with assms(1) show "\<forall>p \<in> List.set rs. steady e sts p \<and> checkInPlaceUpdateCompleted (codec e) p = None"
    by (metis calm_def in_set_conv_nth podAt_Some)
qed

lemma updateReplicas_plan:
  assumes "fresh_pods (core e)" and "ranges_all (core e)" and "sorts_pods (core e)" and "plannable e u"
    and "calm e (ro_set u) pods" and "Replicas (set_Spec (ro_set u)) = Some n"
    and "updateBounds e u (sint n) (expectations s) = Some b"
    and "\<And>m mu. b = UpdateFrom m mu \<Longrightarrow> 0 \<le> m \<and> 1 \<le> mu"
    and run: "updateReplicas e (NewRealStatefulPodControl e) u cc pods s = Some (None, pods', st, s')"
  shows "podSteps s (plan (ro_set u) (updateName u) b (nat (sint n)) pods) s'"
  using run
proof (cases rule: updateReplicas_cases)
  case (1 n0 st0 rs first)
  with assms(6) have n: "n0 = n" and len: "length rs = nat (sint n)" "int (length rs) = sint n" by simp_all
  let ?c = "condemnedOf e (int (length rs)) pods"
  have u: "monotonic u" "recreatesPods (ro_set u)" "DeletionTimestamp (set_Meta (ro_set u)) = None"
    using assms(4) by (simp_all add: plannable_def)
  from 1(7) u(3) n len obtain rs' where m: "managePods e (NewRealStatefulPodControl e) u rs ?c first st0 s = Some (None, rs', st, s')"
    by auto
  show ?thesis
  proof (cases "gaps (length rs) pods = []")
    case False
    define k where "k = hd (gaps (length rs) pods)"
    from hd_gaps [OF False] have k: "k < length rs" "podAt pods k = None" "\<forall>j < k. podAt pods j \<noteq> None"
      by (simp_all add: k_def)
    from 1(4) k(1,2) have new: "newPod e u k = Some (rs ! k)" by (auto simp: replicasOf_def)
    have before: "\<forall>j < k. steady e (ro_set u) (rs ! j)"
    proof (intro allI impI)
      fix j assume "j < k"
      from less_trans [OF \<open>j < k\<close> k(1)] k(3) \<open>j < k\<close> 1(4) have "podAt pods j = Some (rs ! j)"
        unfolding replicasOf_def by blast
      with assms(5) show "steady e (ro_set u) (rs ! j)" by (auto simp: calm_def dest: podAt_Some)
    qed
    have "does s [PodCreate (podKey (rs ! k))] s'"
      by (rule rpc.managePods_gap [OF u(1) k(1) before newVersioned_fresh(1) [OF assms(1) new] m])
    moreover have "int k \<le> 2147483647" using k(1) len(2) sint_lt [of n] by simp
    note newPod_key [OF assms(1,2,4) this new]
    ultimately show ?thesis using False len(1) by (simp add: plan_def k_def does_def)
  next
    case True
    note rs = calm_replicas [OF assms(5) 1(4) True]
    then have steady: "\<forall>p \<in> List.set rs. steady e (ro_set u) p" by blast
    note full = rpc.managePods_full [OF steady m]
    show ?thesis
    proof (cases "?c = []")
      case False
      from last_condemned [OF assms(3) False] have l: "last ?c \<in> List.set pods"
        "nat (getOrdinal (last ?c)) = Max (List.set (beyond (length rs) pods))" by blast+
      with calm_key [OF assms(5) l(1)] assms(5) full False u(1)
      have "does s [PodDelete (ordinalKey (ro_set u) (Max (List.set (beyond (length rs) pods))))] s'"
        by (auto simp: calm_def)
      moreover have "beyond (length rs) pods \<noteq> []" using False condemned_beyond [OF assms(3)] by blast
      ultimately show ?thesis using True len(1) by (simp add: plan_def does_def)
    next
      case empty: True
      with full have roll: "rollingUpdate e (NewRealStatefulPodControl e) u rs st0 s = Some (None, rs', st, s')" by simp
      have us: "UpdateStrategy (set_Spec (ro_set u)) \<noteq> None"
        using assms(7) by (cases "UpdateStrategy (set_Spec (ro_set u))") (simp_all add: updateBounds_def)
      from rpc.rollingUpdate_plan [OF us u(2) rs(2) _ assms(8) roll] assms(7) len
      have d: "does s (case b of NoUpdate err \<Rightarrow> [] | UpdateFrom m mu \<Rightarrow> map (\<lambda>i. PodDelete (podKey (rs ! i)))
        (take (nat mu) (filter (\<lambda>i. getPodRevision (rs ! i) \<noteq> updateName u) (rev [nat m..<length rs])))) s'" by simp
      have lag: "filter (\<lambda>i. getPodRevision (rs ! i) \<noteq> updateName u) (rev [nat m..<length rs])
          = lagging (updateName u) m (length rs) pods" for m
        unfolding lagging_def using rs(1) by (intro filter_cong) auto
      have key: "podKey (rs ! i) = ordinalKey (ro_set u) i" if "i < length rs" for i
        using rs(1) that calm_key [OF assms(5), of "rs ! i"] by (auto dest!: podAt_Some)
      have ops: "map (\<lambda>i. PodDelete (podKey (rs ! i))) (take k (lagging (updateName u) m (length rs) pods))
          = map (\<lambda>i. PodDelete (ordinalKey (ro_set u) i)) (take k (lagging (updateName u) m (length rs) pods))" for k m
        by (intro map_cong) (auto simp: lagging_def key dest!: in_set_takeD)
      have "beyond (length rs) pods = []" using empty condemned_beyond [OF assms(3)] by blast
      then have "podSteps s (plan (ro_set u) (updateName u) b (length rs) pods) s'"
        using d True by (cases b) (simp_all add: plan_def does_def lag ops)
      with len(1) show ?thesis by simp
    qed
  qed
qed

section \<open>Rounds in a cluster that carries them out\<close>

text \<open>
  What the next round lists, when the cluster has carried out the writes \<open>ops\<close>: a created pod is there, at the
  revision it was created with; a deleted one is gone; and nothing else has changed. That every pod listed is healthy
  again is part of it.
\<close>

definition carriedOut :: "'w k8s \<Rightarrow> rollout \<Rightarrow> podOp list \<Rightarrow> pod list \<Rightarrow> pod list \<Rightarrow> bool" where
  "carriedOut e u ops pods pods' \<longleftrightarrow> (\<forall>i. map_option getPodRevision (podAt pods' i) =
     (if PodCreate (ordinalKey (ro_set u) i) \<in> List.set ops then map_option getPodRevision (newPod e u i)
      else if PodDelete (ordinalKey (ro_set u) i) \<in> List.set ops then None
      else map_option getPodRevision (podAt pods i)))"

text \<open>\<open>k\<close> rounds for \<open>n\<close> replicas, partition \<open>m\<close> and the update revision \<open>r\<close>.\<close>

definition roundOf :: "'w k8s \<Rightarrow> string \<Rightarrow> int \<Rightarrow> nat \<Rightarrow> rollout \<Rightarrow> pod list \<Rightarrow> 'w sys \<Rightarrow> bool" where
  "roundOf e r m n u pods s \<longleftrightarrow> plannable e u \<and> calm e (ro_set u) pods \<and> updateName u = r
     \<and> map_option sint (Replicas (set_Spec (ro_set u))) = Some (int n)
     \<and> (\<exists>us ru part. UpdateStrategy (set_Spec (ro_set u)) = Some us \<and> RollingUpdate us = Some ru
          \<and> Partition ru = Some part \<and> sint part = m)
     \<and> (\<exists>mu. updateBounds e u (int n) (expectations s) = Some (UpdateFrom m mu) \<and> 1 \<le> mu)"

inductive rounds :: "'w k8s \<Rightarrow> string \<Rightarrow> int \<Rightarrow> nat \<Rightarrow> nat \<Rightarrow> pod list \<Rightarrow> pod list \<Rightarrow> bool" for e r m n where
  start: "rounds e r m n 0 pods pods"
| round: "rounds e r m n k pods0 pods \<Longrightarrow> roundOf e r m n u pods s \<Longrightarrow>
    updateReplicas e (NewRealStatefulPodControl e) u cc pods s = Some (None, pods1, st, s') \<Longrightarrow>
    podSteps s ops s' \<Longrightarrow> carriedOut e u ops pods pods' \<Longrightarrow> rounds e r m n (Suc k) pods0 pods'"

text \<open>How much is left to do; a pod to be updated is deleted in one round and created in another.\<close>

definition work :: "string \<Rightarrow> int \<Rightarrow> nat \<Rightarrow> pod list \<Rightarrow> nat" where
  "work r m n pods = card (List.set (gaps n pods)) + card (List.set (beyond n pods))
     + 2 * card (List.set (lagging r m n pods))"

lemma set_gaps: "List.set (gaps n pods) = {i. i < n \<and> map_option getPodRevision (podAt pods i) = None}"
  by (auto simp: gaps_def)

lemma set_beyond_view: "List.set (beyond n pods) = {i. n \<le> i \<and> map_option getPodRevision (podAt pods i) \<noteq> None}"
  by (auto simp: set_beyond)

lemma set_lagging: "List.set (lagging r m n pods)
    = {i. nat m \<le> i \<and> i < n \<and> map_option getPodRevision (podAt pods i) \<notin> {None, Some r}}"
  by (auto simp: lagging_def split: option.splits)

lemmas work_sets = set_gaps set_beyond_view set_lagging

lemma newPod_revision:
  assumes "roundOf e r m n u pods s" and "m \<le> int i" and "newPod e u i = Some q"
  shows "getPodRevision q = r"
proof -
  from assms(1) have "\<exists>us ru part. UpdateStrategy (set_Spec (ro_currentSet u)) = Some us \<and> RollingUpdate us = Some ru
      \<and> Partition ru = Some part \<and> sint part = m"
    by (auto simp: roundOf_def plannable_def)
  then have "usesCurrentRevision (ro_currentSet u) (int i) = Some False"
    using assms(2) by (auto simp: usesCurrentRevision_def)
  with assms(1,3) show ?thesis by (auto simp: newVersionedStatefulSetPod_def bind_eq_Some_conv roundOf_def)
qed
text \<open>What a round does to the three sets, by the loop that acts.\<close>

lemma plan_gap:
  assumes "roundOf e r m n u pods s" and "gaps n pods \<noteq> []" and "\<And>i. i \<in> List.set (gaps n pods) \<Longrightarrow> newPod e u i \<noteq> None"
    and "carriedOut e u (plan (ro_set u) r b n pods) pods pods'"
  shows "\<exists>i \<in> List.set (gaps n pods). List.set (gaps n pods') = List.set (gaps n pods) - {i}
    \<and> List.set (beyond n pods') = List.set (beyond n pods) \<and> List.set (lagging r m n pods') = List.set (lagging r m n pods)"
proof -
  define k where "k = hd (gaps n pods)"
  from hd_gaps [OF assms(2)] have k: "k < n" "podAt pods k = None" by (simp_all add: k_def)
  from assms(2) have "k \<in> List.set (gaps n pods)" by (simp add: k_def)
  with assms(3) obtain q where q: "newPod e u k = Some q" by blast
  have view: "map_option getPodRevision (podAt pods' i) = (if i = k then Some (getPodRevision q)
      else map_option getPodRevision (podAt pods i))" for i
    using assms(2,4) q by (simp add: carriedOut_def plan_def k_def)
  show ?thesis
    by (rule bexI [of _ k]) (use k newPod_revision [OF assms(1) _ q] in \<open>auto simp: work_sets view nat_le_iff split: if_splits\<close>)
qed

lemma plan_beyond:
  assumes "gaps n pods = []" and "beyond n pods \<noteq> []" and "carriedOut e u (plan (ro_set u) r b n pods) pods pods'"
  shows "\<exists>i \<in> List.set (beyond n pods). List.set (gaps n pods') = List.set (gaps n pods)
    \<and> List.set (beyond n pods') = List.set (beyond n pods) - {i} \<and> List.set (lagging r m n pods') = List.set (lagging r m n pods)"
proof -
  define k where "k = Max (List.set (beyond n pods))"
  from assms(2) have k: "k \<in> List.set (beyond n pods)" by (simp add: k_def)
  then have "n \<le> k" by (simp add: set_beyond)
  have view: "map_option getPodRevision (podAt pods' i) = (if i = k then None else map_option getPodRevision (podAt pods i))" for i
    using assms by (simp add: carriedOut_def plan_def k_def)
  show ?thesis
    by (rule bexI [OF _ k]) (use \<open>n \<le> k\<close> in \<open>auto simp: work_sets view split: if_splits\<close>)
qed

lemma plan_lagging:
  assumes "gaps n pods = []" and "beyond n pods = []" and "b = UpdateFrom m mu" and "1 \<le> mu"
    and "carriedOut e u (plan (ro_set u) r b n pods) pods pods'"
  shows "\<exists>D. D \<subseteq> List.set (lagging r m n pods) \<and> (List.set (lagging r m n pods) \<noteq> {} \<longrightarrow> D \<noteq> {})
    \<and> List.set (gaps n pods') = D \<and> List.set (beyond n pods') = {} \<and> List.set (lagging r m n pods') = List.set (lagging r m n pods) - D"
proof -
  define D where "D = List.set (take (nat mu) (lagging r m n pods))"
  have D: "D \<subseteq> List.set (lagging r m n pods)" by (auto simp: D_def dest: in_set_takeD)
  then have Dn: "D \<subseteq> {..<n}" by (auto simp: lagging_def)
  have view: "map_option getPodRevision (podAt pods' i) = (if i \<in> D then None else map_option getPodRevision (podAt pods i))" for i
    using assms by (auto simp: carriedOut_def plan_def D_def)
  have full: "podAt pods i = None \<longleftrightarrow> n \<le> i" for i
  proof -
    have "i \<notin> List.set (gaps n pods)" "i \<notin> List.set (beyond n pods)" using assms(1,2) by simp_all
    then show ?thesis by (auto simp: gaps_def set_beyond)
  qed
  have some: "List.set (lagging r m n pods) \<noteq> {} \<longrightarrow> D \<noteq> {}" using assms(4) by (auto simp: D_def)
  have sets: "List.set (gaps n pods') = D" "List.set (beyond n pods') = {}"
    using Dn unfolding set_gaps set_beyond_view view by (auto simp: full split: if_splits)
  have "List.set (lagging r m n pods') = List.set (lagging r m n pods) - D"
    unfolding set_lagging view by (auto split: if_splits)
  with D some sets show ?thesis by (intro exI [of _ D] conjI)
qed

lemma work_step:
  assumes "roundOf e r m n u pods s" and "\<And>i. i \<in> List.set (gaps n pods) \<Longrightarrow> newPod e u i \<noteq> None"
    and "b = UpdateFrom m mu" and "1 \<le> mu"
    and "carriedOut e u (plan (ro_set u) r b n pods) pods pods'"
  shows "work r m n pods' \<le> work r m n pods - 1"
proof (cases "gaps n pods = []")
  case False
  from plan_gap [OF assms(1) False assms(2,5)] obtain i where "i \<in> List.set (gaps n pods)"
    "List.set (gaps n pods') = List.set (gaps n pods) - {i}" "List.set (beyond n pods') = List.set (beyond n pods)"
    "List.set (lagging r m n pods') = List.set (lagging r m n pods)" by blast
  then show ?thesis using card_Suc_Diff1 [of "List.set (gaps n pods)" i] by (simp add: work_def)
next
  case g: True
  show ?thesis
  proof (cases "beyond n pods = []")
    case False
    from plan_beyond [OF g False assms(5)] obtain i where "i \<in> List.set (beyond n pods)"
      "List.set (gaps n pods') = List.set (gaps n pods)" "List.set (beyond n pods') = List.set (beyond n pods) - {i}"
      "List.set (lagging r m n pods') = List.set (lagging r m n pods)" by blast
    then show ?thesis using g card_Suc_Diff1 [of "List.set (beyond n pods)" i] by (simp add: work_def)
  next
    case True
    from plan_lagging [OF g True assms(3-5)] obtain D where D: "D \<subseteq> List.set (lagging r m n pods)"
      "List.set (lagging r m n pods) \<noteq> {} \<longrightarrow> D \<noteq> {}" "List.set (gaps n pods') = D" "List.set (beyond n pods') = {}"
      "List.set (lagging r m n pods') = List.set (lagging r m n pods) - D" by (elim exE conjE) (rule that)
    have fin: "finite D" using finite_subset [OF D(1)] by simp
    have "card D \<le> card (List.set (lagging r m n pods))" using card_mono [OF _ D(1)] by simp
    moreover have "card (List.set (lagging r m n pods')) = card (List.set (lagging r m n pods)) - card D"
      using card_Diff_subset [OF fin D(1)] D(5) by argo
    moreover have "card D = 0 \<Longrightarrow> card (List.set (lagging r m n pods)) = 0" using D(2) fin by auto
    ultimately have "card D + 2 * card (List.set (lagging r m n pods')) \<le> 2 * card (List.set (lagging r m n pods)) - 1"
      by linarith
    with D(3,4) g True show ?thesis by (simp add: work_def)
  qed
qed

text \<open>The round writes the plan, so it does a part of the work.\<close>

lemma roundOf_work:
  assumes "fresh_pods (core e)" and "ranges_all (core e)" and "sorts_pods (core e)" and r: "roundOf e r m n u pods s"
    and m: "0 \<le> m" and run: "updateReplicas e (NewRealStatefulPodControl e) u cc pods s = Some (None, pods1, st, s')"
    and "podSteps s ops s'" and "carriedOut e u ops pods pods'"
  shows "work r m n pods' \<le> work r m n pods - 1"
proof -
  from r obtain mu and w :: int32 where u: "plannable e u" "calm e (ro_set u) pods" "updateName u = r"
    "Replicas (set_Spec (ro_set u)) = Some w" "sint w = int n" "1 \<le> mu"
    "updateBounds e u (sint w) (expectations s) = Some (UpdateFrom m mu)" by (auto simp: roundOf_def)
  from updateReplicas_plan [OF assms(1-3) u(1,2,4,7) _ run] u m assms(7)
  have "ops = plan (ro_set u) r (UpdateFrom m mu) n pods" by (auto dest: podSteps_det)
  moreover have "newPod e u i \<noteq> None" if "i \<in> List.set (gaps n pods)" for i
    using run
  proof (cases rule: updateReplicas_cases)
    case (1 w0 st0 rs first)
    with u(4,5) have "length rs = n" by simp
    with that 1(4) show ?thesis by (auto simp: gaps_def replicasOf_def)
  qed
  ultimately show ?thesis using work_step [OF r _ refl u(6)] assms(8) by blast
qed

lemma work_0:
  assumes "work r m n pods = 0"
  shows "\<forall>i < n. \<exists>p. podAt pods i = Some p \<and> (m \<le> int i \<longrightarrow> getPodRevision p = r)"
    and "\<forall>p \<in> List.set pods. getOrdinal p < int n"
proof -
  from assms have none: "i \<notin> List.set (gaps n pods)" "i \<notin> List.set (beyond n pods)" "i \<notin> List.set (lagging r m n pods)" for i
    by (simp_all add: work_def)
  show "\<forall>i < n. \<exists>p. podAt pods i = Some p \<and> (m \<le> int i \<longrightarrow> getPodRevision p = r)"
  proof (intro allI impI)
    fix i assume "i < n"
    with none(1) [of i] obtain p where "podAt pods i = Some p" by (auto simp: gaps_def)
    with none(3) [of i] \<open>i < n\<close> show "\<exists>p. podAt pods i = Some p \<and> (m \<le> int i \<longrightarrow> getPodRevision p = r)"
      by (auto simp: lagging_def nat_le_iff)
  qed
  show "\<forall>p \<in> List.set pods. getOrdinal p < int n"
  proof (intro ballI, rule ccontr)
    fix p assume "p \<in> List.set pods" "\<not> getOrdinal p < int n"
    then have "nat (getOrdinal p) \<in> List.set (beyond n pods)" by (auto simp: beyond_def)
    with none(2) show False by blast
  qed
qed

section \<open>The sample set in rounds\<close>

definition steadyRollout :: rollout where
  "steadyRollout = \<lparr>ro_set = sampleSet 1 0 ''OrderedReady'', ro_currentSet = sampleSet 1 0 ''OrderedReady'',
     ro_updateSet = sampleSet 1 0 ''OrderedReady'', ro_currentRevision = sampleRevision (emptyMeta\<lparr>Name := ''web''\<rparr>) [] 1,
     ro_updateRevision = sampleRevision (emptyMeta\<lparr>Name := ''web''\<rparr>) [] 1, ro_revisions = []\<rparr>"

abbreviation "webEnv \<equiv> sampleEnv (sampleSet 1 0 ''OrderedReady'')"
abbreviation "oldWeb \<equiv> samplePod ''web-0'' ''old'' PodRunning"
abbreviation "newWeb \<equiv> samplePod ''web-0'' ''web-rev'' PodRunning"

definition sampleRound :: "pod list \<Rightarrow> (error option \<times> podOp list) option" where
  "sampleRound pods = map_option (\<lambda>(err, pods, st, s). (err, podWrites (trace s)))
     (updateReplicas webEnv (NewRealStatefulPodControl webEnv) steadyRollout 0 pods sampleSys)"

lemma sampleRoundE:
  assumes "sampleRound pods = Some (err, ops)"
  obtains pods' st s' where "updateReplicas webEnv (NewRealStatefulPodControl webEnv) steadyRollout 0 pods sampleSys
    = Some (err, pods', st, s')" "podSteps sampleSys ops s'"
  using assms by (auto simp: sampleRound_def podSteps_def issues_def sampleSys_def)

lemma sample_rounds:
  "sampleRound [oldWeb] = Some (None, [PodDelete (ordinalKey (ro_set steadyRollout) 0)])"
  "sampleRound [] = Some (None, [PodCreate (ordinalKey (ro_set steadyRollout) 0)])"
  by code_simp+

lemma sample_plannable: "plannable webEnv steadyRollout"
  by (simp add: plannable_def monotonic_def recreatesPods_def validName_def steadyRollout_def sampleSet_def
      emptyMeta_def sampleStrategy_def allowsBurst_def RecreatePodUpdateStrategyType_def
      InPlaceIfPossiblePodUpdateStrategyType_def InPlaceOnlyPodUpdateStrategyType_def)

lemma sample_calm: "calm webEnv (ro_set steadyRollout) [oldWeb]" "calm webEnv (ro_set steadyRollout) []"
  by code_simp+

lemma sample_bounds: "updateBounds webEnv steadyRollout 1 (expectations sampleSys) = Some (UpdateFrom 0 1)"
  by code_simp

lemma sample_roundOf: "calm webEnv (ro_set steadyRollout) pods \<Longrightarrow> roundOf webEnv ''web-rev'' 0 1 steadyRollout pods sampleSys"
  using sample_plannable sample_bounds
  by (simp add: roundOf_def) (simp add: steadyRollout_def sampleSet_def sampleStrategy_def sampleRevision_def emptyMeta_def)

lemma sample_newPod: "map_option getPodRevision (newPod webEnv steadyRollout 0) = Some ''web-rev''"
  by code_simp

section \<open>Properties\<close>

text \<open>
  C5. Equivalence with the reference plan: when every listed pod is healthy and as it should be, a round under the
  default policy that recreates outdated pods and reports no error writes to pods exactly what \<open>plan\<close> says: it creates
  the pod at the lowest missing ordinal; if none is missing it deletes the pod at the highest ordinal beyond the
  replicas; if there is none either it deletes, from the highest ordinal down to the partition, the first
  \<open>maxUnavailable\<close> pods that are not at the update revision; and if the update is held back, nothing.
\<close>

theorem round_equals_plan:
  assumes "fresh_pods (core e)" and "ranges_all (core e)" and "sorts_pods (core e)" and "plannable e u"
    and "calm e (ro_set u) pods" and "Replicas (set_Spec (ro_set u)) = Some n"
    and "updateBounds e u (sint n) (expectations s) = Some b"
    and "\<And>m mu. b = UpdateFrom m mu \<Longrightarrow> 0 \<le> m \<and> 1 \<le> mu"
    and "updateReplicas e (NewRealStatefulPodControl e) u cc pods s = Some (None, pods', st, s')"
  shows "podSteps s ops s' \<longleftrightarrow> ops = plan (ro_set u) (updateName u) b (nat (sint n)) pods"
  using updateReplicas_plan [OF assms] by (auto dest: podSteps_det)

theorem round_equals_plan_witness:
  "plan (ro_set steadyRollout) ''web-rev'' (UpdateFrom 0 1) 1 [oldWeb] = [PodDelete (ordinalKey (ro_set steadyRollout) 0)]"
proof -
  obtain pods' st s' where run: "updateReplicas webEnv (NewRealStatefulPodControl webEnv) steadyRollout 0 [oldWeb] sampleSys
    = Some (None, pods', st, s')" "podSteps sampleSys [PodDelete (ordinalKey (ro_set steadyRollout) 0)] s'"
    by (rule sampleRoundE [OF sample_rounds(1)])
  have n: "Replicas (set_Spec (ro_set steadyRollout)) = Some 1" "updateName steadyRollout = ''web-rev''"
    by (simp_all add: steadyRollout_def sampleSet_def sampleRevision_def emptyMeta_def)
  have b: "updateBounds webEnv steadyRollout (sint (1 :: int32)) (expectations sampleSys) = Some (UpdateFrom 0 1)"
    using sample_bounds by simp
  from round_equals_plan [OF sample_fresh_pods sample_ranges_all sample_sorts_pods sample_plannable sample_calm(1) n(1) b _
      run(1), of "[PodDelete (ordinalKey (ro_set steadyRollout) 0)]"] run(2) n(2)
  show ?thesis by auto
qed

text \<open>
  C6. Convergence: \<open>k\<close> rounds without an error for the same number of replicas, partition and update revision, in a
  cluster that carries out what each of them writes and brings the pods up, end with a healthy set, as soon as \<open>k\<close>
  is at least the number of missing pods, plus the number of pods beyond the replicas, plus twice the number of pods
  that wait for the update: there is a pod at every ordinal of the set, at the update revision from the partition on,
  and none beyond.
\<close>

theorem rounds_converge:
  assumes "fresh_pods (core e)" and "ranges_all (core e)" and "sorts_pods (core e)" and "0 \<le> m"
    and "rounds e r m n k pods0 pods" and "work r m n pods0 \<le> k"
  shows "(\<forall>i < n. \<exists>p. podAt pods i = Some p \<and> (m \<le> int i \<longrightarrow> getPodRevision p = r))
    \<and> (\<forall>p \<in> List.set pods. getOrdinal p < int n)"
proof -
  have "work r m n pods \<le> work r m n pods0 - k"
    using assms(5)
  proof induction
    case start
    then show ?case by simp
  next
    case (round k pods0 pods u s cc pods1 st s' ops pods')
    from roundOf_work [OF assms(1-3) round(2) assms(4) round(3-5)] round.IH show ?case by linarith
  qed
  with assms(6) have "work r m n pods = 0" by simp
  from work_0 [OF this] show ?thesis by blast
qed

theorem rounds_converge_witness:
  "rounds webEnv ''web-rev'' 0 1 2 [oldWeb] [newWeb]
    \<and> (\<exists>p. podAt [newWeb] 0 = Some p \<and> getPodRevision p = ''web-rev'')"
proof -
  note web = start [of webEnv "''web-rev''" 0 1 "[oldWeb]"]
  have ord: "getOrdinal oldWeb = 0" "getOrdinal newWeb = 0" by code_simp+
  have at: "podAt [oldWeb] i = (if i = 0 then Some oldWeb else None)" "podAt [] i = None"
    "podAt [newWeb] i = (if i = 0 then Some newWeb else None)" for i
    using ord by (auto simp: podAt_def)
  have rev: "getPodRevision newWeb = ''web-rev''" by code_simp
  obtain pods1 st1 s1 where run1: "updateReplicas webEnv (NewRealStatefulPodControl webEnv) steadyRollout 0 [oldWeb] sampleSys
    = Some (None, pods1, st1, s1)" "podSteps sampleSys [PodDelete (ordinalKey (ro_set steadyRollout) 0)] s1"
    by (rule sampleRoundE [OF sample_rounds(1)])
  have "carriedOut webEnv steadyRollout [PodDelete (ordinalKey (ro_set steadyRollout) 0)] [oldWeb] []"
    by (simp add: carriedOut_def at)
  note web = round [OF web sample_roundOf [OF sample_calm(1)] run1 this]
  obtain pods2 st2 s2 where run2: "updateReplicas webEnv (NewRealStatefulPodControl webEnv) steadyRollout 0 [] sampleSys
    = Some (None, pods2, st2, s2)" "podSteps sampleSys [PodCreate (ordinalKey (ro_set steadyRollout) 0)] s2"
    by (rule sampleRoundE [OF sample_rounds(2)])
  have "carriedOut webEnv steadyRollout [PodCreate (ordinalKey (ro_set steadyRollout) 0)] [] [newWeb]"
    using sample_newPod by (auto simp: carriedOut_def at rev)
  note web = round [OF web sample_roundOf [OF sample_calm(2)] run2 this]
  have "work ''web-rev'' 0 1 [oldWeb] \<le> Suc (Suc 0)" by code_simp
  from rounds_converge [OF sample_fresh_pods sample_ranges_all sample_sorts_pods order.refl web this] web show ?thesis
    by (simp add: at numeral_2_eq_2)
qed

end
