(* ===== verification/Stone.thy ===== *)
theory Stone
  imports Cluster
begin

text \<open>
  \<^verbatim>\<open>controllers/stone_controller.go\<close>: the reconciler of a Stone, which keeps one StatefulSet per group of
  coordinates and a Service per StatefulSet. The Stone is handed around by pointer, so the operations that
  change it return it.
\<close>

section \<open>The StatefulSets of a Stone\<close>

definition stoneLabels :: "stone \<Rightarrow> gomap" where
  \<comment> \<open>\<open>app\<close>, and then every label of the Stone, which may overwrite it\<close>
  "stoneLabels ste = Some ([''app'' \<mapsto> Name (sn_Meta ste)] ++
     (case Labels (sn_Meta ste) of None \<Rightarrow> Map.empty | Some f \<Rightarrow> f))"

definition rollingStrategy :: "rollingUpdateStatefulSetStrategy" where
  "rollingStrategy = \<lparr>Partition = Some 0, MaxUnavailable = Some (IntVal 1),
     PodUpdatePolicy = InPlaceIfPossiblePodUpdateStrategyType, Paused = False, PriorityStrategy = None\<rparr>"

definition emptySetStatus :: statefulSetStatus where
  "emptySetStatus = \<lparr>ObservedGeneration = 0, st_Replicas = 0, ReadyReplicas = 0, CurrentReplicas = 0,
     UpdatedReplicas = 0, CurrentRevision = [], UpdateRevision = [], CollisionCount = None, st_Conditions = []\<rparr>"

definition newStoneSet :: "'w k8s \<Rightarrow> stone \<Rightarrow> coordinatesGroup \<Rightarrow> string \<Rightarrow> statefulSet" where
  \<comment> \<open>the StatefulSet built when there is none yet\<close>
  "newStoneSet e ste cg name =
     \<lparr>set_Meta = emptyMeta\<lparr>Name := name, Namespace := Namespace (sn_Meta ste),
        OwnerReferences := ownerReference_of (core e) (sn_Meta ste) ''Stone''\<rparr>,
      set_Spec =
        \<lparr>Replicas = None, Selector = Some \<lparr>MatchLabels = stoneLabels ste, sel_rest = []\<rparr>,
         Template =
           \<lparr>t_Meta = emptyMeta\<lparr>Labels := stoneLabels ste,
              Annotations := Some [''coordinates'' \<mapsto> lib_MarshalCoordinates (codec e) (Zoneset cg)]\<rparr>,
            t_Spec = (t_Spec (sn_Template (sn_Spec ste)))\<lparr>ReadinessGates := [StatefulSetInPlaceUpdateReady]\<rparr>\<rparr>,
         VolumeClaimTemplates = sn_VolumeClaimTemplates (sn_Spec ste), ServiceName = ''fake-'' @ name,
         PodManagementPolicy = ParallelPodManagement,
         UpdateStrategy = Some \<lparr>us_Type = RollingUpdateStatefulSetStrategyType, RollingUpdate = Some rollingStrategy\<rparr>,
         RevisionHistoryLimit = 0\<rparr>,
      set_Status = emptySetStatus\<rparr>"

datatype choice = Skip | Take int32

definition stoneSize :: "strategyType \<Rightarrow> nat \<Rightarrow> coordinatesGroup \<Rightarrow> (choice \<times> strategyType) option" where
  \<comment> \<open>the \<open>switch\<close>: what to do with the group, and the strategy after it; \<open>None\<close> is a nil dereference\<close>
  "stoneSize strategy i cg =
     (if strategy = Alpha then Some (if 0 < i then Skip else Take 1, strategy)
      else if strategy = Beta then Some (Take 1, strategy)
      else if strategy = Omega then Some (Take (word_of_int (int (length (Zoneset cg)))), strategy)
      else if strategy = Release then map_option (\<lambda>n. (Take n, strategy)) (cg_Replicas cg)
      else Some (Take 1, Alpha))"

definition fitSet :: "stone \<Rightarrow> int32 \<Rightarrow> statefulSet \<Rightarrow> statefulSet option" where
  \<comment> \<open>the assignments at the end of the loop's body; \<open>None\<close> if there is no rolling update to write to\<close>
  "fitSet ste n sts =
     (case UpdateStrategy (set_Spec sts) of
        None \<Rightarrow> None
      | Some us \<Rightarrow>
          (case RollingUpdate us of
             None \<Rightarrow> None
           | Some ru \<Rightarrow>
               let spec = set_Spec sts; template = Template spec;
                   template = template\<lparr>t_Spec := (t_Spec template)
                     \<lparr>Containers := Containers (t_Spec (sn_Template (sn_Spec ste)))\<rparr>\<rparr>
               in Some (sts\<lparr>set_Spec := spec\<lparr>Replicas := Some n, Template := template,
                    UpdateStrategy := Some (us\<lparr>RollingUpdate := Some (ru\<lparr>MaxUnavailable := Some (IntVal 1),
                      Partition := Some 0\<rparr>)\<rparr>)\<rparr>\<rparr>)))"

definition stoneSetKey :: "stone \<Rightarrow> nat \<Rightarrow> coordinatesGroup \<Rightarrow> objectKey" where
  "stoneSetKey ste i cg = \<lparr>key_Namespace = Namespace (sn_Meta ste), key_Name = statefulSetName ste (Group cg) (int i)\<rparr>"

fun getStatefulSet ::
  "'w k8s \<Rightarrow> nat \<Rightarrow> coordinatesGroup list \<Rightarrow> stone \<Rightarrow> 'w sys
     \<Rightarrow> ((error + statefulSet list) \<times> stone \<times> 'w sys) option" where
  \<comment> \<open>from group \<open>i\<close> on\<close>
  "getStatefulSet e i [] ste s = Some (Inr [], ste, s)"
| "getStatefulSet e i (cg # cgs) ste s =
     (case stoneSize (sn_Strategy (sn_Spec ste)) i cg of
        None \<Rightarrow> None
      | Some (Skip, strategy) \<Rightarrow> getStatefulSet e (Suc i) cgs ste s
      | Some (Take n, strategy) \<Rightarrow>
          let ste = ste\<lparr>sn_Spec := (sn_Spec ste)\<lparr>sn_Strategy := strategy\<rparr>\<rparr>; key = stoneSetKey ste i cg
          in (case getAs asSet e SetK key s of
                (got, s) \<Rightarrow>
                  (case (case got of
                           Inr sts \<Rightarrow> Inr sts
                         | Inl err \<Rightarrow> if IsNotFound (Some err) then Inr (newStoneSet e ste cg (key_Name key)) else Inl err) of
                     Inl err \<Rightarrow> Some (Inl err, ste, s)
                   | Inr sts \<Rightarrow>
                       (case fitSet ste n sts of
                          None \<Rightarrow> None
                        | Some sts \<Rightarrow>
                            (case getStatefulSet e (Suc i) cgs ste s of
                               Some (Inr rest, ste, s) \<Rightarrow> Some (Inr (sts # rest), ste, s)
                             | other \<Rightarrow> other)))))"

section \<open>The steps of a reconciliation\<close>

definition stoneSetAttempt ::
  "'w k8s \<Rightarrow> stone \<Rightarrow> statefulSet \<times> 'w sys \<Rightarrow> (error option \<times> statefulSet \<times> 'w sys) option" where
  "stoneSetAttempt e ste v =
     (case v of (sts, s) \<Rightarrow>
        (case getAs asSet e SetK \<lparr>key_Namespace = setNamespace sts, key_Name = setName sts\<rparr> s of
           (Inl err, s) \<Rightarrow>
             if IsNotFound (Some err) then
               (case writeAs asSet e (CreateCall (SetObj sts)) sts s of
                  (Some err, sts, s) \<Rightarrow> Some (Some err, sts, s)
                | (None, sts, s) \<Rightarrow>
                    (case lib_SetControllerReference (core e) (sn_Meta ste) (set_Meta sts) of
                       Inl err \<Rightarrow> Some (Some err, sts, s)
                     | Inr m \<Rightarrow> Some (None, sts\<lparr>set_Meta := m\<rparr>, s)))
             else Some (Some err, sts, s)
         | (Inr tmp, s) \<Rightarrow>
             (case (Replicas (set_Spec tmp), Replicas (set_Spec sts)) of
                (Some n, Some m) \<Rightarrow>
                  if n \<noteq> m \<or> t_Spec (Template (set_Spec tmp)) \<noteq> t_Spec (Template (set_Spec sts))
                  then Some (writeAs asSet e (UpdateCall (SetObj sts)) sts s)
                  else Some (None, sts, s)
              | _ \<Rightarrow> None)))"

definition updateStoneSet ::
  "'w k8s \<Rightarrow> stone \<Rightarrow> statefulSet \<Rightarrow> 'w sys \<Rightarrow> (error option \<times> statefulSet \<times> 'w sys) option" where
  "updateStoneSet e ste sts s =
     RetryOnConflict (core e) (lib_DefaultBackoffSteps (core e)) (stoneSetAttempt e ste) (sts, s)"

fun replaceAll :: "string \<Rightarrow> char \<Rightarrow> string \<Rightarrow> string" where
  \<comment> \<open>\<open>strings.Replace(text, string(c), new, -1)\<close>\<close>
  "replaceAll new c [] = []"
| "replaceAll new c (x # xs) = (if x = c then new else [x]) @ replaceAll new c xs"

definition dnsPort :: "servicePort \<Rightarrow> servicePort" where
  \<comment> \<open>what the loop of \<open>checkService\<close> does to its own copy of a port\<close>
  "dnsPort port = port\<lparr>port_Name :=
     replaceAll [] (CHR ''.'') (replaceAll ''-'' (CHR ''_'') (ToLower (port_Name port)))\<rparr>"

fun checkPorts :: "servicePort list \<Rightarrow> servicePort list \<Rightarrow> servicePort list" where
  \<comment> \<open>the loop: the loop variable is a copy, so the ports themselves stay as they are\<close>
  "checkPorts done [] = done"
| "checkPorts done (port # ports) = (let copy = dnsPort port in checkPorts (done @ [port]) ports)"

definition checkService :: "service \<Rightarrow> bool \<times> service" where
  "checkService svc =
     (if length (Ports (svc_Spec svc)) < 1 then (False, svc)
      else (True, svc\<lparr>svc_Spec := (svc_Spec svc)\<lparr>Ports := checkPorts [] (Ports (svc_Spec svc))\<rparr>\<rparr>))"

definition stoneService :: "'w k8s \<Rightarrow> stone \<Rightarrow> statefulSet \<Rightarrow> service" where
  "stoneService e ste sts =
     \<lparr>svc_Meta = emptyMeta\<lparr>Name := setName sts, Namespace := setNamespace sts,
        OwnerReferences := ownerReference_of (core e) (sn_Meta ste) ''Stone''\<rparr>,
      svc_Spec = (sn_Service (sn_Spec ste))\<lparr>svc_Selector := Some [''app'' \<mapsto> Name (sn_Meta ste)]\<rparr>\<rparr>"

definition stoneServiceAttempt :: "'w k8s \<Rightarrow> stone \<Rightarrow> statefulSet \<Rightarrow> 'w sys \<Rightarrow> (error option \<times> 'w sys) option" where
  "stoneServiceAttempt e ste sts s =
     (case getAs asSvc e SvcK \<lparr>key_Namespace = setNamespace sts, key_Name = setName sts\<rparr> s of
        (Inr _, s) \<Rightarrow> Some (None, s)
      | (Inl err, s) \<Rightarrow>
          if IsNotFound (Some err) then
            (case checkService (stoneService e ste sts) of
               (False, _) \<Rightarrow> Some (None, s)
             | (True, svc) \<Rightarrow>
                 (case writeAs asSvc e (CreateCall (SvcObj svc)) svc s of (err, _, s) \<Rightarrow> Some (err, s)))
          else Some (Some err, s))"

definition updateService :: "'w k8s \<Rightarrow> stone \<Rightarrow> statefulSet \<Rightarrow> 'w sys \<Rightarrow> (error option \<times> 'w sys) option" where
  "updateService e ste sts s =
     RetryOnConflict (core e) (lib_DefaultBackoffSteps (core e)) (stoneServiceAttempt e ste sts) s"

fun updateStoneSets ::
  "'w k8s \<Rightarrow> stone \<Rightarrow> statefulSet list \<Rightarrow> 'w sys \<Rightarrow> (error option \<times> statefulSet list \<times> 'w sys) option" where
  \<comment> \<open>the first loop of \<open>syncStatefulSet\<close>, with the sets as it leaves them\<close>
  "updateStoneSets e ste [] s = Some (None, [], s)"
| "updateStoneSets e ste (sts # stss) s =
     (case updateStoneSet e ste sts s of
        None \<Rightarrow> None
      | Some (Some err, sts, s) \<Rightarrow> Some (Some err, sts # stss, s)
      | Some (None, sts, s) \<Rightarrow>
          (case updateStoneSets e ste stss s of
             None \<Rightarrow> None
           | Some (err, stss, s) \<Rightarrow> Some (err, sts # stss, s)))"

definition syncAttempt :: "'w k8s \<Rightarrow> stone \<times> 'w sys \<Rightarrow> (error option \<times> stone \<times> 'w sys) option" where
  "syncAttempt e v =
     (case v of (ste, s) \<Rightarrow>
        (case getStatefulSet e 0 (sn_Coordinates (sn_Spec ste)) ste s of
           None \<Rightarrow> None
         | Some (Inl err, ste, s) \<Rightarrow> Some (Some err, ste, s)
         | Some (Inr statefulSets, ste, s) \<Rightarrow>
             (case updateStoneSets e ste statefulSets s of
                None \<Rightarrow> None
              | Some (Some err, statefulSets, s) \<Rightarrow> Some (Some err, ste, s)
              | Some (None, statefulSets, s) \<Rightarrow>
                  (case forEach (updateService e ste) statefulSets s of
                     None \<Rightarrow> None
                   | Some (err, s) \<Rightarrow> Some (err, ste, s)))))"

definition syncStoneSets :: "'w k8s \<Rightarrow> stone \<Rightarrow> 'w sys \<Rightarrow> (error option \<times> stone \<times> 'w sys) option" where
  "syncStoneSets e ste s = RetryOnConflict (core e) (lib_DefaultBackoffSteps (core e)) (syncAttempt e) (ste, s)"

definition stoneStatusOf :: "statefulSet list \<Rightarrow> stoneStatus" where
  "stoneStatusOf statefulSets =
     \<lparr>sns_Replicas = fold (\<lambda>sts n. n + st_Replicas (set_Status sts)) statefulSets 0,
      sns_StatefulSet = word_of_int (int (length statefulSets))\<rparr>"

definition stoneAttempt :: "'w k8s \<Rightarrow> stone \<times> 'w sys \<Rightarrow> (error option \<times> stone \<times> 'w sys) option" where
  "stoneAttempt e v =
     (case v of (ste, s) \<Rightarrow>
        (case lib_MarshalStoneSpec (codec e) (sn_Spec ste) of
           Inl err \<Rightarrow> Some (Some err, ste, s)
         | Inr data \<Rightarrow>
             let ste = ste\<lparr>sn_Meta := (sn_Meta ste)\<lparr>Annotations := mapPut (Annotations (sn_Meta ste)) ''spec'' data\<rparr>\<rparr>
             in (case writeAs asStone e (UpdateCall (StoneObj ste)) ste s of
                   (Some err, ste, s) \<Rightarrow> Some (Some err, ste, s)
                 | (None, ste, s) \<Rightarrow>
                     (case getStatefulSet e 0 (sn_Coordinates (sn_Spec ste)) ste s of
                        None \<Rightarrow> None
                      | Some (Inl err, ste, s) \<Rightarrow> Some (Some err, ste, s)
                      | Some (Inr statefulSets, ste, s) \<Rightarrow>
                          let ste = ste\<lparr>sn_Status := stoneStatusOf statefulSets\<rparr>
                          in Some (writeAs asStone e (StatusUpdateCall (StoneObj ste)) ste s)))))"

definition updateStone :: "'w k8s \<Rightarrow> stone \<Rightarrow> 'w sys \<Rightarrow> (error option \<times> stone \<times> 'w sys) option" where
  "updateStone e ste s = RetryOnConflict (core e) (lib_DefaultBackoffSteps (core e)) (stoneAttempt e) (ste, s)"

definition ReconcileStone :: "'w k8s \<Rightarrow> objectKey \<Rightarrow> 'w sys \<Rightarrow> (error option \<times> 'w sys) option" where
  "ReconcileStone e req s =
     (case getAs asStone e StoneK req s of
        (Inl err, s) \<Rightarrow> Some (if IsNotFound (Some err) then None else Some err, s)
      | (Inr ste, s) \<Rightarrow>
          (case syncStoneSets e ste s of
             None \<Rightarrow> None
           | Some (Some err, ste, s) \<Rightarrow> Some (Some err, s)
           | Some (None, ste, s) \<Rightarrow>
               (case updateStone e ste s of
                  None \<Rightarrow> None
                | Some (err, ste, s) \<Rightarrow> Some (err, s))))"

section \<open>What a Stone asks for\<close>

text \<open>The groups that get a StatefulSet, with its size; \<open>None\<close> if a missing size is dereferenced.\<close>

fun wantedSets :: "strategyType \<Rightarrow> nat \<Rightarrow> coordinatesGroup list \<Rightarrow> (nat \<times> coordinatesGroup \<times> int32) list option" where
  "wantedSets strategy i [] = Some []"
| "wantedSets strategy i (cg # cgs) =
     (case stoneSize strategy i cg of
        None \<Rightarrow> None
      | Some (Skip, strategy) \<Rightarrow> wantedSets strategy (Suc i) cgs
      | Some (Take n, strategy) \<Rightarrow> map_option (Cons (i, cg, n)) (wantedSets strategy (Suc i) cgs))"

abbreviation stoneWants :: "stone \<Rightarrow> (nat \<times> coordinatesGroup \<times> int32) list option" where
  "stoneWants ste \<equiv> wantedSets (sn_Strategy (sn_Spec ste)) 0 (sn_Coordinates (sn_Spec ste))"

definition effective :: "strategyType \<Rightarrow> strategyType" where
  "effective strategy = (if strategy \<in> {Alpha, Beta, Omega, Release} then strategy else Alpha)"

definition withStrategy :: "stone \<Rightarrow> strategyType \<Rightarrow> stone" where
  "withStrategy ste strategy = ste\<lparr>sn_Spec := (sn_Spec ste)\<lparr>sn_Strategy := strategy\<rparr>\<rparr>"

definition sameStone :: "stone \<Rightarrow> stone \<Rightarrow> bool" where
  "sameStone ste ste' \<longleftrightarrow>
     (\<exists>strategy. ste' = withStrategy ste strategy \<and> effective strategy = effective (sn_Strategy (sn_Spec ste)))"

lemma withStrategy_simps [simp]:
  "sn_Meta (withStrategy ste a) = sn_Meta ste" "sn_Strategy (sn_Spec (withStrategy ste a)) = a"
  "sn_Coordinates (sn_Spec (withStrategy ste a)) = sn_Coordinates (sn_Spec ste)"
  "withStrategy (withStrategy ste a) b = withStrategy ste b" "withStrategy ste (sn_Strategy (sn_Spec ste)) = ste"
  "fitSet (withStrategy ste a) = fitSet ste" "newStoneSet e (withStrategy ste a) = newStoneSet e ste"
  "stoneSetKey (withStrategy ste a) = stoneSetKey ste" "stoneService e (withStrategy ste a) = stoneService e ste"
  by (simp_all add: withStrategy_def fitSet_def newStoneSet_def stoneLabels_def stoneSetKey_def statefulSetName_def
      stoneService_def fun_eq_iff Let_def cong: option.case_cong)

lemma sameStone_refl [simp, intro]: "sameStone ste ste"
  unfolding sameStone_def by (rule exI [of _ "sn_Strategy (sn_Spec ste)"]) simp

lemma sameStone_trans: "sameStone a b \<Longrightarrow> sameStone b c \<Longrightarrow> sameStone a c"
  by (auto simp: sameStone_def)

lemma stoneSize_strategy: "stoneSize strategy i cg = Some (ch, strategy') \<Longrightarrow> effective strategy' = effective strategy"
  by (auto simp: stoneSize_def effective_def strategy_defs split: if_splits)

lemma sameStone_size:
  "sameStone ste0 ste \<Longrightarrow> stoneSize (sn_Strategy (sn_Spec ste)) i cg = Some (ch, st) \<Longrightarrow> sameStone ste0 (withStrategy ste st)"
  by (auto simp: sameStone_def) (metis stoneSize_strategy)

text \<open>An unknown strategy is \<open>Alpha\<close>, whether or not it has been replaced yet.\<close>

lemma wantedSets_effective:
  assumes "effective a = effective b" shows "wantedSets a 0 cgs = wantedSets b 0 cgs"
proof (cases cgs)
  case (Cons cg rest)
  have "wantedSets c 0 (cg # rest) = wantedSets (effective c) 0 (cg # rest)" for c
    by (cases "c \<in> {Alpha, Beta, Omega, Release}") (auto simp: effective_def stoneSize_def strategy_defs)
  with assms Cons show ?thesis by metis
qed simp

lemma sameStone_wants: "sameStone a b \<Longrightarrow> stoneWants b = stoneWants a"
  by (auto simp: sameStone_def intro: wantedSets_effective)

section \<open>Facts\<close>

text \<open>
  The StatefulSet handed on for a group: a new one if none was found, else the one that was read, with size,
  containers and rolling update parameters replaced.
\<close>

definition desired ::
  "'w k8s \<Rightarrow> stone \<Rightarrow> (call \<times> reply) list \<Rightarrow> nat \<times> coordinatesGroup \<times> int32 \<Rightarrow> statefulSet \<Rightarrow> bool" where
  "desired e ste h w sts \<longleftrightarrow> (case w of (i, cg, n) \<Rightarrow>
     metaKey (set_Meta sts) = stoneSetKey ste i cg \<and> (\<exists>base. fitSet ste n base = Some sts
       \<and> (base = newStoneSet e ste cg (key_Name (stoneSetKey ste i cg)) \<and> (GetCall SetK (stoneSetKey ste i cg), Fail NotFound) \<in> set h
          \<or> (GetCall SetK (stoneSetKey ste i cg), Got (SetObj base)) \<in> set h)))"

lemma desired_mono: "desired e ste h w sts \<Longrightarrow> set h \<subseteq> set h' \<Longrightarrow> desired e ste h' w sts"
  by (cases w) (auto simp: desired_def)

lemma desired_withStrategy [simp]: "desired e (withStrategy ste a) = desired e ste"
  by (simp add: desired_def fun_eq_iff)

lemma fitSet_spec:
  "fitSet ste n base = Some sts \<Longrightarrow> set_Meta sts = set_Meta base \<and> Replicas (set_Spec sts) = Some n
     \<and> Containers (t_Spec (Template (set_Spec sts))) = Containers (t_Spec (sn_Template (sn_Spec ste)))
     \<and> t_Meta (Template (set_Spec sts)) = t_Meta (Template (set_Spec base))"
  by (auto simp: fitSet_def Let_def split: option.splits)

lemma newStoneSet_key: "metaKey (set_Meta (newStoneSet e ste cg (key_Name (stoneSetKey ste i cg)))) = stoneSetKey ste i cg"
  by (simp add: newStoneSet_def metaKey_def stoneSetKey_def emptyMeta_def)

lemma getStatefulSet_desired:
  assumes "gets_named e" and "getAs asSet e SetK (stoneSetKey ste i cg) s = (got, s1)"
    and "(case got of Inr sts \<Rightarrow> Inr sts | Inl err \<Rightarrow> if IsNotFound (Some err)
        then Inr (newStoneSet e ste cg (key_Name (stoneSetKey ste i cg))) else Inl err) = Inr base"
    and "fitSet ste n base = Some sts"
  shows "desired e ste (trace s1) (i, cg, n) sts"
proof (cases got)
  case (Inl err)
  with assms(3) have nf: "err = NotFound" "base = newStoneSet e ste cg (key_Name (stoneSetKey ste i cg))"
    by (auto simp: IsNotFound_def split: if_splits)
  from getAs_notFound [OF assms(2) [unfolded Inl nf(1)], of SetObj] have
    "(GetCall SetK (stoneSetKey ste i cg), Fail NotFound) \<in> set (trace s1)" by (simp add: issues_def)
  with nf(2) assms(4) newStoneSet_key [of e ste cg i] fitSet_spec [OF assms(4)] show ?thesis
    by (auto simp: desired_def)
next
  case (Inr sts0)
  with assms(3) have b: "base = sts0" by simp
  from getAs_found [OF assms(2) [unfolded Inr], of SetObj] have
    "(GetCall SetK (stoneSetKey ste i cg), Got (SetObj sts0)) \<in> set (trace s1)" by (simp add: issues_def)
  with b assms(4) getAs_named [OF assms(1,2) [unfolded Inr], of SetObj] fitSet_spec [OF assms(4)] show ?thesis
    by (auto simp: desired_def)
qed

lemma getStatefulSet_spec:
  assumes "gets_named e" and "\<And>h k key. J h (GetCall k key)"
    and "getStatefulSet e i cgs ste s = Some (res, ste', s')"
  shows "justified J s s' \<and> sameStone ste ste' \<and> (\<forall>stss. res = Inr stss \<longrightarrow>
    (\<exists>ws. wantedSets (sn_Strategy (sn_Spec ste)) i cgs = Some ws \<and> list_all2 (desired e ste (trace s')) ws stss))"
  using assms(3)
proof (induction cgs arbitrary: i ste s res ste' s')
  case Nil
  then show ?case by auto
next
  case (Cons cg cgs)
  from Cons.prems obtain ch st where sz: "stoneSize (sn_Strategy (sn_Spec ste)) i cg = Some (ch, st)"
    by (auto split: option.splits)
  have same: "sameStone ste (withStrategy ste st)" by (rule sameStone_size [OF sameStone_refl sz])
  show ?case
  proof (cases ch)
    case Skip
    with sz have "st = sn_Strategy (sn_Spec ste)" by (auto simp: stoneSize_def split: if_splits)
    with Cons.IH [of "Suc i" ste s res ste' s'] Cons.prems sz Skip show ?thesis by simp
  next
    case (Take n)
    let ?ste = "withStrategy ste st" and ?key = "stoneSetKey ste i cg"
    obtain got s1 where g: "getAs asSet e SetK ?key s = (got, s1)" by fastforce
    have g1: "justified J s s1" by (rule justified_getAs [OF g]) (rule assms(2))
    let ?base = "case got of Inr sts \<Rightarrow> Inr sts | Inl err \<Rightarrow>
      if IsNotFound (Some err) then Inr (newStoneSet e ste cg (key_Name ?key)) else Inl err"
    have step: "getStatefulSet e i (cg # cgs) ste s = (case ?base of Inl err \<Rightarrow> Some (Inl err, ?ste, s1)
      | Inr sts \<Rightarrow> (case fitSet ste n sts of None \<Rightarrow> None | Some sts \<Rightarrow>
          (case getStatefulSet e (Suc i) cgs ?ste s1 of Some (Inr rest, ste, s) \<Rightarrow> Some (Inr (sts # rest), ste, s)
           | other \<Rightarrow> other)))"
      using sz Take g by (cases got) (simp_all add: Let_def withStrategy_def [symmetric])
    show ?thesis
    proof (cases ?base)
      case (Inl err)
      with step Cons.prems g1 same show ?thesis by auto
    next
      case (Inr base)
      with step Cons.prems obtain sts where fit: "fitSet ste n base = Some sts" by (auto split: option.splits)
      from step Inr fit Cons.prems obtain res1 where rest: "getStatefulSet e (Suc i) cgs ?ste s1 = Some (res1, ste', s')"
        "res = (case res1 of Inl err \<Rightarrow> Inl err | Inr r \<Rightarrow> Inr (sts # r))"
        by (auto split: option.splits sum.splits)
      note ih = Cons.IH [OF rest(1)]
      from getStatefulSet_desired [OF assms(1) g Inr fit] ih have "desired e ste (trace s') (i, cg, n) sts"
        by (auto elim: desired_mono dest: justified_history)
      with ih rest(2) sz Take justified_trans [OF g1] sameStone_trans [OF same] show ?thesis
        by (auto split: sum.splits)
    qed
  qed
qed

definition asks :: "'w k8s \<Rightarrow> stone \<Rightarrow> (call \<times> reply) list \<Rightarrow> statefulSet \<Rightarrow> bool" where
  "asks e ste h sts \<longleftrightarrow> (\<exists>ws. stoneWants ste = Some ws \<and> (\<exists>w \<in> set ws. desired e ste h w sts))"

lemma asks_mono: "asks e ste h x \<Longrightarrow> set h \<subseteq> set h' \<Longrightarrow> asks e ste h' x"
  unfolding asks_def by (blast intro: desired_mono)

definition setDiffers :: "statefulSet \<Rightarrow> statefulSet \<Rightarrow> bool" where
  "setDiffers tmp sts \<longleftrightarrow> Replicas (set_Spec tmp) \<noteq> Replicas (set_Spec sts)
     \<or> t_Spec (Template (set_Spec tmp)) \<noteq> t_Spec (Template (set_Spec sts))"

text \<open>
  A StatefulSet of the Stone as the reconciler holds it: as the Stone asks for it, or what the server answered when it
  was written, after a creation with the Stone set as its controller.
\<close>

abbreviation storedSet :: "statefulSet \<Rightarrow> reply \<Rightarrow> statefulSet" where
  "storedSet \<equiv> written asSet"

definition heldSet :: "'w k8s \<Rightarrow> stone \<Rightarrow> (call \<times> reply) list \<Rightarrow> statefulSet \<Rightarrow> bool" where
  "heldSet e ste h sts \<longleftrightarrow> (\<exists>x. asks e ste h x \<and> (sts = x
     \<or> (\<exists>r. (UpdateCall (SetObj x), r) \<in> set h \<and> (\<forall>y. r \<noteq> Fail y) \<and> sts = storedSet x r)
     \<or> (\<exists>r m. (CreateCall (SetObj x), r) \<in> set h \<and> (\<forall>y. r \<noteq> Fail y)
          \<and> lib_SetControllerReference (core e) (sn_Meta ste) (set_Meta (storedSet x r)) = Inr m
          \<and> sts = (storedSet x r)\<lparr>set_Meta := m\<rparr>)))"

text \<open>
  The Stone itself as the reconciler holds it, made from \<open>base\<close>, which was read or answered by the server: nothing but
  the annotation of the spec, an unknown strategy replaced by \<open>Alpha\<close>, and the status counted from the sets asked for.
\<close>

abbreviation storedStone :: "stone \<Rightarrow> reply \<Rightarrow> stone" where
  "storedStone \<equiv> written asStone"

definition countedStatus :: "'w k8s \<Rightarrow> stone \<Rightarrow> (call \<times> reply) list \<Rightarrow> stoneStatus \<Rightarrow> bool" where
  "countedStatus e base h st \<longleftrightarrow>
     (\<exists>ws sets. stoneWants base = Some ws \<and> list_all2 (desired e base h) ws sets \<and> st = stoneStatusOf sets)"

definition heldStone :: "'w k8s \<Rightarrow> stone \<Rightarrow> (call \<times> reply) list \<Rightarrow> stone \<Rightarrow> bool" where
  "heldStone e base h x \<longleftrightarrow> (\<exists>strategy ann. effective strategy = effective (sn_Strategy (sn_Spec base))
     \<and> sn_Spec x = (sn_Spec base)\<lparr>sn_Strategy := strategy\<rparr> \<and> sn_Meta x = (sn_Meta base)\<lparr>Annotations := ann\<rparr>
     \<and> (ann = Annotations (sn_Meta base) \<or> (\<exists>data. ann = mapPut (Annotations (sn_Meta base)) ''spec'' data))
     \<and> (sn_Status x = sn_Status base \<or> countedStatus e base h (sn_Status x)))"

definition stoneBase :: "stone \<Rightarrow> (call \<times> reply) list \<Rightarrow> stone \<Rightarrow> bool" where
  "stoneBase ste h base \<longleftrightarrow> base = ste
     \<or> (\<exists>x r. (UpdateCall (StoneObj x), r) \<in> set h \<and> (\<forall>y. r \<noteq> Fail y) \<and> base = storedStone x r)"

definition stoneUpdateCall :: "'w k8s \<Rightarrow> stone \<Rightarrow> (call \<times> reply) list \<Rightarrow> stone \<Rightarrow> bool" where
  "stoneUpdateCall e ste h x \<longleftrightarrow> (\<exists>base. stoneBase ste h base \<and> heldStone e base h x)
     \<and> (\<exists>data. lib_MarshalStoneSpec (codec e) (sn_Spec x) = Inr data \<and> mapLookup (Annotations (sn_Meta x)) ''spec'' = Some data)"

text \<open>
  The status goes out right after the accepted write of the annotation and the reads of the sets, and changes of the
  Stone that the server answered nothing but the status, apart from an unknown strategy.
\<close>

definition stoneStatusCall :: "'w k8s \<Rightarrow> (call \<times> reply) list \<Rightarrow> stone \<Rightarrow> bool" where
  "stoneStatusCall e h x \<longleftrightarrow> (\<exists>h0 y r reads base. h = h0 @ (UpdateCall (StoneObj y), r) # reads
     \<and> (\<forall>z. r \<noteq> Fail z) \<and> list_all (\<lambda>en. \<exists>k key. fst en = GetCall k key) reads \<and> base = storedStone y r
     \<and> sn_Meta x = sn_Meta base \<and> sameStone base (x\<lparr>sn_Status := sn_Status base\<rparr>) \<and> countedStatus e base h (sn_Status x))"

text \<open>Why a call of the reconciler is allowed, given the trace before it.\<close>

fun stoneCall :: "'w k8s \<Rightarrow> stone \<Rightarrow> (call \<times> reply) list \<Rightarrow> call \<Rightarrow> bool" where
  "stoneCall e ste h (GetCall k key) \<longleftrightarrow> True"
| "stoneCall e ste h (CreateCall (SetObj x)) \<longleftrightarrow>
     asks e ste h x \<and> justAfter (GetCall SetK (metaKey (set_Meta x)), Fail NotFound) h"
| "stoneCall e ste h (UpdateCall (SetObj x)) \<longleftrightarrow>
     asks e ste h x \<and> (\<exists>tmp. setDiffers tmp x \<and> justAfter (GetCall SetK (metaKey (set_Meta x)), Got (SetObj tmp)) h)"
| "stoneCall e ste h (CreateCall (SvcObj v)) \<longleftrightarrow> Ports (svc_Spec v) \<noteq> [] \<and> (\<exists>sts. heldSet e ste h sts \<and> v = stoneService e ste sts)
     \<and> justAfter (GetCall SvcK (metaKey (svc_Meta v)), Fail NotFound) h"
| "stoneCall e ste h (UpdateCall (StoneObj x)) \<longleftrightarrow> stoneUpdateCall e ste h x"
| "stoneCall e ste h (StatusUpdateCall (StoneObj x)) \<longleftrightarrow> stoneStatusCall e h x"
| "stoneCall e ste h _ \<longleftrightarrow> False"

text \<open>The entry of the trace from which a StatefulSet is known to be as the Stone wants it.\<close>

definition asWanted :: "stone \<Rightarrow> nat \<times> coordinatesGroup \<times> int32 \<Rightarrow> statefulSet \<Rightarrow> bool" where
  "asWanted ste w x \<longleftrightarrow> (case w of (i, cg, n) \<Rightarrow> Replicas (set_Spec x) = Some n
     \<and> Containers (t_Spec (Template (set_Spec x))) = Containers (t_Spec (sn_Template (sn_Spec ste))))"

definition realised :: "stone \<Rightarrow> nat \<times> coordinatesGroup \<times> int32 \<Rightarrow> call \<times> reply \<Rightarrow> bool" where
  "realised ste w en \<longleftrightarrow> (case w of (i, cg, n) \<Rightarrow>
     (\<exists>x. asWanted ste w x \<and> en = (GetCall SetK (stoneSetKey ste i cg), Got (SetObj x)))
     \<or> (\<exists>x r. asWanted ste w x \<and> metaKey (set_Meta x) = stoneSetKey ste i cg \<and> (\<forall>y. r \<noteq> Fail y)
          \<and> (en = (CreateCall (SetObj x), r) \<or> en = (UpdateCall (SetObj x), r))))"

lemma desired_wanted: "desired e ste h (i, cg, n) x \<Longrightarrow> asWanted ste (i, cg, n) x \<and> metaKey (set_Meta x) = stoneSetKey ste i cg"
  by (auto simp: desired_def asWanted_def dest: fitSet_spec)

lemma asWanted_withStrategy [simp]: "asWanted (withStrategy ste a) w x = asWanted ste w x"
  by (simp add: asWanted_def withStrategy_def)

lemma heldSet_mono: "heldSet e ste h x \<Longrightarrow> set h \<subseteq> set h' \<Longrightarrow> heldSet e ste h' x"
  unfolding heldSet_def by (blast intro: asks_mono)

lemma heldSet_asked: "asks e ste h x \<Longrightarrow> heldSet e ste h x"
  unfolding heldSet_def by blast

lemma heldSet_updated:
  "asks e ste h x \<Longrightarrow> (UpdateCall (SetObj x), r) \<in> set h \<Longrightarrow> \<forall>y. r \<noteq> Fail y \<Longrightarrow> heldSet e ste h (storedSet x r)"
  unfolding heldSet_def by blast

lemma heldSet_created:
  "asks e ste h x \<Longrightarrow> (CreateCall (SetObj x), r) \<in> set h \<Longrightarrow> \<forall>y. r \<noteq> Fail y \<Longrightarrow>
     lib_SetControllerReference (core e) (sn_Meta ste) (set_Meta (storedSet x r)) = Inr m \<Longrightarrow>
     heldSet e ste h ((storedSet x r)\<lparr>set_Meta := m\<rparr>)"
  unfolding heldSet_def by blast

text \<open>What one run of the closure that keeps a StatefulSet leaves behind.\<close>

definition setAttempted :: "'w k8s \<Rightarrow> stone \<Rightarrow> nat \<times> coordinatesGroup \<times> int32 \<Rightarrow> statefulSet
    \<Rightarrow> 'w sys \<Rightarrow> error option \<Rightarrow> statefulSet \<Rightarrow> 'w sys \<Rightarrow> bool" where
  "setAttempted e ste w x s err x' s' \<longleftrightarrow> justified (stoneCall e ste) s s'
     \<and> (err = None \<longrightarrow> emits (realised ste w) s s' \<and> heldSet e ste (trace s') x') \<and> (err = Some Conflict \<longrightarrow> x' = x)"

lemma stoneSetAttempt_create:
  assumes "stoneSetAttempt e ste' (x, s) = Some (err, x', s')" and "owner_errors (core e)" and "sn_Meta ste' = sn_Meta ste"
    and "asks e ste (trace s) x" and w: "desired e ste (trace s) w x"
    and g: "getAs asSet e SetK (metaKey (set_Meta x)) s = (Inl NotFound, s1)"
  shows "setAttempted e ste w x s err x' s'"
proof -
  let ?J = "stoneCall e ste"
  obtain werr y s2 where c: "writeAs asSet e (CreateCall (SetObj x)) x s1 = (werr, y, s2)" by (metis prod_cases3)
  note gi = getAs_notFound [OF g, of SetObj, simplified]
  have asked: "asks e ste (trace s1) x" by (rule asks_mono [OF assms(4)]) (use gi in \<open>auto simp: issues_def\<close>)
  then have "?J (trace s1) (CreateCall (SetObj x))" using justAfter_issues [OF gi] by simp
  from justified_trans [OF justified_getAs [OF g, of ?J] justified_writeAs [OF c, of ?J, OF this]]
  have w1: "justified ?J s s2" by simp
  obtain i cg n where wd: "w = (i, cg, n)" by (cases w)
  have emitted: "emits (realised ste w) s s2" if "werr = None"
    using c that desired_wanted [OF w [unfolded wd]] wd
    by (intro getAs_then_emits [OF g] writeAs_emits [of asSet e _ x s1 y]) (auto simp: realised_def)
  obtain r where r: "trace s2 = trace s1 @ [(CreateCall (SetObj x), r)]"
    "if werr = None then (\<forall>z. r \<noteq> Fail z) \<and> y = storedSet x r else y = x"
      using writeAs_written [OF c] by blast
  have kept: "heldSet e ste (trace s2) (y\<lparr>set_Meta := m\<rparr>)"
    if "werr = None" "lib_SetControllerReference (core e) (sn_Meta ste) (set_Meta y) = Inr m" for m
    using heldSet_created [of e ste "trace s2" x r m] asks_mono [OF asked, of "trace s2"] r that by auto
  show ?thesis
  proof (cases werr)
    case (Some er)
    with assms(1) g c w1 r(2) show ?thesis
      by (auto simp: setAttempted_def stoneSetAttempt_def IsNotFound_def metaKey_def)
  next
    case None
    with assms(1-3) g c w1 emitted kept show ?thesis
      by (auto simp: setAttempted_def stoneSetAttempt_def IsNotFound_def owner_errors_def metaKey_def split: sum.splits)
  qed
qed

lemma stoneSetAttempt_update:
  assumes "stoneSetAttempt e ste' (x, s) = Some (err, x', s')"
    and "asks e ste (trace s) x" and w: "desired e ste (trace s) w x"
    and g: "getAs asSet e SetK (metaKey (set_Meta x)) s = (Inr tmp, s1)"
  shows "setAttempted e ste w x s err x' s'"
proof -
  let ?J = "stoneCall e ste"
  obtain i cg n where wd: "w = (i, cg, n)" by (cases w)
  note x = desired_wanted [OF w [unfolded wd]]
  note gi = getAs_found [OF g, of SetObj, simplified]
  have g1: "justified ?J s s1" by (rule justified_getAs [OF g]) simp
  have asked: "asks e ste (trace s1) x" by (rule asks_mono [OF assms(2)]) (use gi in \<open>auto simp: issues_def\<close>)
  then have same: "heldSet e ste (trace s1) x" by (rule heldSet_asked)
  show ?thesis
  proof (cases "setDiffers tmp x")
    case False
    with x have "asWanted ste (i, cg, n) tmp" by (auto simp: asWanted_def setDiffers_def)
    with gi x wd have "emits (realised ste w) s s1" by (auto intro!: emits_single simp: realised_def)
    with False assms(1) g g1 same show ?thesis
      by (auto simp: setAttempted_def stoneSetAttempt_def setDiffers_def metaKey_def split: option.splits)
  next
    case True
    obtain werr y s2 where c: "writeAs asSet e (UpdateCall (SetObj x)) x s1 = (werr, y, s2)" by (metis prod_cases3)
    have "?J (trace s1) (UpdateCall (SetObj x))" using asked True justAfter_issues [OF gi] by auto
    from justified_trans [OF g1 justified_writeAs [OF c, of ?J, OF this]] have w1: "justified ?J s s2" .
    have emitted: "emits (realised ste w) s s2" if "werr = None"
      using c that x wd by (intro getAs_then_emits [OF g] writeAs_emits [of asSet e _ x s1 y]) (auto simp: realised_def)
    obtain r where r: "trace s2 = trace s1 @ [(UpdateCall (SetObj x), r)]"
      "if werr = None then (\<forall>z. r \<noteq> Fail z) \<and> y = storedSet x r else y = x"
      using writeAs_written [OF c] by blast
    have kept: "heldSet e ste (trace s2) y" if "werr = None"
      using heldSet_updated [of e ste "trace s2" x r] asks_mono [OF asked, of "trace s2"] r that by auto
    from True assms(1) g c have "err = werr \<and> x' = y \<and> s' = s2"
      by (auto simp: stoneSetAttempt_def setDiffers_def metaKey_def split: option.splits if_splits)
    with w1 emitted kept r(2) show ?thesis by (auto simp: setAttempted_def)
  qed
qed

lemma stoneSetAttempt_spec:
  assumes "stoneSetAttempt e ste' (x, s) = Some (err, x', s')" and "owner_errors (core e)" and "sn_Meta ste' = sn_Meta ste"
    and "asks e ste (trace s) x" and "desired e ste (trace s) w x"
  shows "setAttempted e ste w x s err x' s'"
proof -
  obtain r s1 where g: "getAs asSet e SetK (metaKey (set_Meta x)) s = (r, s1)" by fastforce
  consider "r = Inl NotFound" | y where "r = Inl y" "y \<noteq> NotFound" | tmp where "r = Inr tmp" by (cases r) auto
  then show ?thesis
  proof cases
    case 1
    with stoneSetAttempt_create [OF assms] g show ?thesis by simp
  next
    case 2
    with assms(1) g justified_getAs [OF g, of "stoneCall e ste"] show ?thesis
      by (auto simp: setAttempted_def stoneSetAttempt_def IsNotFound_def metaKey_def)
  next
    case 3
    with stoneSetAttempt_update [OF assms(1,4,5)] g show ?thesis by simp
  qed
qed

lemma updateStoneSet_spec:
  assumes "retries_conflicts (core e)" and "owner_errors (core e)" and "sn_Meta ste' = sn_Meta ste"
    and "asks e ste (trace s) x" and "desired e ste (trace s) w x"
    and "updateStoneSet e ste' x s = Some (err, x', s')"
  shows "justified (stoneCall e ste) s s' \<and> (err = None \<longrightarrow> emits (realised ste w) s s' \<and> heldSet e ste (trace s') x')"
proof -
  let ?J = "stoneCall e ste"
  let ?Q = "\<lambda>err v. justified ?J s (snd v)
    \<and> (err = None \<longrightarrow> emits (realised ste w) s (snd v) \<and> heldSet e ste (trace (snd v)) (fst v))"
  have step: "?Q er v' \<and> (er = Some Conflict \<longrightarrow> fst v' = x)"
    if v: "fst v = x \<and> justified ?J s (snd v)" and run: "stoneSetAttempt e ste' v = Some (er, v')" for v er v'
  proof -
    from v justified_history [of ?J s "snd v"] have "asks e ste (trace (snd v)) x" "desired e ste (trace (snd v)) w x"
      using assms(4,5) by (auto intro: asks_mono desired_mono)
    with stoneSetAttempt_spec [of e ste' x "snd v" er "fst v'" "snd v'" ste w] v run assms(2,3)
    have "setAttempted e ste w x (snd v) er (fst v') (snd v')" by (cases v) simp
    with v justified_trans [of ?J s "snd v" "snd v'"] justified_then_emits [of ?J s "snd v" _ "snd v'"] show ?thesis
      by (auto simp: setAttempted_def)
  qed
  have "?Q err (x', s')"
  proof (rule RetryOnConflict_conflicts [OF assms(1) assms(6) [unfolded updateStoneSet_def],
        where I = "\<lambda>v. fst v = x \<and> justified ?J s (snd v)" and Q = ?Q])
    fix v v'
    assume "fst v = x \<and> justified ?J s (snd v)" "stoneSetAttempt e ste' v = Some (Some Conflict, v')"
    from step [OF this] show "fst v' = x \<and> justified ?J s (snd v')" by simp
  next
    fix v er v'
    assume "fst v = x \<and> justified ?J s (snd v)" "stoneSetAttempt e ste' v = Some (er, v')"
    from step [OF this] show "?Q er v'" by simp
  qed simp
  then show ?thesis by simp
qed

lemma updateStoneSets_spec:
  assumes "retries_conflicts (core e)" and "owner_errors (core e)" and "sn_Meta ste' = sn_Meta ste"
    and "list_all2 (\<lambda>w x. asks e ste (trace s) x \<and> desired e ste (trace s) w x) ws stss"
    and "updateStoneSets e ste' stss s = Some (err, stss', s')"
  shows "justified (stoneCall e ste) s s' \<and> (err = None \<longrightarrow> (\<forall>w \<in> set ws. emits (realised ste w) s s')
    \<and> (\<forall>x \<in> set stss'. heldSet e ste (trace s') x))"
  using assms(4,5)
proof (induction stss arbitrary: ws s err stss' s' rule: list.induct)
  case Nil
  then show ?case by auto
next
  case (Cons x stss)
  let ?J = "stoneCall e ste"
  from Cons.prems(1) obtain w ws' where ws: "ws = w # ws'" "asks e ste (trace s) x" "desired e ste (trace s) w x"
    "list_all2 (\<lambda>w x. asks e ste (trace s) x \<and> desired e ste (trace s) w x) ws' stss"
    by (auto simp: list_all2_Cons2)
  from Cons.prems(2) obtain er y s1 where u: "updateStoneSet e ste' x s = Some (er, y, s1)" by (auto split: option.splits)
  note u1 = updateStoneSet_spec [OF assms(1-3) ws(2,3) u]
  show ?case
  proof (cases er)
    case (Some z)
    with Cons.prems(2) u u1 show ?thesis by auto
  next
    case None
    with Cons.prems(2) u obtain rest where r: "updateStoneSets e ste' stss s1 = Some (err, rest, s')" "stss' = y # rest"
      by (auto split: option.splits)
    have "list_all2 (\<lambda>w x. asks e ste (trace s1) x \<and> desired e ste (trace s1) w x) ws' stss"
      using ws(4) justified_history u1 by (blast intro: list_all2_mono asks_mono desired_mono)
    note ih = Cons.IH [OF this r(1)]
    from u1 None ih have "justified ?J s s'" using justified_trans by blast
    moreover have "emits (realised ste w) s s'" if "err = None"
      using u1 None ih emits_then_justified by blast
    moreover have "emits (realised ste v) s s'" if "err = None" "v \<in> set ws'" for v
      using u1 ih that justified_then_emits by blast
    moreover have "heldSet e ste (trace s') y"
      using u1 None heldSet_mono [of e ste "trace s1" y "trace s'"] justified_history [of ?J s1 s'] ih by blast
    ultimately show ?thesis using ws(1) r(2) ih by auto
  qed
qed

lemma checkPorts_same: "checkPorts seen ports = seen @ ports"
  by (induction ports arbitrary: seen) (simp_all add: Let_def)

text \<open>The port names are normalised in a copy that is thrown away.\<close>

lemma checkService_eq: "checkService svc = (Ports (svc_Spec svc) \<noteq> [], svc)"
  by (cases "Ports (svc_Spec svc)") (simp_all add: checkService_def checkPorts_same)

lemma stoneServiceAttempt_spec:
  assumes "stoneServiceAttempt e ste' sts s = Some (err, s')" and "sameStone ste ste'" and "heldSet e ste (trace s) sts"
  shows "justified (stoneCall e ste) s s'"
proof -
  let ?J = "stoneCall e ste" and ?key = "\<lparr>key_Namespace = setNamespace sts, key_Name = setName sts\<rparr>"
  obtain a where st: "ste' = withStrategy ste a" using assms(2) by (auto simp: sameStone_def)
  obtain r s1 where g: "getAs asSvc e SvcK ?key s = (r, s1)" by fastforce
  have g1: "justified ?J s s1" by (rule justified_getAs [OF g]) simp
  let ?v = "stoneService e ste sts"
  show ?thesis
  proof (cases "r = Inl NotFound \<and> Ports (svc_Spec ?v) \<noteq> []")
    case True
    obtain werr y s2 where c: "writeAs asSvc e (CreateCall (SvcObj ?v)) ?v s1 = (werr, y, s2)" by (metis prod_cases3)
    from True g have "getAs asSvc e SvcK ?key s = (Inl NotFound, s1)" by simp
    note gi = getAs_notFound [OF this, of SvcObj, simplified]
    have "heldSet e ste (trace s1) sts" by (rule heldSet_mono [OF assms(3)]) (use gi in \<open>auto simp: issues_def\<close>)
    with justAfter_issues [OF gi] True have "?J (trace s1) (CreateCall (SvcObj ?v))"
      by (auto simp: stoneService_def metaKey_def emptyMeta_def)
    from justified_trans [OF g1 justified_writeAs [OF c, of ?J, OF this]] assms(1) True g c st show ?thesis
      by (simp add: stoneServiceAttempt_def IsNotFound_def checkService_eq)
  next
    case False
    with assms(1) g g1 st show ?thesis
      by (auto simp: stoneServiceAttempt_def IsNotFound_def checkService_eq split: sum.splits if_splits)
  qed
qed

lemma updateService_spec:
  assumes "updateService e ste' sts s = Some (err, s')" and "sameStone ste ste'" and "heldSet e ste (trace s) sts"
  shows "justified (stoneCall e ste) s s'"
proof (rule RetryOnConflict_inv [OF assms(1) [unfolded updateService_def], where I = "justified (stoneCall e ste) s"])
  fix t er t'
  assume t: "justified (stoneCall e ste) s t" and run: "stoneServiceAttempt e ste' sts t = Some (er, t')"
  have "heldSet e ste (trace t) sts" by (rule heldSet_mono [OF assms(3) justified_history [OF t]])
  from justified_trans [OF t stoneServiceAttempt_spec [OF run assms(2) this]] show "justified (stoneCall e ste) s t'" .
qed simp

lemma updateServices_spec:
  assumes "forEach (updateService e ste') stss s = Some (err, s')" and "sameStone ste ste'"
    and "\<And>x. x \<in> set stss \<Longrightarrow> heldSet e ste (trace s) x"
  shows "justified (stoneCall e ste) s s'"
proof -
  let ?R = "\<lambda>a b. set (trace s) \<subseteq> set (trace a) \<longrightarrow> justified (stoneCall e ste) a b"
  have "?R s s'"
  proof (rule forEach_rel [of ?R, OF _ _ _ assms(1)])
    fix a b c
    assume "?R a b" "?R b c"
    then show "?R a c" using justified_history [of "stoneCall e ste" a b] justified_trans by blast
  next
    fix x a er b
    assume "x \<in> set stss" "updateService e ste' x a = Some (er, b)"
    then show "?R a b" using updateService_spec [OF _ assms(2)] heldSet_mono [OF assms(3)] by blast
  qed simp
  then show ?thesis by simp
qed

lemma syncAttempt_spec:
  assumes "retries_conflicts (core e)" and "owner_errors (core e)" and "gets_named e" and "sameStone ste ste1"
    and "syncAttempt e (ste1, s) = Some (err, ste2, s')"
  shows "justified (stoneCall e ste) s s' \<and> sameStone ste ste2
    \<and> (err = None \<longrightarrow> (\<exists>ws. stoneWants ste = Some ws \<and> (\<forall>w \<in> set ws. emits (realised ste w) s s')))"
proof -
  let ?J = "stoneCall e ste"
  obtain a where st: "ste1 = withStrategy ste a" using assms(4) by (auto simp: sameStone_def)
  from assms(5) obtain res s1 ste3 where g: "getStatefulSet e 0 (sn_Coordinates (sn_Spec ste1)) ste1 s = Some (res, ste3, s1)"
    by (auto simp: syncAttempt_def split: option.splits)
  from getStatefulSet_spec [OF assms(3) _ g, of ?J] have g1: "justified ?J s s1" "sameStone ste1 ste3"
    "\<And>stss. res = Inr stss \<Longrightarrow> \<exists>ws. stoneWants ste1 = Some ws \<and> list_all2 (desired e ste1 (trace s1)) ws stss"
    by auto
  note same = sameStone_trans [OF assms(4) g1(2)]
  show ?thesis
  proof (cases res)
    case (Inl er)
    with assms(5) g g1 same show ?thesis by (auto simp: syncAttempt_def)
  next
    case (Inr stss)
    from g1(3) [OF Inr] obtain ws where ws: "stoneWants ste = Some ws" "list_all2 (desired e ste (trace s1)) ws stss"
      using st sameStone_wants [OF assms(4)] by auto
    then have "list_all2 (\<lambda>w x. asks e ste (trace s1) x \<and> desired e ste (trace s1) w x) ws stss"
      by (auto simp: asks_def list_all2_conv_all_nth) (metis nth_mem)
    moreover from same have "sn_Meta ste3 = sn_Meta ste" by (auto simp: sameStone_def)
    moreover from assms(5) g Inr obtain er stss' s2 where u: "updateStoneSets e ste3 stss s1 = Some (er, stss', s2)"
      by (auto simp: syncAttempt_def split: option.splits)
    ultimately have u1: "justified ?J s1 s2" "er = None \<Longrightarrow> \<forall>w \<in> set ws. emits (realised ste w) s1 s2"
      "er = None \<Longrightarrow> \<forall>x \<in> set stss'. heldSet e ste (trace s2) x"
      using updateStoneSets_spec [OF assms(1,2) _ _ u] by blast+
    note j = justified_trans [OF g1(1) u1(1)]
    show ?thesis
    proof (cases er)
      case (Some z)
      with assms(5) g Inr u j same show ?thesis by (auto simp: syncAttempt_def)
    next
      case None
      with assms(5) g Inr u have v: "forEach (updateService e ste3) stss' s2 = Some (err, s')" "ste2 = ste3"
        by (auto simp: syncAttempt_def split: option.splits)
      have v1: "justified ?J s2 s'" by (rule updateServices_spec [OF v(1) same]) (use u1(3) None in blast)
      have "\<forall>w \<in> set ws. emits (realised ste w) s s'"
        using u1(2) [OF None] emits_then_justified [OF _ v1] justified_then_emits [OF g1(1)] by blast
      with justified_trans [OF j v1] same v(2) ws(1) show ?thesis by blast
    qed
  qed
qed

lemma syncStoneSets_spec:
  assumes "retries_conflicts (core e)" and "owner_errors (core e)" and "gets_named e"
    and "syncStoneSets e ste s = Some (err, ste', s')"
  shows "justified (stoneCall e ste) s s' \<and> sameStone ste ste'
    \<and> (err = None \<longrightarrow> (\<exists>ws. stoneWants ste = Some ws \<and> (\<forall>w \<in> set ws. emits (realised ste w) s s')))"
proof -
  let ?J = "stoneCall e ste" and ?I = "\<lambda>v. sameStone ste (fst v) \<and> justified (stoneCall e ste) s (snd v)"
  have step: "?I v'" if "?I v" "syncAttempt e v = Some (er, v')" for v er v'
    using syncAttempt_spec [OF assms(1-3), of ste "fst v" "snd v" er "fst v'" "snd v'"] that
      justified_trans [of ?J s "snd v" "snd v'"] by (cases v) simp
  from RetryOnConflict_last [OF assms(4) [unfolded syncStoneSets_def], of ?I] step
  obtain t where t: "?I t" "syncAttempt e t = Some (err, ste', s')" by (metis justified_refl sameStone_refl fst_conv snd_conv)
  from syncAttempt_spec [OF assms(1-3), of ste "fst t" "snd t" err ste' s'] t
  show ?thesis using justified_trans [of ?J s "snd t" s'] justified_then_emits [of ?J s "snd t" _ s'] by (cases t) auto
qed

lemma countedStatus_mono: "countedStatus e base h st \<Longrightarrow> set h \<subseteq> set h' \<Longrightarrow> countedStatus e base h' st"
  unfolding countedStatus_def by (blast intro: list_all2_mono desired_mono)

lemma heldStone_mono: "heldStone e base h x \<Longrightarrow> set h \<subseteq> set h' \<Longrightarrow> heldStone e base h' x"
  unfolding heldStone_def by (blast intro: countedStatus_mono)

lemma stoneBase_mono: "stoneBase ste h x \<Longrightarrow> set h \<subseteq> set h' \<Longrightarrow> stoneBase ste h' x"
  unfolding stoneBase_def by blast

lemma heldStone_annotate:
  assumes "heldStone e base h x"
  shows "heldStone e base h (x\<lparr>sn_Meta := (sn_Meta x)\<lparr>Annotations := mapPut (Annotations (sn_Meta x)) ''spec'' data\<rparr>\<rparr>)"
proof -
  have put: "mapPut (mapPut m k d) k d' = mapPut m k d'" for m k d d' by (simp add: mapPut_def)
  from assms obtain strategy ann where x: "effective strategy = effective (sn_Strategy (sn_Spec base))"
    "sn_Spec x = (sn_Spec base)\<lparr>sn_Strategy := strategy\<rparr>" "sn_Meta x = (sn_Meta base)\<lparr>Annotations := ann\<rparr>"
    "ann = Annotations (sn_Meta base) \<or> (\<exists>data. ann = mapPut (Annotations (sn_Meta base)) ''spec'' data)"
    "sn_Status x = sn_Status base \<or> countedStatus e base h (sn_Status x)" by (auto simp: heldStone_def)
  from x(4) have "mapPut ann ''spec'' data = mapPut (Annotations (sn_Meta base)) ''spec'' data" by (auto simp: put)
  with x show ?thesis unfolding heldStone_def
    by (intro exI [of _ strategy] exI [of _ "mapPut ann ''spec'' data"]) auto
qed

lemma heldStoneI:
  assumes "sn_Meta x = sn_Meta base" and "sameStone base (x\<lparr>sn_Status := sn_Status base\<rparr>)"
    and "sn_Status x = sn_Status base \<or> countedStatus e base h (sn_Status x)"
  shows "heldStone e base h x"
proof -
  from assms(2) obtain strategy where s: "x\<lparr>sn_Status := sn_Status base\<rparr> = withStrategy base strategy"
    "effective strategy = effective (sn_Strategy (sn_Spec base))" by (auto simp: sameStone_def)
  from arg_cong [OF s(1), of sn_Spec] have "sn_Spec x = (sn_Spec base)\<lparr>sn_Strategy := strategy\<rparr>"
    by (simp add: withStrategy_def)
  moreover have "(sn_Meta base)\<lparr>Annotations := Annotations (sn_Meta base)\<rparr> = sn_Meta base" by simp
  ultimately show ?thesis using assms(1,3) s(2) unfolding heldStone_def
    by (intro exI [of _ strategy] exI [of _ "Annotations (sn_Meta base)"]) simp
qed

lemma heldStone_same: "sameStone base x \<Longrightarrow> heldStone e base h x"
  by (rule heldStoneI) (auto simp: sameStone_def withStrategy_def)

text \<open>\<open>getStatefulSet\<close> only reads.\<close>

lemma getStatefulSet_reads:
  assumes "gets_named e" and "getStatefulSet e i cgs ste s = Some (res, ste', s')"
  obtains reads where "trace s' = trace s @ reads" "list_all (\<lambda>en. \<exists>k key. fst en = GetCall k key) reads"
proof -
  from getStatefulSet_spec [OF assms(1) _ assms(2), of "\<lambda>h c. \<exists>k key. c = GetCall k key"]
  obtain reads where "issues s reads s'" "\<forall>i < length reads. \<exists>k key. fst (reads ! i) = GetCall k key"
    by (auto simp: justified_def)
  then show ?thesis by (intro that [of reads]) (auto simp: issues_def list_all_length)
qed

text \<open>What one run of the closure of \<open>updateStone\<close> leaves behind.\<close>

definition stoneHeld :: "'w k8s \<Rightarrow> stone \<Rightarrow> stone \<Rightarrow> (call \<times> reply) list \<Rightarrow> bool" where
  "stoneHeld e ste x h \<longleftrightarrow> (\<exists>base. stoneBase ste h base \<and> heldStone e base h x)"

lemma stoneHeld_mono: "stoneHeld e ste x h \<Longrightarrow> set h \<subseteq> set h' \<Longrightarrow> stoneHeld e ste x h'"
  unfolding stoneHeld_def by (blast intro: stoneBase_mono heldStone_mono)

lemma stoneAttempt_status:
  assumes "gets_named e" and "(case getStatefulSet e 0 (sn_Coordinates (sn_Spec st)) st s of
      None \<Rightarrow> None
    | Some (Inl err, ste, s) \<Rightarrow> Some (Some err, ste, s)
    | Some (Inr sets, ste, s) \<Rightarrow>
        let ste = ste\<lparr>sn_Status := stoneStatusOf sets\<rparr> in Some (writeAs asStone e (StatusUpdateCall (StoneObj ste)) ste s))
    = Some (err, x, s')"
    and "trace s = h0 @ [(UpdateCall (StoneObj y), r)]" and "\<forall>z. r \<noteq> Fail z" and "st = storedStone y r"
  shows "justified (stoneCall e ste) s s' \<and> (err \<noteq> None \<longrightarrow> heldStone e st (trace s') x)"
proof -
  let ?J = "stoneCall e ste"
  from assms(2) obtain res st2 s2 where g: "getStatefulSet e 0 (sn_Coordinates (sn_Spec st)) st s = Some (res, st2, s2)"
    by (auto split: option.splits)
  from getStatefulSet_spec [OF assms(1) _ g, of ?J] have g1: "justified ?J s s2" "sameStone st st2"
    "\<And>sets. res = Inr sets \<Longrightarrow> \<exists>ws. stoneWants st = Some ws \<and> list_all2 (desired e st (trace s2)) ws sets" by auto
  show ?thesis
  proof (cases res)
    case (Inl er)
    with assms(2) g g1 show ?thesis by (auto intro: heldStone_same)
  next
    case (Inr sets)
    let ?x = "st2\<lparr>sn_Status := stoneStatusOf sets\<rparr>"
    from assms(2) g Inr have w: "writeAs asStone e (StatusUpdateCall (StoneObj ?x)) ?x s2 = (err, x, s')" by (simp add: Let_def)
    obtain reads where reads: "trace s2 = trace s @ reads" "list_all (\<lambda>en. \<exists>k key. fst en = GetCall k key) reads"
      by (rule getStatefulSet_reads [OF assms(1) g])
    have count: "countedStatus e st (trace s2) (stoneStatusOf sets)" using g1(3) [OF Inr] by (auto simp: countedStatus_def)
    have same: "sn_Meta ?x = sn_Meta st" "sameStone st (?x\<lparr>sn_Status := sn_Status st\<rparr>)"
      using g1(2) by (auto simp: sameStone_def withStrategy_def)
    have "stoneStatusCall e (trace s2) ?x" unfolding stoneStatusCall_def
      by (rule exI [of _ h0], rule exI [of _ y], rule exI [of _ r], rule exI [of _ reads], rule exI [of _ st])
        (use assms(3-5) reads same count in simp)
    then have "justified ?J s2 s'" by (intro justified_writeAs [OF w]) simp
    moreover from this count have "countedStatus e st (trace s') (stoneStatusOf sets)"
      by (blast intro: countedStatus_mono dest: justified_history)
    with same have "heldStone e st (trace s') ?x" by (intro heldStoneI) simp_all
    with writeAs_failed [of asStone e _ ?x s2 _ x s'] w have "err \<noteq> None \<longrightarrow> heldStone e st (trace s') x" by auto
    ultimately show ?thesis using justified_trans [OF g1(1)] by blast
  qed
qed

lemma stoneAttempt_spec:
  assumes "gets_named e" and "stoneAttempt e (ste1, s) = Some (err, ste2, s')" and "stoneHeld e ste ste1 (trace s)"
  shows "justified (stoneCall e ste) s s' \<and> (err \<noteq> None \<longrightarrow> stoneHeld e ste ste2 (trace s'))"
proof -
  let ?J = "stoneCall e ste"
  show ?thesis
  proof (cases "lib_MarshalStoneSpec (codec e) (sn_Spec ste1)")
    case (Inl er)
    with assms(2,3) show ?thesis by (auto simp: stoneAttempt_def)
  next
    case (Inr data)
    define st where "st = ste1\<lparr>sn_Meta := (sn_Meta ste1)\<lparr>Annotations := mapPut (Annotations (sn_Meta ste1)) ''spec'' data\<rparr>\<rparr>"
    have st: "stoneHeld e ste st (trace s)" using assms(3) heldStone_annotate unfolding stoneHeld_def st_def by blast
    have up: "stoneUpdateCall e ste (trace s) st"
      using st Inr by (auto simp: stoneUpdateCall_def stoneHeld_def st_def)
    obtain werr st1 s1 where w: "writeAs asStone e (UpdateCall (StoneObj st)) st s = (werr, st1, s1)" by (metis prod_cases3)
    have w1: "justified ?J s s1" by (rule justified_writeAs [OF w]) (use up in simp)
    obtain r where r: "trace s1 = trace s @ [(UpdateCall (StoneObj st), r)]"
      "if werr = None then (\<forall>z. r \<noteq> Fail z) \<and> st1 = storedStone st r else st1 = st"
      using writeAs_written [OF w] by blast
    show ?thesis
    proof (cases werr)
      case (Some er)
      have "stoneHeld e ste st (trace s1)" by (rule stoneHeld_mono [OF st]) (use r(1) in auto)
      with Some assms(2) Inr w w1 r(2) show ?thesis by (auto simp: stoneAttempt_def st_def [symmetric])
    next
      case None
      with r(2) have ok: "\<forall>z. r \<noteq> Fail z" "st1 = storedStone st r" by simp_all
      from assms(2) Inr w None have "(case getStatefulSet e 0 (sn_Coordinates (sn_Spec st1)) st1 s1 of
          None \<Rightarrow> None
        | Some (Inl err, ste, s) \<Rightarrow> Some (Some err, ste, s)
        | Some (Inr sets, ste, s) \<Rightarrow>
            let ste = ste\<lparr>sn_Status := stoneStatusOf sets\<rparr> in Some (writeAs asStone e (StatusUpdateCall (StoneObj ste)) ste s))
        = Some (err, ste2, s')" by (simp add: stoneAttempt_def st_def [symmetric])
      from stoneAttempt_status [OF assms(1) this r(1) ok] have
        x: "justified ?J s1 s'" "err \<noteq> None \<longrightarrow> heldStone e st1 (trace s') ste2" by blast+
      have "(UpdateCall (StoneObj st), r) \<in> set (trace s')" using r(1) justified_history [OF x(1)] by auto
      with ok have "stoneBase ste (trace s') st1" by (auto simp: stoneBase_def)
      with x(2) justified_trans [OF w1 x(1)] show ?thesis by (auto simp: stoneHeld_def)
    qed
  qed
qed

lemma updateStone_spec:
  assumes "gets_named e" and "updateStone e ste1 s = Some (err, ste2, s')" and "sameStone ste ste1"
  shows "justified (stoneCall e ste) s s'"
proof -
  let ?J = "stoneCall e ste" and ?I = "\<lambda>v. stoneHeld e ste (fst v) (trace (snd v)) \<and> justified (stoneCall e ste) s (snd v)"
  have step: "justified ?J s (snd v') \<and> (er \<noteq> None \<longrightarrow> stoneHeld e ste (fst v') (trace (snd v')))"
    if "?I v" "stoneAttempt e v = Some (er, v')" for v er v'
    using stoneAttempt_spec [OF assms(1), of "fst v" "snd v" er "fst v'" "snd v'" ste] that
      justified_trans [of ?J s "snd v" "snd v'"] by (cases v) simp
  have "case err of None \<Rightarrow> justified ?J s (snd (ste2, s')) | Some z \<Rightarrow> ?I (ste2, s')"
  proof (rule RetryOnConflict_until [OF assms(2) [unfolded updateStone_def], where I = ?I and Q = "\<lambda>v. justified ?J s (snd v)"])
    show "?I (ste1, s)" using heldStone_same [OF assms(3)] by (auto simp: stoneHeld_def stoneBase_def)
  next
    fix v z v'
    assume "?I v" "stoneAttempt e v = Some (Some z, v')"
    from step [OF this] show "?I v'" by simp
  next
    fix v v'
    assume "?I v" "stoneAttempt e v = Some (None, v')"
    from step [OF this] show "justified ?J s (snd v')" by simp
  qed
  then show ?thesis by (auto split: option.splits)
qed

lemma ReconcileStone_spec:
  assumes "retries_conflicts (core e)" and "owner_errors (core e)" and "gets_named e"
    and "getAs asStone e StoneK req s = (Inr ste, s1)" and "ReconcileStone e req s = Some (err, s')"
  shows "justified (stoneCall e ste) s1 s'
    \<and> (err = None \<longrightarrow> (\<exists>ws. stoneWants ste = Some ws \<and> (\<forall>w \<in> set ws. emits (realised ste w) s1 s')))"
proof -
  from assms(4,5) obtain er ste2 s2 where y: "syncStoneSets e ste s1 = Some (er, ste2, s2)"
    by (auto simp: ReconcileStone_def split: option.splits)
  note y1 = syncStoneSets_spec [OF assms(1-3) y]
  show ?thesis
  proof (cases er)
    case (Some z)
    with assms(4,5) y y1 show ?thesis by (auto simp: ReconcileStone_def)
  next
    case None
    with assms(4,5) y obtain ste3 where u: "updateStone e ste2 s2 = Some (err, ste3, s')"
      by (auto simp: ReconcileStone_def split: option.splits)
    have u1: "justified (stoneCall e ste) s2 s'" by (rule updateStone_spec [OF assms(3) u]) (use y1 in blast)
    with y1 None show ?thesis
      using justified_trans [OF _ u1, of s1] emits_then_justified [OF _ u1, of _ s1] by blast
  qed
qed

section \<open>Properties\<close>

definition sampleGroup :: "string \<Rightarrow> coordinates \<Rightarrow> coordinatesGroup" where
  "sampleGroup name zones = \<lparr>Group = name, Zoneset = zones, cg_Replicas = Some 2\<rparr>"

definition sampleStone :: "string \<Rightarrow> strategyType \<Rightarrow> coordinatesGroup list \<Rightarrow> stone" where
  "sampleStone name strategy groups = \<lparr>sn_Meta = emptyMeta\<lparr>Name := name, Namespace := ''ns'', UID := ''u2''\<rparr>,
     sn_Spec = \<lparr>sn_Template = Template (set_Spec (sampleSet 1 0 [])), sn_VolumeClaimTemplates = [], sn_Strategy = strategy,
       sn_Coordinates = groups, sn_Service = \<lparr>Ports = [], svc_Selector = None, svc_rest = []\<rparr>\<rparr>,
     sn_Status = \<lparr>sns_Replicas = 0, sns_StatefulSet = 0\<rparr>\<rparr>"

text \<open>A cluster that has a Stone, and these StatefulSets.\<close>

definition stoneDb :: "stone \<Rightarrow> statefulSet list \<Rightarrow> kind \<Rightarrow> objectKey \<Rightarrow> obj option" where
  "stoneDb ste sets k key =
     (if k = StoneK \<and> key = metaKey (sn_Meta ste) then Some (StoneObj ste)
      else if k = SetK then map_option SetObj (find (\<lambda>x. metaKey (set_Meta x) = key) sets) else None)"

abbreviation stoneEnv :: "stone \<Rightarrow> statefulSet list \<Rightarrow> nat k8s" where
  "stoneEnv ste sets \<equiv> serverEnv (serving (stoneDb ste sets) nothing)"

lemma stoneEnv_named: "gets_named (stoneEnv ste sets)"
  by (rule serving_named) (auto simp: stoneDb_def find_Some_iff split: if_splits)

lemma stoneEnv_get:
  "\<exists>s1. getAs asStone (stoneEnv ste sets) StoneK (metaKey (sn_Meta ste)) s = (Inr ste, s1)"
  by (simp add: getAs_def clientGet_def request_def serving_def stoneDb_def)

abbreviation "shop \<equiv> sampleStone ''shop'' Release [sampleGroup ''b'' []]"
abbreviation "shopRequest \<equiv> \<lparr>key_Namespace = ''ns'', key_Name = ''shop''\<rparr>"

lemma sampleStone_key [simp]: "metaKey (sn_Meta (sampleStone name strategy gs)) = \<lparr>key_Namespace = ''ns'', key_Name = name\<rparr>"
  by (simp add: sampleStone_def metaKey_def)

lemma sample_stone: "map_option fst (ReconcileStone (stoneEnv shop []) shopRequest sampleSys) = Some None"
  by code_simp

text \<open>
  C32. Whatever the API server answers, a reconciliation of a Stone writes only what the Stone asks for: it creates a
  StatefulSet only for one of its groups, under that group's name, right after a read that did not find it; it
  updates one only with the size, containers and strategy the Stone asks for and only when its replicas or its pod
  spec differ; it creates only services that have ports, only for one of those StatefulSets, and only when there is
  none; and it updates only the Stone itself: the Stone that was read, or as the server answered the update before, with
  nothing changed but its spec in the annotation, an unknown strategy made \<open>Alpha\<close>, and the status counted from the
  StatefulSets asked for; that status is written only after the update was accepted. It deletes nothing.
\<close>

theorem stone_writes_justified:
  assumes "retries_conflicts (core e)" and "owner_errors (core e)" and "gets_named e"
    and "getAs asStone e StoneK req s = (Inr ste, s1)" and "ReconcileStone e req s = Some (err, s')"
  shows "justified (stoneCall e ste) s1 s'"
  using ReconcileStone_spec [OF assms] by simp

theorem stone_writes_justified_witness:
  "\<exists>(s1 :: nat sys) s'. ReconcileStone (stoneEnv shop []) shopRequest sampleSys = Some (None, s')
    \<and> justified (stoneCall (stoneEnv shop []) shop) s1 s'"
proof -
  from sample_stone obtain s' where run: "ReconcileStone (stoneEnv shop []) shopRequest sampleSys = Some (None, s')" by auto
  obtain s1 where g: "getAs asStone (stoneEnv shop []) StoneK shopRequest sampleSys = (Inr shop, s1)"
    using stoneEnv_get [of shop "[]" sampleSys] by auto
  from stone_writes_justified [OF _ _ stoneEnv_named g run] run show ?thesis by auto
qed

text \<open>
  C33. When a reconciliation of a Stone succeeds, every group the Stone asks for under its strategy has its StatefulSet
  with the size asked for and the Stone's containers: it was read like that, or a write of it was accepted.
\<close>

theorem stone_all_realised:
  assumes "retries_conflicts (core e)" and "owner_errors (core e)" and "gets_named e"
    and "getAs asStone e StoneK req s = (Inr ste, s1)" and "ReconcileStone e req s = Some (None, s')"
  shows "\<exists>ws. stoneWants ste = Some ws \<and> (\<forall>w \<in> set ws. emits (realised ste w) s1 s')"
  using ReconcileStone_spec [OF assms] by simp

theorem stone_all_realised_witness: "\<exists>(s1 :: nat sys) s'. emits (realised shop (0, sampleGroup ''b'' [], 2)) s1 s'"
proof -
  from sample_stone obtain s' where run: "ReconcileStone (stoneEnv shop []) shopRequest sampleSys = Some (None, s')" by auto
  obtain s1 where g: "getAs asStone (stoneEnv shop []) StoneK shopRequest sampleSys = (Inr shop, s1)"
    using stoneEnv_get [of shop "[]" sampleSys] by auto
  have w: "stoneWants shop = Some [(0, sampleGroup ''b'' [], 2)]"
    by (simp add: sampleStone_def stoneSize_def sampleGroup_def strategy_defs)
  have "emits (realised shop (0, sampleGroup ''b'' [], 2)) s1 s'"
    using stone_all_realised [OF _ _ stoneEnv_named g run] unfolding w by simp
  then show ?thesis by blast
qed

text \<open>
  C34. Two groups of a Stone never share a StatefulSet, whatever they are called: the keys of the sets of a list of
  groups are pairwise different.
\<close>

theorem stoneSetKeys_distinct: "distinct (map (\<lambda>(i, cg). stoneSetKey ste i cg) (enumerate n cgs))"
proof (induction cgs arbitrary: n)
  case Nil
  then show ?case by simp
next
  case (Cons cg cgs)
  have "i = j" if "stoneSetKey ste i a = stoneSetKey ste j b" for i j a b
    using that statefulSetName_inj [of ste "Group a" "int i" "Group b" "int j"] by (simp add: stoneSetKey_def)
  with Cons [of "Suc n"] show ?case by (fastforce simp: in_set_enumerate_eq)
qed

end
