(* ===== verification/RealPodControl.thy ===== *)
theory RealPodControl
  imports Cluster
begin

text \<open>
  \<^verbatim>\<open>controllers/realpod_control.go\<close>: \<open>RealPodControl\<close>, the pod control through which the StatefulSet
  reconciler adopts and releases pods. The \<^verbatim>\<open>runtime.Object\<close> a pod is created for is given by its metadata;
  \<open>None\<close> stands for an object that has none.
\<close>

section \<open>Pods from templates\<close>

definition FailedCreatePodReason :: string where "FailedCreatePodReason = ''FailedCreate''"
definition SuccessfulCreatePodReason :: string where "SuccessfulCreatePodReason = ''SuccessfulCreate''"
definition FailedDeletePodReason :: string where "FailedDeletePodReason = ''FailedDelete''"
definition SuccessfulDeletePodReason :: string where "SuccessfulDeletePodReason = ''SuccessfulDelete''"

definition copySet :: "gomap \<Rightarrow> gomap" where
  \<comment> \<open>\<open>make(labels.Set)\<close> and the loop that copies every entry: never nil\<close>
  "copySet m = Some (case m of None \<Rightarrow> Map.empty | Some f \<Rightarrow> f)"

definition getPodsLabelSet :: "podTemplate \<Rightarrow> gomap" where
  "getPodsLabelSet template = copySet (Labels (t_Meta template))"

definition getPodsFinalizers :: "podTemplate \<Rightarrow> string list" where
  "getPodsFinalizers template = Finalizers (t_Meta template)"

definition getPodsAnnotationSet :: "podTemplate \<Rightarrow> gomap" where
  "getPodsAnnotationSet template = copySet (Annotations (t_Meta template))"

definition getPodsPrefix :: "coreLib \<Rightarrow> string \<Rightarrow> string" where
  "getPodsPrefix L controllerName =
     (let prefix = controllerName @ ''-''
      in if \<not> lib_ValidPodNamePrefix L prefix then controllerName else prefix)"

definition validateControllerRef :: "ownerReference option \<Rightarrow> error option" where
  "validateControllerRef controllerRef =
     (case controllerRef of
        None \<Rightarrow> Some (Errorf ''controllerRef is nil'')
      | Some ref \<Rightarrow>
          if or_APIVersion ref = [] then Some (Errorf ''controllerRef has empty APIVersion'')
          else if or_Kind ref = [] then Some (Errorf ''controllerRef has empty Kind'')
          else if or_Controller ref \<noteq> Some True then Some (Errorf ''controllerRef.Controller is not set to true'')
          else if or_BlockOwnerDeletion ref \<noteq> Some True then Some (Errorf ''controllerRef.BlockOwnerDeletion is not set'')
          else None)"

definition emptyPodStatus :: podStatus where
  "emptyPodStatus = \<lparr>Phase = [], Conditions = [], ContainerStatuses = [], pst_rest = []\<rparr>"

definition GetPodFromTemplate ::
  "coreLib \<Rightarrow> podTemplate \<Rightarrow> objectMeta option \<Rightarrow> ownerReference option \<Rightarrow> error + pod" where
  "GetPodFromTemplate L template parentObject controllerRef =
     (case parentObject of
        None \<Rightarrow> Inl (Errorf ''parentObject does not have ObjectMeta'')
      | Some accessor \<Rightarrow>
          let pod = \<lparr>p_Meta = emptyMeta
                       \<lparr>Labels := getPodsLabelSet template, Annotations := getPodsAnnotationSet template,
                        GenerateName := getPodsPrefix L (Name accessor), Finalizers := getPodsFinalizers template\<rparr>,
                     p_Spec = t_Spec template, p_Status = emptyPodStatus\<rparr>
          in Inr (case controllerRef of
                    None \<Rightarrow> pod
                  | Some ref \<Rightarrow> pod\<lparr>p_Meta := (p_Meta pod)
                      \<lparr>OwnerReferences := OwnerReferences (p_Meta pod) @ [ref]\<rparr>\<rparr>))"

section \<open>The methods\<close>

definition createAttempt :: "'w k8s \<Rightarrow> pod \<times> 'w sys \<Rightarrow> (error option \<times> pod \<times> 'w sys) option" where
  \<comment> \<open>the closure that \<open>createPods\<close> retries\<close>
  "createAttempt e v =
     (case v of (pod, s) \<Rightarrow>
        (case writeAs asPod e (CreateCall (PodObj pod)) pod s of
           (Some err, pod, s) \<Rightarrow>
             Some (Some err, pod, recordEvent ''Warning'' FailedCreatePodReason
               (''Error creating: '' @ lib_ErrorString (core e) err) s)
         | (None, pod, s) \<Rightarrow>
             Some (None, pod, recordEvent ''Normal'' SuccessfulCreatePodReason (''Created pod: '' @ podName pod) s)))"

definition createPods ::
  "'w k8s \<Rightarrow> string \<Rightarrow> string \<Rightarrow> podTemplate \<Rightarrow> objectMeta option \<Rightarrow> ownerReference option \<Rightarrow> 'w sys
     \<Rightarrow> (error option \<times> 'w sys) option" where
  "createPods e nodeName ns template object controllerRef s =
     (case GetPodFromTemplate (core e) template object controllerRef of
        Inl err \<Rightarrow> Some (Some err, s)
      | Inr pod \<Rightarrow>
          let pod = (if nodeName \<noteq> [] then pod\<lparr>p_Spec := (p_Spec pod)\<lparr>NodeName := nodeName\<rparr>\<rparr> else pod)
          in if Labels (p_Meta pod) = Some Map.empty
             then Some (Some (Errorf ''unable to create pods, no labels''), s)
             else
               (case RetryOnConflict (core e) (lib_DefaultBackoffSteps (core e)) (createAttempt e) (pod, s) of
                  None \<Rightarrow> None
                | Some (err, pod, s) \<Rightarrow> Some (err, s)))"

definition CreatePods ::
  "'w k8s \<Rightarrow> string \<Rightarrow> podTemplate \<Rightarrow> objectMeta option \<Rightarrow> 'w sys \<Rightarrow> (error option \<times> 'w sys) option" where
  "CreatePods e ns template object s = createPods e [] ns template object None s"

definition CreatePodsWithControllerRef ::
  "'w k8s \<Rightarrow> string \<Rightarrow> podTemplate \<Rightarrow> objectMeta option \<Rightarrow> ownerReference option \<Rightarrow> 'w sys
     \<Rightarrow> (error option \<times> 'w sys) option" where
  "CreatePodsWithControllerRef e ns template controllerObject controllerRef s =
     (case validateControllerRef controllerRef of
        Some err \<Rightarrow> Some (Some err, s)
      | None \<Rightarrow> createPods e [] ns template controllerObject controllerRef s)"

definition CreatePodsOnNode ::
  "'w k8s \<Rightarrow> string \<Rightarrow> string \<Rightarrow> podTemplate \<Rightarrow> objectMeta option \<Rightarrow> ownerReference option \<Rightarrow> 'w sys
     \<Rightarrow> (error option \<times> 'w sys) option" where
  "CreatePodsOnNode e nodeName ns template object controllerRef s =
     (case validateControllerRef controllerRef of
        Some err \<Rightarrow> Some (Some err, s)
      | None \<Rightarrow> createPods e nodeName ns template object controllerRef s)"

definition PatchPod :: "'w k8s \<Rightarrow> string \<Rightarrow> string \<Rightarrow> bytes \<Rightarrow> 'w sys \<Rightarrow> error option \<times> 'w sys" where
  "PatchPod e ns name data s =
     (case getAs asPod e PodK \<lparr>key_Namespace = ns, key_Name = name\<rparr> s of
        (Inl err, s) \<Rightarrow> if IsNotFound (Some err) then (None, s) else (Some err, s)
      | (Inr pod, s) \<Rightarrow>
          (case writeAs asPod e (PatchCall (PodObj pod) data) pod s of (err, pod, s) \<Rightarrow> (err, s)))"

definition deletedPod :: "string \<Rightarrow> string \<Rightarrow> pod" where
  \<comment> \<open>the object \<open>DeletePod\<close> hands to the client: a namespace and a UID, and no name\<close>
  "deletedPod ns podID = \<lparr>p_Meta = emptyMeta\<lparr>Namespace := ns, UID := podID\<rparr>,
     p_Spec = \<lparr>Containers = [], Volumes = None, Affinity = None, ReadinessGates = [], Hostname = [], Subdomain = [],
       NodeName = [], ps_rest = []\<rparr>, p_Status = emptyPodStatus\<rparr>"

definition deleteAttempt :: "'w k8s \<Rightarrow> string \<Rightarrow> string \<Rightarrow> 'w sys \<Rightarrow> (error option \<times> 'w sys) option" where
  "deleteAttempt e ns podID s =
     (case clientWrite e (DeleteCall (PodObj (deletedPod ns podID))) s of
        (err, _, s) \<Rightarrow>
          (case err of
             Some x \<Rightarrow>
               if \<not> IsNotFound err then
                 Some (Some (Errorf (''unable to delete pods: '' @ lib_ErrorString (core e) x)),
                   recordEvent ''Warning'' FailedDeletePodReason (''Error deleting: '' @ lib_ErrorString (core e) x) s)
               else Some (None, recordEvent ''Normal'' SuccessfulDeletePodReason (''Deleted pod: '' @ podID) s)
           | None \<Rightarrow> Some (None, recordEvent ''Normal'' SuccessfulDeletePodReason (''Deleted pod: '' @ podID) s)))"

definition DeletePod :: "'w k8s \<Rightarrow> string \<Rightarrow> string \<Rightarrow> 'w sys \<Rightarrow> (error option \<times> 'w sys) option" where
  "DeletePod e ns podID s =
     RetryOnConflict (core e) (lib_DefaultBackoffSteps (core e)) (deleteAttempt e ns podID) s"

record 'w podControlInterface =
  pc_CreatePods :: "string \<Rightarrow> podTemplate \<Rightarrow> objectMeta option \<Rightarrow> 'w sys \<Rightarrow> (error option \<times> 'w sys) option"
  pc_CreatePodsOnNode :: "string \<Rightarrow> string \<Rightarrow> podTemplate \<Rightarrow> objectMeta option \<Rightarrow> ownerReference option
    \<Rightarrow> 'w sys \<Rightarrow> (error option \<times> 'w sys) option"
  pc_CreatePodsWithControllerRef :: "string \<Rightarrow> podTemplate \<Rightarrow> objectMeta option \<Rightarrow> ownerReference option
    \<Rightarrow> 'w sys \<Rightarrow> (error option \<times> 'w sys) option"
  pc_DeletePod :: "string \<Rightarrow> string \<Rightarrow> 'w sys \<Rightarrow> (error option \<times> 'w sys) option"
  pc_PatchPod :: "string \<Rightarrow> string \<Rightarrow> bytes \<Rightarrow> 'w sys \<Rightarrow> error option \<times> 'w sys"

definition RealPodControl :: "'w k8s \<Rightarrow> 'w podControlInterface" where
  "RealPodControl e = \<lparr>pc_CreatePods = CreatePods e, pc_CreatePodsOnNode = CreatePodsOnNode e,
     pc_CreatePodsWithControllerRef = CreatePodsWithControllerRef e, pc_DeletePod = DeletePod e,
     pc_PatchPod = PatchPod e\<rparr>"

section \<open>Facts\<close>

lemma PatchPod_does:
  "PatchPod e ns name data s = (err, s') \<Longrightarrow> \<exists>ops. does s ops s' \<and> (\<forall>op \<in> set ops. \<exists>k. op = PodPatch k)"
  by (auto simp: PatchPod_def split: prod.splits sum.splits if_splits
      dest!: does_getAs does_writeAs intro: does_nothing_trans)

lemma createAttempt_issues:
  assumes "createAttempt e (p, s) = Some (err, q, s')"
  shows "\<exists>r. issues s [(CreateCall (PodObj p), r)] s' \<and> (err \<noteq> None \<longrightarrow> q = p)"
  using assms writeAs_issues
  by (fastforce simp: createAttempt_def writeAs_def clientWrite_def Let_def
      split: prod.splits option.splits reply.splits dest: request_issues)

text \<open>The pods a creation sends are controlled by the given owner, and carry the template's labels and spec.\<close>

definition podOfTemplate :: "string \<Rightarrow> podTemplate \<Rightarrow> ownerReference option \<Rightarrow> pod \<Rightarrow> bool" where
  "podOfTemplate nodeName template ref p \<longleftrightarrow>
     OwnerReferences (p_Meta p) = (case ref of None \<Rightarrow> [] | Some r \<Rightarrow> [r])
     \<and> Labels (p_Meta p) \<noteq> Some Map.empty
     \<and> mapGet (Labels (p_Meta p)) = mapGet (Labels (t_Meta template))
     \<and> p_Spec p = (if nodeName = [] then t_Spec template else (t_Spec template)\<lparr>NodeName := nodeName\<rparr>)"

fun createsPod :: "(pod \<Rightarrow> bool) \<Rightarrow> call \<Rightarrow> bool" where
  "createsPod P (CreateCall (PodObj p)) \<longleftrightarrow> P p"
| "createsPod P _ \<longleftrightarrow> False"

lemma mapGet_copySet [simp]: "mapGet (copySet m) = mapGet m"
  by (auto simp: copySet_def mapGet_def split: option.splits)

lemma createPods_calls:
  assumes "createPods e nodeName ns template object ref s = Some (err, s')"
  shows "onlyCalls (createsPod (podOfTemplate nodeName template ref)) s s'"
proof (cases "GetPodFromTemplate (core e) template object ref")
  case (Inl er)
  with assms show ?thesis by (simp add: createPods_def)
next
  case (Inr p0)
  define p where "p = (if nodeName \<noteq> [] then p0\<lparr>p_Spec := (p_Spec p0)\<lparr>NodeName := nodeName\<rparr>\<rparr> else p0)"
  show ?thesis
  proof (cases "Labels (p_Meta p) = Some Map.empty")
    case True
    with assms Inr show ?thesis by (simp add: createPods_def p_def Let_def split: if_splits)
  next
    case False
    with Inr have p: "podOfTemplate nodeName template ref p"
      by (auto simp: p_def podOfTemplate_def GetPodFromTemplate_def Let_def getPodsLabelSet_def emptyMeta_def
          split: option.splits if_splits)
    from assms Inr False obtain q where
      run: "RetryOnConflict (core e) (lib_DefaultBackoffSteps (core e)) (createAttempt e) (p, s) = Some (err, q, s')"
      by (auto simp: createPods_def p_def Let_def split: option.splits if_splits)
    let ?P = "createsPod (podOfTemplate nodeName template ref)"
    have step: "onlyCalls ?P s s2 \<and> (err1 \<noteq> None \<longrightarrow> p2 = p)"
      if "onlyCalls ?P s s1" "createAttempt e (p, s1) = Some (err1, p2, s2)" for s1 err1 p2 s2
      using createAttempt_issues [OF that(2)] onlyCalls_trans [OF that(1), of s2] p
      by (force simp: onlyCalls_def)
    have "case err of None \<Rightarrow> onlyCalls ?P s (snd (q, s')) | Some x \<Rightarrow> fst (q, s') = p \<and> onlyCalls ?P s (snd (q, s'))"
    proof (rule RetryOnConflict_until [OF run])
      show "fst (p, s) = p \<and> onlyCalls ?P s (snd (p, s))" by simp
    next
      fix v x v'
      assume "fst v = p \<and> onlyCalls ?P s (snd v)" "createAttempt e v = Some (Some x, v')"
      with step [of "snd v" "Some x" "fst v'" "snd v'"] show "fst v' = p \<and> onlyCalls ?P s (snd v')" by (cases v) simp
    next
      fix v v'
      assume "fst v = p \<and> onlyCalls ?P s (snd v)" "createAttempt e v = Some (None, v')"
      with step [of "snd v" None "fst v'" "snd v'"] show "onlyCalls ?P s (snd v')" by (cases v) simp
    qed
    then show ?thesis by (auto split: option.splits)
  qed
qed

lemma deleteAttempt_not_conflict:
  "\<exists>err r s'. deleteAttempt e ns podID s = Some (err, s') \<and> err \<noteq> Some Conflict
     \<and> issues s [(DeleteCall (PodObj (deletedPod ns podID)), r)] s'"
proof -
  obtain err y s1 where w: "clientWrite e (DeleteCall (PodObj (deletedPod ns podID))) s = (err, y, s1)"
    by (metis prod_cases3)
  with clientWrite_issues [OF w] show ?thesis by (auto simp: deleteAttempt_def split: option.splits)
qed

text \<open>The property of \<open>DeletePod\<close>: the wrapped error is never a conflict, so one request is all it sends.\<close>

lemma DeletePod_once:
  assumes "retries_conflicts (core e)"
  shows "\<exists>err r s'. DeletePod e ns podID s = Some (err, s') \<and> issues s [(DeleteCall (PodObj (deletedPod ns podID)), r)] s'"
  using deleteAttempt_not_conflict [of e ns podID s] RetryOnConflict_once [OF assms]
  by (fastforce simp: DeletePod_def)

end
