(* ===== verification/SetReconciler.thy ===== *)
theory SetReconciler
  imports RealPodControl SetRounds
begin

text \<open>
  \<^verbatim>\<open>controllers/statefulset_controller.go\<close>: one reconciliation of a StatefulSet. The interface
  \<^verbatim>\<open>ControlInterface\<close> is a record, with its laws in the locale \<open>control_interface\<close>; the implementation behind
  \<^verbatim>\<open>NewDefaultStatefulSetControl\<close> interprets it. \<^verbatim>\<open>PodControllerRefManager.ClaimPods\<close> and
  \<^verbatim>\<open>RecheckDeletionTimestamp\<close> are third-party, so they are parameters: functions that are handed the
  callbacks the code hands them. Logging has no effect on the model.
\<close>

section \<open>The interface of the control\<close>

record 'w controlInterface =
  ci_UpdateStatefulSet :: "statefulSet \<Rightarrow> pod list \<Rightarrow> 'w sys \<Rightarrow> (error option \<times> 'w sys) option"
  ci_ListRevisions :: "statefulSet \<Rightarrow> 'w sys \<Rightarrow> (error + controllerRevision list) \<times> 'w sys"
  ci_AdoptOrphanRevisions :: "statefulSet \<Rightarrow> controllerRevision list \<Rightarrow> 'w sys \<Rightarrow> error option \<times> 'w sys"

definition NewDefaultStatefulSetControl ::
  "'w k8s \<Rightarrow> 'w statefulPodControlInterface \<Rightarrow> 'w statusUpdaterInterface \<Rightarrow> 'w historyInterface
     \<Rightarrow> 'w controlInterface" where
  "NewDefaultStatefulSetControl e pc su h =
     \<lparr>ci_UpdateStatefulSet = UpdateStatefulSet e pc su h, ci_ListRevisions = ListRevisions e h,
      ci_AdoptOrphanRevisions = AdoptOrphanRevisions h\<rparr>"

record 'w claimLib =
  lib_RecheckDeletionTimestamp ::
    "('w sys \<Rightarrow> (error + statefulSet) \<times> 'w sys) \<Rightarrow> 'w sys \<Rightarrow> error option \<times> 'w sys"
  lib_ClaimPods ::
    "'w podControlInterface \<Rightarrow> statefulSet \<Rightarrow> labelSelector option \<Rightarrow> groupVersionKind
       \<Rightarrow> ('w sys \<Rightarrow> error option \<times> 'w sys) \<Rightarrow> pod list \<Rightarrow> (pod \<Rightarrow> bool) \<Rightarrow> 'w sys
       \<Rightarrow> (error + pod list) \<times> 'w sys"

record 'w reconciler =
  sr_env :: "'w k8s"
  sr_control :: "'w controlInterface"
  sr_podControl :: "'w podControlInterface"
  sr_claims :: "'w claimLib"

definition newReconciler :: "'w k8s \<Rightarrow> 'w claimLib \<Rightarrow> 'w reconciler" where
  \<comment> \<open>the wiring of \<open>SetupWithManager\<close>\<close>
  "newReconciler e lib =
     \<lparr>sr_env = e,
      sr_control = NewDefaultStatefulSetControl e (NewRealStatefulPodControl e) (UpdateStatefulSetStatus e) (realHistory e),
      sr_podControl = RealPodControl e, sr_claims = lib\<rparr>"

section \<open>The operations\<close>

definition checkSetDefaultVariable :: "statefulSetSpec \<Rightarrow> error option \<times> statefulSetSpec" where
  "checkSetDefaultVariable setSpec =
     (if Replicas setSpec = None then (Some (Errorf ''Replicas not define''), setSpec)
      else
        (case UpdateStrategy setSpec of
           None \<Rightarrow> (Some (Errorf ''UpdateStrategy not define''), setSpec)
         | Some us \<Rightarrow>
             (case RollingUpdate us of
                None \<Rightarrow> (Some (Errorf ''UpdateStrategy.RollingUpdate not define''), setSpec)
              | Some ru \<Rightarrow>
                  if Partition ru = None
                  then (Some (Errorf ''UpdateStrategy.RollingUpdate.Partition not define''),
                        setSpec\<lparr>UpdateStrategy := Some (us\<lparr>RollingUpdate := Some (ru\<lparr>Partition := Some 1\<rparr>)\<rparr>)\<rparr>)
                  else (None, setSpec))))"

definition freshSet :: "'w k8s \<Rightarrow> statefulSet \<Rightarrow> 'w sys \<Rightarrow> (error + statefulSet) \<times> 'w sys" where
  \<comment> \<open>read the set again and check that it is the same object\<close>
  "freshSet e sts s =
     (case getAs asSet e SetK \<lparr>key_Namespace = setNamespace sts, key_Name = setName sts\<rparr> s of
        (Inl err, s) \<Rightarrow> (Inl err, s)
      | (Inr fresh, s) \<Rightarrow>
          if UID (set_Meta fresh) \<noteq> UID (set_Meta sts)
          then (Inl (Errorf (''original StatefulSet '' @ setNamespace sts @ ''/'' @ setName sts @ '' is gone: got uid ''
                 @ UID (set_Meta fresh) @ '', wanted '' @ UID (set_Meta sts))), s)
          else (Inr fresh, s))"

definition hasOrphans :: "coreLib \<Rightarrow> controllerRevision list \<Rightarrow> bool" where
  "hasOrphans L revisions \<longleftrightarrow> list_ex (\<lambda>r. lib_GetControllerOf L (cr_Meta r) = None) revisions"

definition adoptOrphanRevisions :: "'w reconciler \<Rightarrow> statefulSet \<Rightarrow> 'w sys \<Rightarrow> error option \<times> 'w sys" where
  "adoptOrphanRevisions ssc sts s =
     (case ci_ListRevisions (sr_control ssc) sts s of
        (Inl err, s) \<Rightarrow> (Some err, s)
      | (Inr revisions, s) \<Rightarrow>
          if hasOrphans (core (sr_env ssc)) revisions then
            (case freshSet (sr_env ssc) sts s of
               (Inl err, s) \<Rightarrow> (Some err, s)
             | (Inr fresh, s) \<Rightarrow> ci_AdoptOrphanRevisions (sr_control ssc) sts revisions s)
          else (None, s))"

fun podsOf :: "obj list \<Rightarrow> pod list" where
  "podsOf [] = []"
| "podsOf (PodObj p # ys) = p # podsOf ys"
| "podsOf (_ # ys) = podsOf ys"

definition getPodsForStatefulSet ::
  "'w reconciler \<Rightarrow> statefulSet \<Rightarrow> labelSelector option \<Rightarrow> 'w sys \<Rightarrow> (error + pod list) \<times> 'w sys" where
  "getPodsForStatefulSet ssc sts selector s =
     (case clientList (sr_env ssc) PodK (setNamespace sts) None s of
        (Inl err, s) \<Rightarrow> (Inl err, s)
      | (Inr items, s) \<Rightarrow>
          lib_ClaimPods (sr_claims ssc) (sr_podControl ssc) sts selector controllerKind
            (lib_RecheckDeletionTimestamp (sr_claims ssc) (freshSet (sr_env ssc) sts))
            (podsOf items) (isMemberOf sts) s)"

definition syncStatefulSet ::
  "'w reconciler \<Rightarrow> statefulSet \<Rightarrow> pod list \<Rightarrow> 'w sys \<Rightarrow> (error option \<times> 'w sys) option" where
  "syncStatefulSet ssc sts pods s = ci_UpdateStatefulSet (sr_control ssc) sts pods s"

definition ReconcileStatefulSet ::
  "'w reconciler \<Rightarrow> objectKey \<Rightarrow> 'w sys \<Rightarrow> (error option \<times> 'w sys) option" where
  "ReconcileStatefulSet ssc req s =
     (case getAs asSet (sr_env ssc) SetK (realReconcileName req) s of
        (Inl err, s) \<Rightarrow> Some (if IsNotFound (Some err) then None else Some err, s)
      | (Inr sts, s) \<Rightarrow>
          let sts = sts\<lparr>set_Spec := snd (checkSetDefaultVariable (set_Spec sts))\<rparr>
          in if lib_SelectorError (core (sr_env ssc)) (Selector (set_Spec sts)) \<noteq> None then Some (None, s)
             else
               (case adoptOrphanRevisions ssc sts s of
                  (Some err, s) \<Rightarrow> Some (Some err, s)
                | (None, s) \<Rightarrow>
                    (case getPodsForStatefulSet ssc sts (Selector (set_Spec sts)) s of
                       (Inl err, s) \<Rightarrow> Some (None, s)
                     | (Inr pods, s) \<Rightarrow>
                         (case syncStatefulSet ssc sts pods s of
                            None \<Rightarrow> None
                          | Some (err, s) \<Rightarrow> Some (None, s)))))"

definition ownerIndex :: "coreLib \<Rightarrow> statefulSet \<Rightarrow> string list" where
  \<comment> \<open>the index function of \<open>jobOwnerKey\<close>\<close>
  "ownerIndex L job =
     (case lib_GetControllerOf L (set_Meta job) of
        None \<Rightarrow> []
      | Some owner \<Rightarrow>
          if or_APIVersion owner \<noteq> GroupVersion_Group @ ''/'' @ GroupVersion_Version \<or> or_Kind owner \<noteq> ''StatefulSet''
          then [] else [or_Name owner])"

section \<open>Documented behaviour of ClaimPods\<close>

text \<open>
  It gives back pods of the list that pass the filter, and it acts only through the callbacks: the check before
  an adoption and the patches of the pod control. The latter is stated for every reflexive and transitive
  relation that the callbacks' steps are in.
\<close>

definition claims_members :: "'w claimLib \<Rightarrow> bool" where
  "claims_members lib \<longleftrightarrow> (\<forall>pc sts sel k adopt pods P s qs s'.
     lib_ClaimPods lib pc sts sel k adopt pods P s = (Inr qs, s') \<longrightarrow> (\<forall>q \<in> List.set qs. q \<in> List.set pods \<and> P q))"

definition claims_through_callbacks :: "'w claimLib \<Rightarrow> bool" where
  "claims_through_callbacks lib \<longleftrightarrow> (\<forall>get R pc sts sel k pods P s.
     (\<forall>s. R s s) \<longrightarrow> (\<forall>a b c. R a b \<longrightarrow> R b c \<longrightarrow> R a c) \<longrightarrow> (\<forall>s. R s (snd (get s)))
     \<longrightarrow> (\<forall>ns n d s. R s (snd (pc_PatchPod pc ns n d s)))
     \<longrightarrow> R s (snd (lib_ClaimPods lib pc sts sel k (lib_RecheckDeletionTimestamp lib get) pods P s)))"

section \<open>Facts\<close>

fun isPatch :: "podOp \<Rightarrow> bool" where "isPatch (PodPatch k) = True" | "isPatch _ = False"

lemma PatchPod_writes: "writes isPatch s (snd (PatchPod e ns n d s))"
proof (cases "PatchPod e ns n d s")
  case (Pair err s')
  from PatchPod_does [OF this] show ?thesis unfolding Pair by (fastforce simp: writes_def list_all_iff)
qed

lemma freshSet_reads: "freshSet e sts s = (x, s') \<Longrightarrow> does s [] s'"
  by (auto simp: freshSet_def split: prod.splits sum.splits if_splits dest: does_getAs)

lemma getPods_writes:
  assumes "claims_through_callbacks (sr_claims ssc)" and "sr_podControl ssc = RealPodControl e"
    and "getPodsForStatefulSet ssc sts sel s = (x, s')"
  shows "writes isPatch s s'"
proof -
  let ?get = "freshSet (sr_env ssc) sts"
  obtain y s1 where l: "clientList (sr_env ssc) PodK (setNamespace sts) None s = (y, s1)" by fastforce
  from does_clientList [OF l] have l1: "writes isPatch s s1" by (simp add: writes_does)
  show ?thesis
  proof (cases y)
    case (Inl err)
    with assms(3) l l1 show ?thesis by (simp add: getPodsForStatefulSet_def)
  next
    case (Inr items)
    have get: "\<forall>s. writes isPatch s (snd (?get s))"
      using freshSet_reads [of "sr_env ssc" sts] by (metis list.pred_inject(1) prod.collapse writes_does)
    have patch: "\<forall>ns n d s. writes isPatch s (snd (pc_PatchPod (sr_podControl ssc) ns n d s))"
      by (simp add: assms(2) RealPodControl_def PatchPod_writes)
    have "writes isPatch s1 (snd (lib_ClaimPods (sr_claims ssc) (sr_podControl ssc) sts sel controllerKind
            (lib_RecheckDeletionTimestamp (sr_claims ssc) ?get) (podsOf items) (isMemberOf sts) s1))"
      by (rule assms(1) [unfolded claims_through_callbacks_def, rule_format])
        (use get patch in \<open>auto intro: writes_trans\<close>)
    with assms(3) l l1 Inr show ?thesis by (auto simp: getPodsForStatefulSet_def intro: writes_trans)
  qed
qed

lemma getPods_members:
  assumes "claims_members (sr_claims ssc)" and "getPodsForStatefulSet ssc sts sel s = (Inr pods, s')"
  shows "\<forall>p \<in> List.set pods. isMemberOf sts p"
  using assms by (fastforce simp: getPodsForStatefulSet_def claims_members_def split: prod.splits sum.splits)

text \<open>The StatefulSet a reconciliation works on: the one it read, with the missing partition defaulted.\<close>

definition defaulted :: "statefulSet \<Rightarrow> statefulSet" where
  "defaulted sts = sts\<lparr>set_Spec := snd (checkSetDefaultVariable (set_Spec sts))\<rparr>"

lemma defaulted_frame [simp]:
  "set_Meta (defaulted sts) = set_Meta sts" "allowsBurst (defaulted sts) = allowsBurst sts"
  "Replicas (set_Spec (defaulted sts)) = Replicas (set_Spec sts)"
  by (auto simp: defaulted_def checkSetDefaultVariable_def allowsBurst_def split: option.splits)

text \<open>
  The set, the pods and the state that a reconciliation hands to its control are a function of the run; \<open>preparesRound\<close>
  is \<open>None\<close> when it ends before.
\<close>

definition preparesRound :: "'w reconciler \<Rightarrow> objectKey \<Rightarrow> 'w sys \<Rightarrow> (statefulSet \<times> pod list \<times> 'w sys) option" where
  "preparesRound ssc req s =
     (case getAs asSet (sr_env ssc) SetK (realReconcileName req) s of
        (Inl err, s) \<Rightarrow> None
      | (Inr sts, s) \<Rightarrow>
          if lib_SelectorError (core (sr_env ssc)) (Selector (set_Spec (defaulted sts))) \<noteq> None then None
          else
            (case adoptOrphanRevisions ssc (defaulted sts) s of
               (Some err, s) \<Rightarrow> None
             | (None, s) \<Rightarrow>
                 (case getPodsForStatefulSet ssc (defaulted sts) (Selector (set_Spec (defaulted sts))) s of
                    (Inl err, s) \<Rightarrow> None
                  | (Inr pods, s) \<Rightarrow> Some (defaulted sts, pods, s))))"

locale control_interface =
  fixes ctl :: "'w controlInterface"
  assumes list_reads: "ci_ListRevisions ctl sts s = (x, s') \<Longrightarrow> does s [] s'"
    and adopt_leaves_pods: "ci_AdoptOrphanRevisions ctl sts rs s = (err, s') \<Longrightarrow> does s [] s'"
begin

lemma adoptOrphanRevisions_does:
  assumes "sr_control ssc = ctl" and "adoptOrphanRevisions ssc sts s = (err, s')"
  shows "does s [] s'"
proof -
  obtain x s1 where l: "ci_ListRevisions ctl sts s = (x, s1)" by fastforce
  obtain y s2 where f: "freshSet (sr_env ssc) sts s1 = (y, s2)" by fastforce
  obtain er s3 where a: "ci_AdoptOrphanRevisions ctl sts (projr x) s2 = (er, s3)" by fastforce
  from assms l f a list_reads [OF l] freshSet_reads [OF f] adopt_leaves_pods [OF a] show ?thesis
    by (auto simp: adoptOrphanRevisions_def split: sum.splits if_splits intro: does_nothing_trans)
qed

lemma Reconcile_rounds:
  assumes "sr_control ssc = ctl" and "sr_podControl ssc = RealPodControl e"
    and "claims_through_callbacks (sr_claims ssc)" and "claims_members (sr_claims ssc)"
    and "ReconcileStatefulSet ssc req s = Some (err, s')"
  obtains (failed) x where "err = Some x" "does s [] s'"
  | (idle) "err = None" "writes isPatch s s'"
  | (round) sts pods s1 s2 uerr where "err = None" "getAs asSet (sr_env ssc) SetK (realReconcileName req) s = (Inr sts, s1)"
      "writes isPatch s s2" "\<forall>p \<in> List.set pods. isMemberOf sts p"
      "ci_UpdateStatefulSet ctl (defaulted sts) pods s2 = Some (uerr, s')"
      "preparesRound ssc req s = Some (defaulted sts, pods, s2)"
proof -
  obtain x s1 where g: "getAs asSet (sr_env ssc) SetK (realReconcileName req) s = (x, s1)" by fastforce
  from does_getAs [OF g] have g1: "does s [] s1" .
  then have g2: "writes isPatch s s1" by (simp add: writes_does)
  show ?thesis
  proof (cases x)
    case (Inl er)
    with assms(5) g g1 g2 failed idle show ?thesis by (auto simp: ReconcileStatefulSet_def split: if_splits)
  next
    case (Inr sts)
    note r = assms(5) [unfolded ReconcileStatefulSet_def g Inr prod.case sum.case Let_def defaulted_def [symmetric]]
    obtain aerr s2 where a: "adoptOrphanRevisions ssc (defaulted sts) s1 = (aerr, s2)" by fastforce
    from does_nothing_trans [OF g1 adoptOrphanRevisions_does [OF assms(1) a]] have a1: "does s [] s2" .
    obtain y s3 where p: "getPodsForStatefulSet ssc (defaulted sts) (Selector (set_Spec (defaulted sts))) s2 = (y, s3)"
      by fastforce
    from writes_trans [OF writes_does [OF a1] getPods_writes [OF assms(3,2) p]] have p1: "writes isPatch s s3" by simp
    show ?thesis
    proof (cases "lib_SelectorError (core (sr_env ssc)) (Selector (set_Spec (defaulted sts))) \<noteq> None \<or> aerr \<noteq> None \<or> isl y")
      case True
      with r a a1 p p1 g2 failed idle show ?thesis by (cases aerr) (auto simp: isl_def split: if_splits)
    next
      case False
      then obtain pods where y: "y = Inr pods" by (cases y) auto
      with False r a p assms(1) obtain uerr where "err = None"
        "ci_UpdateStatefulSet ctl (defaulted sts) pods s3 = Some (uerr, s')"
        by (auto simp: syncStatefulSet_def split: option.splits)
      moreover from getPods_members [OF assms(4)] p y have "\<forall>q \<in> List.set pods. isMemberOf sts q"
        by (fastforce simp: isMemberOf_def)
      moreover from False g Inr a p y have "preparesRound ssc req s = Some (defaulted sts, pods, s3)"
        by (simp add: preparesRound_def)
      ultimately show ?thesis using round g Inr p1 by blast
    qed
  qed
qed

end

interpretation rci: control_interface
    "NewDefaultStatefulSetControl e (NewRealStatefulPodControl e) (UpdateStatefulSetStatus e) (realHistory e)"
  for e :: "'w k8s"
  by unfold_locales
    (auto simp: NewDefaultStatefulSetControl_def dest: rh.ListRevisions_does rh.AdoptOrphanRevisions_does)

end
