(* ===== verification/StoneSets.thy ===== *)
theory StoneSets
  imports Stone SetRounds SetReconciler
begin

text \<open>
  The StatefulSets a Stone asks for, in the hands of the StatefulSet control: they have all that the control
  dereferences without a check, so building and updating their pods does not panic, and their pods are spread over the
  coordinates of the group.
\<close>

section \<open>Complete sets\<close>

text \<open>What the control reads through pointers of a set: replicas, selector, strategy, rolling update, partition.\<close>

definition completeSet :: "'w k8s \<Rightarrow> statefulSet \<Rightarrow> bool" where
  "completeSet e sts \<longleftrightarrow> Replicas (set_Spec sts) \<noteq> None \<and> Selector (set_Spec sts) \<noteq> None \<and> coordinatesSafe e sts
     \<and> (\<exists>us ru part. UpdateStrategy (set_Spec sts) = Some us \<and> RollingUpdate us = Some ru \<and> Partition ru = Some part
          \<and> 0 \<le> sint part)"

text \<open>The group's coordinates come back from the annotation that they are written to.\<close>

definition readsBack :: "'w k8s \<Rightarrow> coordinatesGroup \<Rightarrow> bool" where
  "readsBack e cg \<longleftrightarrow>
     lib_UnmarshalCoordinates (codec e) (lib_MarshalCoordinates (codec e) (Zoneset cg)) = Inr (Zoneset cg)"

text \<open>None of the operations on a set that may dereference nil does so.\<close>

definition runsSafely :: "'w k8s \<Rightarrow> statefulSet \<Rightarrow> bool" where
  "runsSafely e sts \<longleftrightarrow> checkSetDefaultVariable (set_Spec sts) = (None, set_Spec sts)
     \<and> (\<forall>i. newStatefulSetPod e sts i \<noteq> None) \<and> (\<forall>i. usesCurrentRevision sts i \<noteq> None)
     \<and> (\<forall>p. getPersistentVolumeClaims sts p \<noteq> None) \<and> isInPlaceOnly sts \<noteq> None
     \<and> (\<forall>st. completeRollingUpdate sts st \<noteq> None)
     \<and> (\<forall>u n cache. ro_set u = sts \<longrightarrow> updateBounds e u n cache \<noteq> None)"

lemma completeSet_safe: "completeSet e sts \<Longrightarrow> storageSafe sts \<and> strategySafe sts \<and> coordinatesSafe e sts"
  by (auto simp: completeSet_def storageSafe_def strategySafe_def)

lemma completeSet_runs:
  assumes "fresh_pods (core e)" and "completeSet e sts"
  shows "runsSafely e sts"
proof -
  from assms(2) obtain us ru part where c: "Replicas (set_Spec sts) \<noteq> None" "Selector (set_Spec sts) \<noteq> None"
    "UpdateStrategy (set_Spec sts) = Some us" "RollingUpdate us = Some ru" "Partition ru = Some part"
    by (auto simp: completeSet_def)
  note safe = completeSet_safe [OF assms(2)]
  have "checkSetDefaultVariable (set_Spec sts) = (None, set_Spec sts)" using c by (simp add: checkSetDefaultVariable_def)
  moreover have "newStatefulSetPod e sts i \<noteq> None" for i using newStatefulSetPod_wf [OF assms(1)] safe by blast
  moreover have "usesCurrentRevision sts i \<noteq> None" for i using c by (simp add: usesCurrentRevision_def)
  moreover have "getPersistentVolumeClaims sts p \<noteq> None" for p using getPersistentVolumeClaims_wf safe by blast
  moreover have "isInPlaceOnly sts \<noteq> None" using c by (simp add: isInPlaceOnly_def)
  moreover have "completeRollingUpdate sts st \<noteq> None" for st using c by (simp add: completeRollingUpdate_def)
  moreover have "updateBounds e u n cache \<noteq> None" if "ro_set u = sts" for u n cache
    using c that by (simp add: updateBounds_def split: sum.splits)
  ultimately show ?thesis by (simp add: runsSafely_def)
qed

lemma fitSet_frame:
  "fitSet ste n base = Some sts \<Longrightarrow> Selector (set_Spec sts) = Selector (set_Spec base)
     \<and> PodManagementPolicy (set_Spec sts) = PodManagementPolicy (set_Spec base)
     \<and> t_Meta (Template (set_Spec sts)) = t_Meta (Template (set_Spec base))
     \<and> Affinity (t_Spec (Template (set_Spec sts))) = Affinity (t_Spec (Template (set_Spec base)))"
  by (auto simp: fitSet_def Let_def split: option.splits)

lemma fitSet_strategy:
  "fitSet ste n base = Some sts \<Longrightarrow>
     \<exists>us ru. UpdateStrategy (set_Spec sts) = Some us \<and> RollingUpdate us = Some ru \<and> Partition ru = Some 0"
  by (auto simp: fitSet_def Let_def split: option.splits)

lemma newStoneSet_coordinates: "mapLookup (Annotations (t_Meta (Template (set_Spec (newStoneSet e ste cg name))))) ''coordinates''
    = Some (lib_MarshalCoordinates (codec e) (Zoneset cg))"
  by (simp add: newStoneSet_def mapLookup_def emptyMeta_def)

lemma fitSet_complete:
  assumes "fitSet ste n base = Some sts"
    and "completeSet e base \<or> base = newStoneSet e ste cg name \<and> readsBack e cg \<and> Zoneset cg \<noteq> []"
  shows "completeSet e sts"
proof -
  have "coordinatesSafe e base \<and> Selector (set_Spec base) \<noteq> None"
    using assms(2) newStoneSet_coordinates [of e ste cg name]
    by (auto simp: completeSet_def coordinatesSafe_def readsBack_def newStoneSet_def)
  then show ?thesis
    using fitSet_spec [OF assms(1)] fitSet_frame [OF assms(1)] fitSet_strategy [OF assms(1)]
    by (auto simp: completeSet_def coordinatesSafe_def)
qed

section \<open>Where the pods go\<close>

definition placedAt :: "'w k8s \<Rightarrow> statefulSet \<Rightarrow> nat \<Rightarrow> coordinate \<Rightarrow> bool" where
  "placedAt e sts i c \<longleftrightarrow> (\<exists>p. newStatefulSetPod e sts (int i) = Some p
     \<and> map_option NodeAffinity (Affinity (p_Spec p)) = Some (Some (organizationNodeAffinity c)))"

lemma coordinatorPod_affinity:
  assumes "mapLookup (Annotations (t_Meta (Template (set_Spec sts)))) ''coordinates'' = Some t"
    and "lib_UnmarshalCoordinates (codec e) t = Inr cs" and "cs \<noteq> []" and "Affinity (p_Spec p) = None"
  shows "\<exists>q. coordinatorPod e sts p (int i) = Some q
    \<and> map_option NodeAffinity (Affinity (p_Spec q)) = Some (Some (organizationNodeAffinity (cs ! (i mod length cs))))"
proof -
  have "Annotations (t_Meta (Template (set_Spec sts))) \<noteq> None" using assms(1) by (auto simp: mapLookup_def split: option.splits)
  moreover have "nat (int i mod int (length cs)) = i mod length cs" by (metis nat_int zmod_int)
  ultimately show ?thesis using assms by (simp add: coordinatorPod_def Let_def)
qed

lemma placed_at:
  assumes "fresh_pods (core e)" and "storageSafe sts"
    and "mapLookup (Annotations (t_Meta (Template (set_Spec sts)))) ''coordinates'' = Some t"
    and "lib_UnmarshalCoordinates (codec e) t = Inr cs" and "cs \<noteq> []" and "Affinity (t_Spec (Template (set_Spec sts))) = None"
  shows "placedAt e sts i c \<longleftrightarrow> organizationNodeAffinity c = organizationNodeAffinity (cs ! (i mod length cs))"
proof -
  obtain p0 where p0: "lib_GetPodFromTemplate (core e) (Template (set_Spec sts)) (set_Meta sts)
      (Some (lib_NewControllerRef (core e) (set_Meta sts) controllerKind)) = Some p0"
    and spec: "p_Spec p0 = t_Spec (Template (set_Spec sts))"
    using assms(1) by (rule fresh_podsE)
  define p1 where "p1 = initIdentity sts (p0\<lparr>p_Meta := (p_Meta p0)\<lparr>Name := getPodName sts (int i)\<rparr>\<rparr>)"
  from updateStorage_wf [OF assms(2)] obtain p2 where p2: "updateStorage (core e) sts p1 = Some p2" by blast
  have "Affinity (p_Spec p2) = None"
    using updateStorage_frame(4) [OF p2] spec assms(6)
    by (simp add: p1_def initIdentity_def updateIdentity_def Let_def)
  from coordinatorPod_affinity [OF assms(3-5) this, of i] obtain q where q: "coordinatorPod e sts p2 (int i) = Some q"
    "map_option NodeAffinity (Affinity (p_Spec q)) = Some (Some (organizationNodeAffinity (cs ! (i mod length cs))))" by blast
  with p0 p2 have "newStatefulSetPod e sts (int i) = Some q" by (simp add: newStatefulSetPod_def Let_def p1_def)
  with q(2) show ?thesis by (auto simp: placedAt_def)
qed

text \<open>An affinity tells zone, rack and host.\<close>

lemma organizationNodeAffinity_place: "organizationNodeAffinity c = organizationNodeAffinity d \<longleftrightarrow> place c = place d"
  by (auto simp: organizationNodeAffinity_def place_def requirement_def flag_defs Let_def split: if_splits)

lemma card_residues:
  assumes "z < (l :: nat)" shows "card {i. i < r \<and> i mod l = z} = r div l + (if z < r mod l then 1 else 0)"
proof (induction r)
  case 0
  then show ?case by simp
next
  case (Suc r)
  have split: "{i. i < Suc r \<and> i mod l = z} = (if r mod l = z then insert r {i. i < r \<and> i mod l = z} else {i. i < r \<and> i mod l = z})"
    by (auto simp: less_Suc_eq)
  have "r mod l < l" using assms by simp
  show ?case
  proof (cases "Suc (r mod l) = l")
    case True
    then have "Suc r mod l = 0" "Suc r div l = Suc (r div l)" by (simp_all add: mod_Suc div_Suc)
    with True Suc split assms show ?thesis by auto
  next
    case False
    then have "Suc r mod l = Suc (r mod l)" "Suc r div l = r div l" by (simp_all add: mod_Suc div_Suc)
    with Suc split show ?thesis by auto
  qed
qed

section \<open>Properties\<close>

text \<open>
  C35. Every StatefulSet a Stone's reconciliation hands on is well formed: whether it was built for a group with
  coordinates or made to fit from a well-formed one that was read, it has the size asked for, and none of the
  operations of the StatefulSet control that read through its pointers panics on it: setting defaults changes nothing,
  pods can be built for every ordinal, their claims and their revision determined, the bounds of an update computed and
  a finished update recognised.
\<close>

theorem stone_set_wellformed:
  assumes "fresh_pods (core e)" and "fitSet ste n base = Some sts"
    and "completeSet e base \<or> base = newStoneSet e ste cg name \<and> readsBack e cg \<and> Zoneset cg \<noteq> []"
  shows "completeSet e sts \<and> runsSafely e sts \<and> Replicas (set_Spec sts) = Some n"
  using fitSet_complete [OF assms(2,3)] completeSet_runs [OF assms(1)] fitSet_spec [OF assms(2)] by blast

abbreviation "zones \<equiv> [\<lparr>Zone = ''z1'', Rack = ''r1'', Host = [], co_Replicas = 1\<rparr>, \<lparr>Zone = ''z2'', Rack = ''r1'', Host = [], co_Replicas = 1\<rparr>]"

definition zonesEnv :: "nat k8s" where
  "zonesEnv = (let e = sampleEnv (sampleSet 1 0 []) in e\<lparr>codec := (codec e)
     \<lparr>lib_MarshalCoordinates := (\<lambda>c. ''zones''), lib_UnmarshalCoordinates := (\<lambda>t. Inr zones)\<rparr>\<rparr>)"

lemma zones_facts: "fresh_pods (core zonesEnv)" "readsBack zonesEnv (sampleGroup ''b'' zones)" "Zoneset (sampleGroup ''b'' zones) = zones"
  using sample_fresh_pods by (simp_all add: zonesEnv_def Let_def readsBack_def sampleGroup_def)

definition zonesSet :: statefulSet where
  "zonesSet = (case fitSet (sampleStone ''shop'' Omega []) 3 (newStoneSet zonesEnv (sampleStone ''shop'' Omega []) (sampleGroup ''b'' zones)
     ''shop-0-b'') of Some sts \<Rightarrow> sts)"

lemma zonesSet_fit: "fitSet (sampleStone ''shop'' Omega []) 3 (newStoneSet zonesEnv (sampleStone ''shop'' Omega [])
     (sampleGroup ''b'' zones) ''shop-0-b'') = Some zonesSet"
  by (simp add: zonesSet_def fitSet_def newStoneSet_def rollingStrategy_def)

theorem stone_set_wellformed_witness: "newStatefulSetPod zonesEnv zonesSet 7 \<noteq> None"
  using stone_set_wellformed [OF zones_facts(1) zonesSet_fit, where cg = "sampleGroup ''b'' zones" and name = "''shop-0-b''"]
    zones_facts(2,3) by (simp add: runsSafely_def)

text \<open>
  C36. The pods of such a set are spread evenly: with \<open>l\<close> different coordinates in the group, and a template without an
  affinity of its own, every pod is bound to one of them, and of the pods below any ordinal \<open>r\<close> each coordinate has
  \<open>r div l\<close>, or one more for the first \<open>r mod l\<close> coordinates.
\<close>

theorem stone_pods_spread:
  assumes "fresh_pods (core e)" and "readsBack e cg" and "distinct (map place (Zoneset cg))"
    and "Affinity (t_Spec (sn_Template (sn_Spec ste))) = None" and "fitSet ste n (newStoneSet e ste cg name) = Some sts"
    and "z < length (Zoneset cg)"
  shows "(\<forall>i. \<exists>c \<in> List.set (Zoneset cg). placedAt e sts i c)
    \<and> card {i. i < r \<and> placedAt e sts i (Zoneset cg ! z)}
      = r div length (Zoneset cg) + (if z < r mod length (Zoneset cg) then 1 else 0)"
proof -
  let ?l = "length (Zoneset cg)"
  have ne: "Zoneset cg \<noteq> []" using assms(6) by auto
  from fitSet_complete [OF assms(5)] assms(2) ne completeSet_safe have safe: "storageSafe sts" by blast
  have co: "mapLookup (Annotations (t_Meta (Template (set_Spec sts)))) ''coordinates'' = Some (lib_MarshalCoordinates (codec e) (Zoneset cg))"
    using fitSet_frame [OF assms(5)] newStoneSet_coordinates by simp
  have aff: "Affinity (t_Spec (Template (set_Spec sts))) = None"
    using fitSet_frame [OF assms(5)] assms(4) by (simp add: newStoneSet_def)
  have at: "placedAt e sts i (Zoneset cg ! y) \<longleftrightarrow> i mod ?l = y" if y: "y < ?l" for i y
  proof -
    have "placedAt e sts i (Zoneset cg ! y) \<longleftrightarrow> map place (Zoneset cg) ! y = map place (Zoneset cg) ! (i mod ?l)"
      using placed_at [OF assms(1) safe co _ ne aff] assms(2) y ne by (simp add: readsBack_def organizationNodeAffinity_place)
    also have "\<dots> \<longleftrightarrow> i mod ?l = y" using nth_eq_iff_index_eq [OF assms(3), of y "i mod ?l"] y ne by auto
    finally show ?thesis .
  qed
  have "\<exists>c \<in> List.set (Zoneset cg). placedAt e sts i c" for i
    by (rule bexI [of _ "Zoneset cg ! (i mod ?l)"]) (use at ne in auto)
  moreover have "{i. i < r \<and> placedAt e sts i (Zoneset cg ! z)} = {i. i < r \<and> i mod ?l = z}" using at [OF assms(6)] by blast
  ultimately show ?thesis using card_residues [OF assms(6)] by simp
qed

theorem stone_pods_spread_witness:
  "card {i. i < 3 \<and> placedAt zonesEnv zonesSet i (zones ! 0)} = 2"
proof -
  have "distinct (map place zones)" by (simp add: place_def)
  moreover have "Affinity (t_Spec (sn_Template (sn_Spec (sampleStone ''shop'' Omega [])))) = None"
    by (simp add: sampleStone_def sampleSet_def samplePodSpec_def)
  ultimately show ?thesis
    using stone_pods_spread [OF zones_facts(1,2) _ _ zonesSet_fit, of 0 3] zones_facts(3)
    by (simp add: numeral_2_eq_2 [symmetric] del: One_nat_def)
qed

end
