(* ===== verification/Water.thy ===== *)
theory Water
  imports Coordinate Cluster
begin

text \<open>
  \<^verbatim>\<open>controllers/water_controller.go\<close>: the reconciler of a Water, which keeps one Deployment per coordinate
  (which ones, and of what size, is the strategy's choice), one Service, and its own annotation and status. The
  loops that return at the first error are \<open>forEach\<close>; a closure handed to \<^verbatim>\<open>retry.RetryOnConflict\<close> has the
  variables it captures and writes as its state.
\<close>

section \<open>Which deployments, and of what size\<close>

definition waterSize :: "strategyType \<Rightarrow> coordinator \<Rightarrow> int32 option" where
  \<comment> \<open>the \<open>switch\<close> of \<open>Reconcile\<close>; \<open>None\<close> is its \<open>continue\<close>\<close>
  "waterSize strategy c =
     (if strategy = Alpha then (if 0 < Index c then None else Some 1)
      else if strategy = Beta then Some 1
      else if strategy = Release then Some (co_Replicas (Coordinate c))
      else Some 1)"

definition deployKey :: "string \<Rightarrow> string \<Rightarrow> water \<Rightarrow> objectKey" where
  "deployKey ns coordName wts = \<lparr>key_Namespace = ns, key_Name = deploymentName coordName wts\<rparr>"

definition appLabels :: "water \<Rightarrow> gomap" where
  "appLabels wts = Some [''app'' \<mapsto> Name (w_Meta wts)]"

definition newDeployment ::
  "coreLib \<Rightarrow> objectKey \<Rightarrow> water \<Rightarrow> int32 \<Rightarrow> nodeAffinity option \<Rightarrow> deployment" where
  "newDeployment L deployName wts sz na =
     (let spec = t_Spec (w_Template (w_Spec wts));
          spec = (case na of None \<Rightarrow> spec
                  | Some a \<Rightarrow> spec\<lparr>Affinity := Some \<lparr>NodeAffinity = Some a, aff_rest = []\<rparr>\<rparr>)
      in \<lparr>d_Meta = emptyMeta\<lparr>Name := key_Name deployName, Namespace := key_Namespace deployName,
             OwnerReferences := ownerReference_of L (w_Meta wts) ''Water''\<rparr>,
          d_Replicas = Some sz,
          d_Selector = Some \<lparr>MatchLabels = appLabels wts, sel_rest = []\<rparr>,
          d_Template = \<lparr>t_Meta = emptyMeta\<lparr>Labels := appLabels wts\<rparr>, t_Spec = spec\<rparr>,
          d_rest = []\<rparr>)"

section \<open>The steps of a reconciliation\<close>

definition deploymentAttempt ::
  "'w k8s \<Rightarrow> objectKey \<Rightarrow> water \<Rightarrow> int32 \<Rightarrow> deployment \<times> 'w sys \<Rightarrow> (error option \<times> deployment \<times> 'w sys) option" where
  \<comment> \<open>the closure of \<open>updateDeployment\<close>, with the deployment it creates\<close>
  "deploymentAttempt e deployName wts sz v =
     (case v of (deploy, s) \<Rightarrow>
        (case getAs asDeploy e DeployK deployName s of
           (Inl err, s) \<Rightarrow>
             if IsNotFound (Some err) then
               (case writeAs asDeploy e (CreateCall (DeployObj deploy)) deploy s of
                  (Some err, deploy, s) \<Rightarrow> Some (Some (lib_WithStack (core e) err), deploy, s)
                | (None, deploy, s) \<Rightarrow>
                    (case lib_SetControllerReference (core e) (w_Meta wts) (d_Meta deploy) of
                       Inl err \<Rightarrow> Some (Some (lib_WithStack (core e) err), deploy, s)
                     | Inr m \<Rightarrow> Some (None, deploy\<lparr>d_Meta := m\<rparr>, s)))
             else Some (Some (lib_WithStack (core e) err), deploy, s)
         | (Inr old, s) \<Rightarrow>
             (case d_Replicas old of
                None \<Rightarrow> None
              | Some n \<Rightarrow>
                  if n = sz then Some (None, deploy, s)
                  else
                    (case writeAs asDeploy e (UpdateCall (DeployObj (old\<lparr>d_Replicas := Some sz\<rparr>)))
                            (old\<lparr>d_Replicas := Some sz\<rparr>) s of
                       (Some err, _, s) \<Rightarrow> Some (Some (lib_WithStack (core e) err), deploy, s)
                     | (None, _, s) \<Rightarrow> Some (None, deploy, s)))))"

definition updateDeployment ::
  "'w k8s \<Rightarrow> objectKey \<Rightarrow> water \<Rightarrow> int32 \<Rightarrow> nodeAffinity option \<Rightarrow> 'w sys \<Rightarrow> (error option \<times> 'w sys) option" where
  "updateDeployment e deployName wts sz na s =
     (case RetryOnConflict (core e) (lib_DefaultBackoffSteps (core e)) (deploymentAttempt e deployName wts sz)
             (newDeployment (core e) deployName wts sz na, s) of
        None \<Rightarrow> None
      | Some (err, deploy, s) \<Rightarrow> Some (err, s))"

definition deployCoordinator ::
  "'w k8s \<Rightarrow> objectKey \<Rightarrow> water \<Rightarrow> coordinator \<Rightarrow> 'w sys \<Rightarrow> (error option \<times> 'w sys) option" where
  \<comment> \<open>the body of the loop of \<open>Reconcile\<close>\<close>
  "deployCoordinator e req wts c s =
     (case waterSize (w_Strategy (w_Spec wts)) c of
        None \<Rightarrow> Some (None, s)
      | Some sz \<Rightarrow>
          updateDeployment e (deployKey (key_Namespace req) (co_Name c) wts) wts sz (Some (co_NodeAffinity c)) s)"

definition cleanCoordinate ::
  "'w k8s \<Rightarrow> water \<Rightarrow> coordinates \<Rightarrow> coordinates \<Rightarrow> coordinate \<Rightarrow> 'w sys \<Rightarrow> (error option \<times> 'w sys) option" where
  "cleanCoordinate e wts tmp1 tmp2 c s =
     (if In tmp1 c \<and> \<not> In tmp2 c then
        (case getAs asDeploy e DeployK (deployKey (Namespace (w_Meta wts)) (coordinateName c) wts) s of
           (Inl err, s) \<Rightarrow> Some (if IsNotFound (Some err) then None else Some (lib_WithStack (core e) err), s)
         | (Inr deploy, s) \<Rightarrow>
             (case clientWrite e (DeleteCall (DeployObj deploy)) s of
                (Some err, _, s) \<Rightarrow> Some (Some (lib_WithStack (core e) err), s)
              | (None, _, s) \<Rightarrow> Some (None, s)))
      else Some (None, s))"

definition cleanAttempt :: "'w k8s \<Rightarrow> water \<Rightarrow> 'w sys \<Rightarrow> (error option \<times> 'w sys) option" where
  "cleanAttempt e wts s =
     (case mapLookup (Annotations (w_Meta wts)) ''spec'' of
        None \<Rightarrow> Some (None, s)
      | Some bs \<Rightarrow>
          (case lib_UnmarshalWaterSpec (codec e) bs of
             Inl err \<Rightarrow> Some (Some (lib_WithStack (core e) err), s)
           | Inr tmpWaterSpec \<Rightarrow>
               let tmp1 = w_Coordinates tmpWaterSpec; tmp2 = w_Coordinates (w_Spec wts)
               in if Difference tmp1 tmp2 = [] then Some (None, s)
                  else forEach (cleanCoordinate e wts tmp1 tmp2) tmp1 s))"

definition updateCleanOldDeployment :: "'w k8s \<Rightarrow> water \<Rightarrow> 'w sys \<Rightarrow> (error option \<times> 'w sys) option" where
  "updateCleanOldDeployment e wts s =
     (if Annotations (w_Meta wts) = None then Some (None, s)
      else RetryOnConflict (core e) (lib_DefaultBackoffSteps (core e)) (cleanAttempt e wts) s)"

definition waterService :: "coreLib \<Rightarrow> water \<Rightarrow> service" where
  "waterService L wts =
     \<lparr>svc_Meta = emptyMeta\<lparr>Name := Name (w_Meta wts), Namespace := Namespace (w_Meta wts),
        OwnerReferences := ownerReference_of L (w_Meta wts) ''Water''\<rparr>,
      svc_Spec = (w_Service (w_Spec wts))\<lparr>svc_Selector := appLabels wts\<rparr>\<rparr>"

definition serviceAttempt :: "'w k8s \<Rightarrow> service \<times> 'w sys \<Rightarrow> (error option \<times> service \<times> 'w sys) option" where
  "serviceAttempt e v = (case v of (svc, s) \<Rightarrow> Some (writeAs asSvc e (CreateCall (SvcObj svc)) svc s))"

definition createService :: "'w k8s \<Rightarrow> objectKey \<Rightarrow> water \<Rightarrow> 'w sys \<Rightarrow> (error option \<times> 'w sys) option" where
  "createService e req wts s =
     (case getAs asSvc e SvcK req s of
        (Inr _, s) \<Rightarrow> Some (None, s)
      | (Inl err, s) \<Rightarrow>
          if IsNotFound (Some err) then
            (case RetryOnConflict (core e) (lib_DefaultBackoffSteps (core e)) (serviceAttempt e)
                    (waterService (core e) wts, s) of
               None \<Rightarrow> None
             | Some (err, svc, s) \<Rightarrow> Some (err, s))
          else Some (Some (lib_WithStack (core e) err), s))"

definition annotateAttempt :: "'w k8s \<Rightarrow> water \<times> 'w sys \<Rightarrow> (error option \<times> water \<times> 'w sys) option" where
  "annotateAttempt e v =
     (case v of (wts, s) \<Rightarrow>
        (case lib_MarshalWaterSpec (codec e) (w_Spec wts) of
           Inl err \<Rightarrow> Some (Some err, wts, s)
         | Inr data \<Rightarrow>
             let wts = wts\<lparr>w_Meta := (w_Meta wts)\<lparr>Annotations := mapPut (Annotations (w_Meta wts)) ''spec'' data\<rparr>\<rparr>
             in Some (writeAs asWater e (UpdateCall (WaterObj wts)) wts s)))"

definition annotationWater :: "'w k8s \<Rightarrow> water \<Rightarrow> 'w sys \<Rightarrow> (error option \<times> water \<times> 'w sys) option" where
  "annotationWater e wts s =
     RetryOnConflict (core e) (lib_DefaultBackoffSteps (core e)) (annotateAttempt e) (wts, s)"

datatype tally = Tally waterStatus | Stop "error option" | Crash

fun tallyDeployments ::
  "'w k8s \<Rightarrow> water \<Rightarrow> coordinator list \<Rightarrow> waterStatus \<Rightarrow> 'w sys \<Rightarrow> tally \<times> 'w sys" where
  \<comment> \<open>the loop of \<open>updateWater\<close>: it goes through, returns early, or dereferences nil\<close>
  "tallyDeployments e wts [] st s = (Tally st, s)"
| "tallyDeployments e wts (c # cs) st s =
     (let st = st\<lparr>DesiredReplicas := DesiredReplicas st + co_Replicas (Coordinate c)\<rparr>
      in case getAs asDeploy e DeployK (deployKey (Namespace (w_Meta wts)) (co_Name c) wts) s of
           (Inl err, s) \<Rightarrow> (Stop (if IsNotFound (Some err) then None else Some (lib_WithStack (core e) err)), s)
         | (Inr d, s) \<Rightarrow>
             (case d_Replicas d of
                None \<Rightarrow> (Crash, s)
              | Some n \<Rightarrow>
                  tallyDeployments e wts cs
                    (st\<lparr>AlreadyReplicas := AlreadyReplicas st + n, AlreadyDeployment := AlreadyDeployment st + 1\<rparr>) s))"

definition waterStatusAttempt ::
  "'w k8s \<Rightarrow> waterStatus \<Rightarrow> water \<times> 'w sys \<Rightarrow> (error option \<times> water \<times> 'w sys) option" where
  "waterStatusAttempt e expectStatus v =
     (case v of (wts, s) \<Rightarrow>
        if w_Status wts = expectStatus then Some (None, wts, s)
        else
          (case writeAs asWater e (StatusUpdateCall (WaterObj (wts\<lparr>w_Status := expectStatus\<rparr>)))
                  (wts\<lparr>w_Status := expectStatus\<rparr>) s of
             (Some err, wts, s) \<Rightarrow> Some (Some (lib_WithStack (core e) err), wts, s)
           | (None, wts, s) \<Rightarrow> Some (None, wts, s)))"

definition updateWater :: "'w k8s \<Rightarrow> water \<Rightarrow> 'w sys \<Rightarrow> (error option \<times> 'w sys) option" where
  "updateWater e wts s =
     (let coordinators = makeLocalCoordinates (w_Coordinates (w_Spec wts));
          expectStatus = \<lparr>DesiredReplicas = 0, AlreadyReplicas = 0,
            DesiredDeployment = word_of_int (int (length coordinators)), AlreadyDeployment = 0\<rparr>
      in case tallyDeployments e wts coordinators expectStatus s of
           (Crash, s) \<Rightarrow> None
         | (Stop err, s) \<Rightarrow> Some (err, s)
         | (Tally expectStatus, s) \<Rightarrow>
             (case RetryOnConflict (core e) (lib_DefaultBackoffSteps (core e)) (waterStatusAttempt e expectStatus) (wts, s) of
                None \<Rightarrow> None
              | Some (err, wts, s) \<Rightarrow> Some (err, s)))"

definition ReconcileWater :: "'w k8s \<Rightarrow> objectKey \<Rightarrow> 'w sys \<Rightarrow> (error option \<times> 'w sys) option" where
  "ReconcileWater e req s =
     (case getAs asWater e WaterK req s of
        (Inl err, s) \<Rightarrow> Some (if IsNotFound (Some err) then None else Some err, s)
      | (Inr wts, s) \<Rightarrow>
          (case updateCleanOldDeployment e wts s of
             None \<Rightarrow> None
           | Some (Some err, s) \<Rightarrow> Some (Some err, s)
           | Some (None, s) \<Rightarrow>
               (case forEach (deployCoordinator e req wts) (makeLocalCoordinates (w_Coordinates (w_Spec wts))) s of
                  None \<Rightarrow> None
                | Some (Some err, s) \<Rightarrow> Some (Some err, s)
                | Some (None, s) \<Rightarrow>
                    (case createService e req wts s of
                       None \<Rightarrow> None
                     | Some (Some err, s) \<Rightarrow> Some (Some err, s)
                     | Some (None, s) \<Rightarrow>
                         (case annotationWater e wts s of
                            None \<Rightarrow> None
                          | Some (Some err, wts, s) \<Rightarrow> Some (Some err, s)
                          | Some (None, wts, s) \<Rightarrow> updateWater e wts s)))))"

section \<open>Facts\<close>

text \<open>The deployments a Water asks for: key, size and node affinity.\<close>

definition wants :: "objectKey \<Rightarrow> water \<Rightarrow> objectKey \<Rightarrow> int32 \<Rightarrow> nodeAffinity \<Rightarrow> bool" where
  "wants req wts key n na \<longleftrightarrow>
     (\<exists>c \<in> set (makeLocalCoordinates (w_Coordinates (w_Spec wts))). waterSize (w_Strategy (w_Spec wts)) c = Some n
        \<and> key = deployKey (key_Namespace req) (co_Name c) wts \<and> na = co_NodeAffinity c)"

text \<open>The deployments of the coordinates that the annotation has and the spec no longer has.\<close>

definition droppedCoordinate :: "codecLib \<Rightarrow> water \<Rightarrow> coordinate \<Rightarrow> bool" where
  "droppedCoordinate C wts c \<longleftrightarrow>
     (\<exists>bs old. mapLookup (Annotations (w_Meta wts)) ''spec'' = Some bs \<and> lib_UnmarshalWaterSpec C bs = Inr old
        \<and> c \<in> set (w_Coordinates old) \<and> place c \<notin> place ` set (w_Coordinates (w_Spec wts)))"

abbreviation droppedKey :: "water \<Rightarrow> coordinate \<Rightarrow> objectKey" where
  "droppedKey wts c \<equiv> deployKey (Namespace (w_Meta wts)) (coordinateName c) wts"

text \<open>
  The Water as it is written: the one that was read, with its spec recorded in the annotation; as the server answers
  that; and the status that the deployments \<open>ds\<close> of its coordinates \<open>cs\<close> give, and the calls that read them.
\<close>

definition recorded :: "water \<Rightarrow> string \<Rightarrow> water" where
  "recorded wts data = wts\<lparr>w_Meta := (w_Meta wts)\<lparr>Annotations := mapPut (Annotations (w_Meta wts)) ''spec'' data\<rparr>\<rparr>"

abbreviation answered :: "water \<Rightarrow> reply \<Rightarrow> water" where
  "answered \<equiv> written asWater"

definition tallied :: "coordinator list \<Rightarrow> deployment list \<Rightarrow> waterStatus" where
  "tallied cs ds = \<lparr>DesiredReplicas = sum_list (map (\<lambda>c. co_Replicas (Coordinate c)) cs),
     AlreadyReplicas = sum_list (map (\<lambda>d. the (d_Replicas d)) ds),
     DesiredDeployment = word_of_int (int (length cs)), AlreadyDeployment = of_nat (length cs)\<rparr>"

definition deploymentReads :: "water \<Rightarrow> coordinator list \<Rightarrow> deployment list \<Rightarrow> (call \<times> reply) list" where
  "deploymentReads wts cs ds =
     map2 (\<lambda>c d. (GetCall DeployK (deployKey (Namespace (w_Meta wts)) (co_Name c) wts), Got (DeployObj d))) cs ds"

text \<open>
  A status update comes right after the accepted write of the annotation and one read per coordinate, and changes of
  the Water that the server answered nothing but the status, to what those reads give.
\<close>

definition waterStatusCall :: "'w k8s \<Rightarrow> water \<Rightarrow> (call \<times> reply) list \<Rightarrow> water \<Rightarrow> bool" where
  "waterStatusCall e wts h w \<longleftrightarrow> (\<exists>h0 data r cur cs ds. lib_MarshalWaterSpec (codec e) (w_Spec wts) = Inr data
     \<and> (\<forall>x. r \<noteq> Fail x) \<and> cur = answered (recorded wts data) r \<and> cs = makeLocalCoordinates (w_Coordinates (w_Spec cur))
     \<and> length ds = length cs \<and> h = h0 @ (UpdateCall (WaterObj (recorded wts data)), r) # deploymentReads cur cs ds
     \<and> w = cur\<lparr>w_Status := tallied cs ds\<rparr>)"

text \<open>Why a call of the reconciler is allowed, given the trace before it.\<close>

fun waterCall :: "'w k8s \<Rightarrow> objectKey \<Rightarrow> water \<Rightarrow> (call \<times> reply) list \<Rightarrow> call \<Rightarrow> bool" where
  "waterCall e req wts h (GetCall k key) \<longleftrightarrow> True"
| "waterCall e req wts h (CreateCall (DeployObj d)) \<longleftrightarrow>
     (\<exists>key n na. wants req wts key n na \<and> d = newDeployment (core e) key wts n (Some na)
        \<and> justAfter (GetCall DeployK key, Fail NotFound) h)"
| "waterCall e req wts h (UpdateCall (DeployObj d)) \<longleftrightarrow>
     (\<exists>key n na old. wants req wts key n na \<and> d = old\<lparr>d_Replicas := Some n\<rparr> \<and> d_Replicas old \<noteq> Some n
        \<and> justAfter (GetCall DeployK key, Got (DeployObj old)) h)"
| "waterCall e req wts h (DeleteCall (DeployObj d)) \<longleftrightarrow>
     (\<exists>c. droppedCoordinate (codec e) wts c \<and> justAfter (GetCall DeployK (droppedKey wts c), Got (DeployObj d)) h)"
| "waterCall e req wts h (CreateCall (SvcObj v)) \<longleftrightarrow> v = waterService (core e) wts"
| "waterCall e req wts h (UpdateCall (WaterObj w)) \<longleftrightarrow>
     (\<exists>data. lib_MarshalWaterSpec (codec e) (w_Spec wts) = Inr data \<and> w = recorded wts data)"
| "waterCall e req wts h (StatusUpdateCall (WaterObj w)) \<longleftrightarrow> waterStatusCall e wts h w"
| "waterCall e req wts h _ \<longleftrightarrow> False"

definition deployed :: "objectKey \<Rightarrow> int32 \<Rightarrow> call \<times> reply \<Rightarrow> bool" where
  \<comment> \<open>the entry of the trace from which the deployment is known to have the size\<close>
  "deployed key n en \<longleftrightarrow>
     (\<exists>d. en = (GetCall DeployK key, Got (DeployObj d)) \<and> d_Replicas d = Some n)
     \<or> (\<exists>d r. en = (CreateCall (DeployObj d), r) \<and> (\<forall>x. r \<noteq> Fail x) \<and> metaKey (d_Meta d) = key \<and> d_Replicas d = Some n)
     \<or> (\<exists>d r. en = (UpdateCall (DeployObj d), r) \<and> (\<forall>x. r \<noteq> Fail x) \<and> metaKey (d_Meta d) = key \<and> d_Replicas d = Some n)"

text \<open>The key of an updated deployment is that of the read before it, which a server that answers by name has given.\<close>

abbreviation deployedIf :: "'w k8s \<Rightarrow> objectKey \<Rightarrow> int32 \<Rightarrow> call \<times> reply \<Rightarrow> bool" where
  "deployedIf e key n en \<equiv> gets_named e \<longrightarrow> deployed key n en"

text \<open>What one run of the closure that keeps a deployment leaves behind.\<close>

definition attempted :: "'w k8s \<Rightarrow> objectKey \<Rightarrow> water \<Rightarrow> objectKey \<Rightarrow> int32 \<Rightarrow> deployment
    \<Rightarrow> 'w sys \<Rightarrow> error option \<Rightarrow> deployment \<Rightarrow> 'w sys \<Rightarrow> bool" where
  "attempted e req wts key n d s err d' s' \<longleftrightarrow> justified (waterCall e req wts) s s'
     \<and> (err = None \<longrightarrow> emits (deployedIf e key n) s s') \<and> (err = Some Conflict \<longrightarrow> d' = d)"

lemma deploymentAttempt_create:
  assumes "deploymentAttempt e key wts n (d, s) = Some (err, d', s')" and "owner_errors (core e)"
    and "wants req wts key n na" and "d = newDeployment (core e) key wts n (Some na)"
    and g: "getAs asDeploy e DeployK key s = (Inl NotFound, s1)"
  shows "attempted e req wts key n d s err d' s'"
proof -
  let ?J = "waterCall e req wts"
  obtain werr d1 s2 where w: "writeAs asDeploy e (CreateCall (DeployObj d)) d s1 = (werr, d1, s2)"
    by (metis prod_cases3)
  have "?J (trace s1) (CreateCall (DeployObj d))"
    using assms(3,4) justAfter_issues [OF getAs_notFound [OF g, of DeployObj]] by auto
  from justified_trans [OF justified_getAs [OF g, of ?J] justified_writeAs [OF w, of ?J, OF this]]
  have w1: "justified ?J s s2" by simp
  have "metaKey (d_Meta d) = key" "d_Replicas d = Some n"
    using assms(4) by (simp_all add: newDeployment_def Let_def metaKey_def emptyMeta_def)
  then have "emits (deployedIf e key n) s s2" if "werr = None"
    using w that by (intro getAs_then_emits [OF g] writeAs_emits [of asDeploy e _ d s1 d1]) (auto simp: deployed_def)
  with assms(1,2) g w w1 writeAs_failed [of asDeploy e "CreateCall (DeployObj d)" d s1 _ d1 s2] show ?thesis
    by (auto simp: attempted_def deploymentAttempt_def IsNotFound_def owner_errors_def split: option.splits sum.splits)
qed

lemma deploymentAttempt_update:
  assumes "deploymentAttempt e key wts n (d, s) = Some (err, d', s')" and "wants req wts key n na"
    and g: "getAs asDeploy e DeployK key s = (Inr old, s1)"
  shows "attempted e req wts key n d s err d' s'"
proof -
  let ?J = "waterCall e req wts" and ?new = "old\<lparr>d_Replicas := Some n\<rparr>"
  note found = getAs_found [OF g, of DeployObj, simplified]
  have g1: "justified ?J s s1" by (rule justified_getAs [OF g]) simp
  show ?thesis
  proof (cases "d_Replicas old = Some n")
    case True
    with found have "emits (deployedIf e key n) s s1" by (auto intro!: emits_single simp: deployed_def)
    with True assms(1) g g1 show ?thesis by (simp add: attempted_def deploymentAttempt_def)
  next
    case False
    obtain werr d1 s2 where w: "writeAs asDeploy e (UpdateCall (DeployObj ?new)) ?new s1 = (werr, d1, s2)"
      by (metis prod_cases3)
    have "?J (trace s1) (UpdateCall (DeployObj ?new))" unfolding waterCall.simps
      using assms(2) False justAfter_issues [OF found] by blast
    from justified_trans [OF g1 justified_writeAs [OF w, of ?J, OF this]] have "justified ?J s s2" .
    moreover have "emits (deployedIf e key n) s s2" if "werr = None"
      using w that getAs_named [OF _ g, of DeployObj]
      by (intro getAs_then_emits [OF g] writeAs_emits [of asDeploy e _ ?new s1 d1]) (auto simp: deployed_def)
    ultimately show ?thesis
      using False assms(1) g w by (auto simp: attempted_def deploymentAttempt_def split: option.splits)
  qed
qed

lemma deploymentAttempt_spec:
  assumes "deploymentAttempt e key wts n (d, s) = Some (err, d', s')" and "owner_errors (core e)"
    and "wants req wts key n na" and "d = newDeployment (core e) key wts n (Some na)"
  shows "attempted e req wts key n d s err d' s'"
proof -
  obtain x s1 where g: "getAs asDeploy e DeployK key s = (x, s1)" by fastforce
  consider "x = Inl NotFound" | y where "x = Inl y" "y \<noteq> NotFound" | old where "x = Inr old" by (cases x) auto
  then show ?thesis
  proof cases
    case 1
    with deploymentAttempt_create [OF assms] g show ?thesis by simp
  next
    case 2
    with assms(1) g justified_getAs [OF g, of "waterCall e req wts"] show ?thesis
      by (auto simp: attempted_def deploymentAttempt_def IsNotFound_def)
  next
    case 3
    with deploymentAttempt_update [OF assms(1,3)] g show ?thesis by simp
  qed
qed

lemma updateDeployment_spec:
  assumes "retries_conflicts (core e)" and "owner_errors (core e)" and "wants req wts key n na"
    and "updateDeployment e key wts n (Some na) s = Some (err, s')"
  shows "justified (waterCall e req wts) s s' \<and> (err = None \<longrightarrow> emits (deployedIf e key n) s s')"
proof -
  let ?J = "waterCall e req wts" and ?d = "newDeployment (core e) key wts n (Some na)"
  from assms(4) obtain d' where run: "RetryOnConflict (core e) (lib_DefaultBackoffSteps (core e))
      (deploymentAttempt e key wts n) (?d, s) = Some (err, d', s')"
    by (auto simp: updateDeployment_def split: option.splits)
  show ?thesis
    by (rule RetryOnConflict_justified [OF assms(1) run])
      (use deploymentAttempt_spec [OF _ assms(2,3) refl] in \<open>simp add: attempted_def\<close>)
qed

lemma cleanCoordinate_spec:
  assumes "cleanCoordinate e wts old (w_Coordinates (w_Spec wts)) c s = Some (err, s')"
    and "droppedCoordinate (codec e) wts c \<or> place c \<in> place ` set (w_Coordinates (w_Spec wts))"
  shows "justified (waterCall e req wts) s s'"
proof (cases "place c \<in> place ` set (w_Coordinates (w_Spec wts))")
  case True
  with assms(1) show ?thesis by (auto simp: cleanCoordinate_def)
next
  case False
  with assms(2) have d: "droppedCoordinate (codec e) wts c" by blast
  obtain x s1 where g: "getAs asDeploy e DeployK (droppedKey wts c) s = (x, s1)" by fastforce
  have g1: "justified (waterCall e req wts) s s1" by (rule justified_getAs [OF g]) simp
  show ?thesis
  proof (cases x)
    case (Inl y)
    with assms(1) g g1 show ?thesis by (auto simp: cleanCoordinate_def split: if_splits)
  next
    case (Inr dep)
    obtain werr y s2 where w: "clientWrite e (DeleteCall (DeployObj dep)) s1 = (werr, y, s2)" by (metis prod_cases3)
    have "waterCall e req wts (trace s1) (DeleteCall (DeployObj dep))"
      using d justAfter_issues [OF getAs_found [OF g [unfolded Inr], of DeployObj]] by auto
    from justified_trans [OF g1 justified_clientWrite [OF w, of "waterCall e req wts", OF this]]
    have "justified (waterCall e req wts) s s2" .
    with assms(1) g g1 Inr w show ?thesis by (auto simp: cleanCoordinate_def split: if_splits option.splits)
  qed
qed

lemma cleanAttempt_spec:
  assumes "cleanAttempt e wts s = Some (err, s')" shows "justified (waterCall e req wts) s s'"
proof (cases "\<exists>bs old. mapLookup (Annotations (w_Meta wts)) ''spec'' = Some bs \<and> lib_UnmarshalWaterSpec (codec e) bs = Inr old
    \<and> Difference (w_Coordinates old) (w_Coordinates (w_Spec wts)) \<noteq> []")
  case True
  then obtain bs old where old: "mapLookup (Annotations (w_Meta wts)) ''spec'' = Some bs"
    "lib_UnmarshalWaterSpec (codec e) bs = Inr old" and "forEach (cleanCoordinate e wts (w_Coordinates old)
      (w_Coordinates (w_Spec wts))) (w_Coordinates old) s = Some (err, s')"
    using assms by (auto simp: cleanAttempt_def Let_def)
  then show ?thesis
    by (elim forEach_justified [rotated], elim cleanCoordinate_spec) (auto simp: droppedCoordinate_def)
next
  case False
  with assms show ?thesis by (auto simp: cleanAttempt_def Let_def split: option.splits sum.splits if_splits)
qed

lemma updateCleanOldDeployment_spec:
  assumes "updateCleanOldDeployment e wts s = Some (err, s')"
  shows "justified (waterCall e req wts) s s'"
proof (cases "Annotations (w_Meta wts) = None")
  case True
  with assms show ?thesis by (simp add: updateCleanOldDeployment_def)
next
  case False
  with assms have "RetryOnConflict (core e) (lib_DefaultBackoffSteps (core e)) (cleanAttempt e wts) s = Some (err, s')"
    by (simp add: updateCleanOldDeployment_def)
  from RetryOnConflict_justified0 [OF this, of "waterCall e req wts"] cleanAttempt_spec show ?thesis by blast
qed

lemma deployCoordinator_spec:
  assumes "retries_conflicts (core e)" and "owner_errors (core e)"
    and "c \<in> set (makeLocalCoordinates (w_Coordinates (w_Spec wts)))"
    and "deployCoordinator e req wts c s = Some (err, s')"
  shows "justified (waterCall e req wts) s s'" and "waterSize (w_Strategy (w_Spec wts)) c = Some n \<Longrightarrow> err = None
    \<Longrightarrow> emits (deployedIf e (deployKey (key_Namespace req) (co_Name c) wts) n) s s'"
proof -
  have "wants req wts (deployKey (key_Namespace req) (co_Name c) wts) n (co_NodeAffinity c)"
    if "waterSize (w_Strategy (w_Spec wts)) c = Some n" for n
    using assms(3) that by (auto simp: wants_def)
  note upd = updateDeployment_spec [OF assms(1,2) this]
  from assms(4) upd show "justified (waterCall e req wts) s s'"
    by (auto simp: deployCoordinator_def split: option.splits)
  from assms(4) upd show "waterSize (w_Strategy (w_Spec wts)) c = Some n \<Longrightarrow> err = None
    \<Longrightarrow> emits (deployedIf e (deployKey (key_Namespace req) (co_Name c) wts) n) s s'"
    by (auto simp: deployCoordinator_def)
qed

lemma createService_spec:
  assumes "retries_conflicts (core e)" and "createService e req wts s = Some (err, s')"
  shows "justified (waterCall e req wts) s s'"
proof -
  obtain x s1 where g: "getAs asSvc e SvcK req s = (x, s1)" by fastforce
  have g1: "justified (waterCall e req wts) s s1" by (rule justified_getAs [OF g]) simp
  have "justified (waterCall e req wts) s1 s'"
    if run: "RetryOnConflict (core e) (lib_DefaultBackoffSteps (core e)) (serviceAttempt e)
      (waterService (core e) wts, s1) = Some (er, v, s')" for er v
  proof -
    have "justified (waterCall e req wts) t t' \<and> (er = None \<longrightarrow> emits (\<lambda>_. True) t t')
        \<and> (er = Some Conflict \<longrightarrow> v = waterService (core e) wts)"
      if "serviceAttempt e (waterService (core e) wts, t) = Some (er, v, t')" for t er v t'
    proof -
      from that have w: "writeAs asSvc e (CreateCall (SvcObj (waterService (core e) wts))) (waterService (core e) wts) t
          = (er, v, t')" by (simp add: serviceAttempt_def)
      with justified_writeAs [OF w, of "waterCall e req wts"] writeAs_emits [of asSvc e _ _ t v t'] writeAs_failed [of asSvc e _ _ t]
      show ?thesis by auto
    qed
    from RetryOnConflict_justified [OF assms(1) run this] show ?thesis by blast
  qed
  with assms(2) g g1 justified_trans [OF g1] show ?thesis
    by (auto simp: createService_def split: sum.splits if_splits option.splits)
qed

lemma recorded_simps [simp]:
  "w_Spec (recorded wts data) = w_Spec wts" "recorded (recorded wts data) data' = recorded wts data'"
  by (simp_all add: recorded_def mapPut_def)

text \<open>The Water with its spec recorded is in the server's hands, and this is what the server answered.\<close>

definition recordedNow :: "'w k8s \<Rightarrow> water \<Rightarrow> water \<Rightarrow> (call \<times> reply) list \<Rightarrow> bool" where
  "recordedNow e wts w h \<longleftrightarrow> (\<exists>h0 data r. lib_MarshalWaterSpec (codec e) (w_Spec wts) = Inr data \<and> (\<forall>x. r \<noteq> Fail x)
     \<and> h = h0 @ [(UpdateCall (WaterObj (recorded wts data)), r)] \<and> w = answered (recorded wts data) r)"

lemma annotateAttempt_spec:
  assumes "annotateAttempt e (w, s) = Some (err, w', s')" and "w = wts \<or> (\<exists>data. w = recorded wts data)"
  shows "justified (waterCall e req wts) s s'"
    and "if err = None then recordedNow e wts w' (trace s') else w' = wts \<or> (\<exists>data. w' = recorded wts data)"
proof -
  have w: "w_Spec w = w_Spec wts" "recorded w data = recorded wts data" for data using assms(2) by auto
  have "justified (waterCall e req wts) s s'
    \<and> (if err = None then recordedNow e wts w' (trace s') else w' = wts \<or> (\<exists>data. w' = recorded wts data))"
  proof (cases "lib_MarshalWaterSpec (codec e) (w_Spec wts)")
    case (Inl er)
    with assms w(1) show ?thesis by (auto simp: annotateAttempt_def)
  next
    case (Inr data)
    with assms(1) w have wr: "writeAs asWater e (UpdateCall (WaterObj (recorded wts data))) (recorded wts data) s = (err, w', s')"
      by (simp add: annotateAttempt_def Let_def recorded_def [symmetric])
    have "justified (waterCall e req wts) s s'" by (rule justified_writeAs [OF wr]) (use Inr in auto)
    moreover obtain r where "trace s' = trace s @ [(UpdateCall (WaterObj (recorded wts data)), r)]"
      "if err = None then (\<forall>z. r \<noteq> Fail z) \<and> w' = answered (recorded wts data) r else w' = recorded wts data"
      using writeAs_written [OF wr] by blast
    ultimately show ?thesis using Inr by (auto simp: recordedNow_def)
  qed
  then show "justified (waterCall e req wts) s s'"
    and "if err = None then recordedNow e wts w' (trace s') else w' = wts \<or> (\<exists>data. w' = recorded wts data)" by blast+
qed

lemma annotationWater_spec:
  assumes "annotationWater e wts s = Some (err, w', s')"
  shows "justified (waterCall e req wts) s s' \<and> (err = None \<longrightarrow> recordedNow e wts w' (trace s'))"
proof -
  let ?J = "waterCall e req wts"
  let ?I = "\<lambda>v. (fst v = wts \<or> (\<exists>data. fst v = recorded wts data)) \<and> justified ?J s (snd v)"
  have step: "justified ?J s (snd v') \<and> (if er = None then recordedNow e wts (fst v') (trace (snd v'))
      else fst v' = wts \<or> (\<exists>data. fst v' = recorded wts data))"
    if "?I v" "annotateAttempt e v = Some (er, v')" for v er v'
    using annotateAttempt_spec(1) [of e "fst v" "snd v" er "fst v'" "snd v'" wts req]
      annotateAttempt_spec(2) [of e "fst v" "snd v" er "fst v'" "snd v'" wts] that
      justified_trans [of ?J s "snd v" "snd v'"] by (cases v) simp
  have "case err of None \<Rightarrow> justified ?J s (snd (w', s')) \<and> recordedNow e wts (fst (w', s')) (trace (snd (w', s')))
      | Some z \<Rightarrow> ?I (w', s')"
  proof (rule RetryOnConflict_until [OF assms [unfolded annotationWater_def], where I = ?I
        and Q = "\<lambda>v. justified ?J s (snd v) \<and> recordedNow e wts (fst v) (trace (snd v))"])
    show "?I (wts, s)" by simp
  next
    fix v z v'
    assume "?I v" "annotateAttempt e v = Some (Some z, v')"
    from step [OF this] show "?I v'" by simp
  next
    fix v v'
    assume "?I v" "annotateAttempt e v = Some (None, v')"
    from step [OF this] show "justified ?J s (snd v') \<and> recordedNow e wts (fst v') (trace (snd v'))" by simp
  qed
  then show ?thesis by (auto split: option.splits)
qed

lemma tallyDeployments_spec: "tallyDeployments e w cs st s = (t, s') \<Longrightarrow> justified (waterCall e req wts) s s'"
proof (induction cs arbitrary: st s)
  case Nil
  then show ?case by simp
next
  case (Cons c cs)
  obtain x s1 where g: "getAs asDeploy e DeployK (deployKey (Namespace (w_Meta w)) (co_Name c) w) s = (x, s1)" by fastforce
  have "justified (waterCall e req wts) s s1" by (rule justified_getAs [OF g]) simp
  with Cons g justified_trans show ?case by (fastforce simp: Let_def split: sum.splits option.splits)
qed

text \<open>
  The status of a Water: when the loop over the coordinates goes through, it has read the deployment of every
  coordinate, once and in order, and its counters are, modulo 2^32, the replicas the coordinates ask for, the replicas
  the deployments have, and the number of deployments.
\<close>

lemma tally_counts:
  assumes "tallyDeployments e wts cs st0 s = (Tally st, s')"
  shows "\<exists>ds. length ds = length cs
    \<and> issues s (map2 (\<lambda>c d. (GetCall DeployK (deployKey (Namespace (w_Meta wts)) (co_Name c) wts), Got (DeployObj d))) cs ds) s'
    \<and> st = st0\<lparr>DesiredReplicas := DesiredReplicas st0 + sum_list (map (\<lambda>c. co_Replicas (Coordinate c)) cs),
         AlreadyReplicas := AlreadyReplicas st0 + sum_list (map (\<lambda>d. the (d_Replicas d)) ds),
         AlreadyDeployment := AlreadyDeployment st0 + of_nat (length cs)\<rparr>"
  using assms
proof (induction cs arbitrary: st0 s)
  case Nil
  then show ?case by simp
next
  case (Cons c cs)
  let ?key = "deployKey (Namespace (w_Meta wts)) (co_Name c) wts"
  obtain x s1 where g: "getAs asDeploy e DeployK ?key s = (x, s1)" by fastforce
  with Cons.prems obtain d n where d: "x = Inr d" "d_Replicas d = Some n"
    by (auto simp: Let_def split: sum.splits option.splits)
  with Cons.prems g have "tallyDeployments e wts cs (st0\<lparr>DesiredReplicas := DesiredReplicas st0 + co_Replicas (Coordinate c),
      AlreadyReplicas := AlreadyReplicas st0 + n, AlreadyDeployment := AlreadyDeployment st0 + 1\<rparr>) s1 = (Tally st, s')"
    by (simp add: Let_def)
  from Cons.IH [OF this] obtain ds where ds: "length ds = length cs"
    "issues s1 (map2 (\<lambda>c d. (GetCall DeployK (deployKey (Namespace (w_Meta wts)) (co_Name c) wts), Got (DeployObj d))) cs ds) s'"
    "st = st0\<lparr>DesiredReplicas := DesiredReplicas st0 + co_Replicas (Coordinate c) + sum_list (map (\<lambda>c. co_Replicas (Coordinate c)) cs),
       AlreadyReplicas := AlreadyReplicas st0 + n + sum_list (map (\<lambda>d. the (d_Replicas d)) ds),
       AlreadyDeployment := AlreadyDeployment st0 + 1 + of_nat (length cs)\<rparr>" by auto
  from issues_trans [OF getAs_found [OF g [unfolded d(1)], of DeployObj, simplified] ds(2)] ds(1,3) d(2) show ?case
    by (intro exI [of _ "d # ds"]) (simp add: add.assoc)
qed

lemma waterStatusAttempt_spec:
  assumes "waterStatusAttempt e st (w, s) = Some (err, w', s')" and "w_Status w = st \<or> waterStatusCall e wts (trace s) (w\<lparr>w_Status := st\<rparr>)"
  shows "justified (waterCall e req wts) s s'" and "err \<noteq> None \<Longrightarrow> w_Status w' = st"
proof -
  let ?w = "w\<lparr>w_Status := st\<rparr>"
  obtain werr y s1 where wr: "writeAs asWater e (StatusUpdateCall (WaterObj ?w)) ?w s = (werr, y, s1)" by (metis prod_cases3)
  have j: "justified (waterCall e req wts) s s1" if "w_Status w \<noteq> st"
    by (rule justified_writeAs [OF wr]) (use assms(2) that in simp)
  with assms(1) wr show "justified (waterCall e req wts) s s'"
    by (auto simp: waterStatusAttempt_def split: if_splits option.splits)
  from assms(1) wr show "err \<noteq> None \<Longrightarrow> w_Status w' = st"
    by (auto simp: waterStatusAttempt_def split: if_splits option.splits dest!: writeAs_failed)
qed

lemma updateWater_spec:
  assumes "updateWater e w s = Some (err, s')" and "recordedNow e wts w (trace s)"
  shows "justified (waterCall e req wts) s s'"
proof -
  let ?J = "waterCall e req wts" and ?cs = "makeLocalCoordinates (w_Coordinates (w_Spec w))"
  obtain t s1 where t: "tallyDeployments e w ?cs \<lparr>DesiredReplicas = 0, AlreadyReplicas = 0,
      DesiredDeployment = word_of_int (int (length ?cs)), AlreadyDeployment = 0\<rparr> s = (t, s1)" by fastforce
  note t1 = tallyDeployments_spec [OF t, of req wts]
  show ?thesis
  proof (cases t)
    case (Tally st)
    with assms(1) t obtain w' where run: "RetryOnConflict (core e) (lib_DefaultBackoffSteps (core e)) (waterStatusAttempt e st) (w, s1)
        = Some (err, w', s')" by (auto simp: updateWater_def Let_def split: option.splits)
    from tally_counts [OF t [unfolded Tally]] obtain ds where ds: "length ds = length ?cs"
      "issues s (deploymentReads w ?cs ds) s1" "st = tallied ?cs ds"
      by (auto simp: deploymentReads_def tallied_def)
    from ds(2) have "trace s1 = trace s @ deploymentReads w ?cs ds" by (simp add: issues_def)
    moreover from assms(2) obtain h0 data r where "lib_MarshalWaterSpec (codec e) (w_Spec wts) = Inr data" "\<forall>x. r \<noteq> Fail x"
      "trace s = h0 @ [(UpdateCall (WaterObj (recorded wts data)), r)]" "w = answered (recorded wts data) r"
      by (auto simp: recordedNow_def)
    ultimately have first: "waterStatusCall e wts (trace s1) (w\<lparr>w_Status := st\<rparr>)"
      using ds(1,3) unfolding waterStatusCall_def
      by (intro exI [of _ h0] exI [of _ data] exI [of _ r] exI [of _ w] exI [of _ ?cs] exI [of _ ds]) simp
    let ?I = "\<lambda>v. (w_Status (fst v) = st \<or> waterStatusCall e wts (trace (snd v)) ((fst v)\<lparr>w_Status := st\<rparr>)) \<and> justified ?J s1 (snd v)"
    have step: "justified ?J s1 (snd v') \<and> (er \<noteq> None \<longrightarrow> w_Status (fst v') = st)"
      if "?I v" "waterStatusAttempt e st v = Some (er, v')" for v er v'
      using waterStatusAttempt_spec(1) [of e st "fst v" "snd v" er "fst v'" "snd v'" wts req]
        waterStatusAttempt_spec(2) [of e st "fst v" "snd v" er "fst v'" "snd v'" wts] that
        justified_trans [of ?J s1 "snd v" "snd v'"] by (cases v) simp
    have "case err of None \<Rightarrow> justified ?J s1 (snd (w', s')) | Some z \<Rightarrow> ?I (w', s')"
    proof (rule RetryOnConflict_until [OF run, where I = ?I and Q = "\<lambda>v. justified ?J s1 (snd v)"])
      show "?I (w, s1)" using first by simp
    next
      fix v z v'
      assume "?I v" "waterStatusAttempt e st v = Some (Some z, v')"
      from step [OF this] show "?I v'" by simp
    next
      fix v v'
      assume "?I v" "waterStatusAttempt e st v = Some (None, v')"
      from step [OF this] show "justified ?J s1 (snd v')" by simp
    qed
    then have "justified ?J s1 s'" by (auto split: option.splits)
    with justified_trans [OF t1] show ?thesis by blast
  qed (use assms(1) t t1 in \<open>auto simp: updateWater_def Let_def\<close>)
qed

text \<open>One reconciliation: its calls, and what a success means.\<close>

definition allDeployed :: "'w k8s \<Rightarrow> objectKey \<Rightarrow> water \<Rightarrow> 'w sys \<Rightarrow> 'w sys \<Rightarrow> bool" where
  "allDeployed e req wts s s' \<longleftrightarrow> (\<forall>key n na. wants req wts key n na \<longrightarrow> emits (deployedIf e key n) s s')"

lemma allDeployed_extend:
  "justified J a b \<Longrightarrow> allDeployed e req wts b c \<Longrightarrow> justified K c d \<Longrightarrow> allDeployed e req wts a d"
  unfolding allDeployed_def by (blast intro: justified_then_emits emits_then_justified)

lemma deployLoop_spec:
  assumes "retries_conflicts (core e)" and "owner_errors (core e)"
    and "forEach (deployCoordinator e req wts) (makeLocalCoordinates (w_Coordinates (w_Spec wts))) s = Some (err, s')"
  shows "justified (waterCall e req wts) s s'" and "err = None \<Longrightarrow> allDeployed e req wts s s'"
proof -
  let ?cs = "makeLocalCoordinates (w_Coordinates (w_Spec wts))" and ?strategy = "w_Strategy (w_Spec wts)"
  show "justified (waterCall e req wts) s s'"
    by (rule forEach_justified [OF deployCoordinator_spec(1) [OF assms(1,2)] assms(3)])
  assume "err = None"
  with assms(3) have run: "forEach (deployCoordinator e req wts) ?cs s = Some (None, s')" by simp
  have "\<forall>c \<in> set ?cs. waterSize ?strategy c \<noteq> None \<longrightarrow>
      emits (deployedIf e (deployKey (key_Namespace req) (co_Name c) wts) (the (waterSize ?strategy c))) s s'"
    by (rule forEach_all [OF run deployCoordinator_spec(1) [OF assms(1,2)] deployCoordinator_spec(2) [OF assms(1,2)]]) auto
  then show "allDeployed e req wts s s'" by (force simp: allDeployed_def wants_def)
qed

lemma ReconcileWater_spec:
  assumes "retries_conflicts (core e)" and "owner_errors (core e)"
    and g: "getAs asWater e WaterK req s = (Inr wts, s1)" and "ReconcileWater e req s = Some (err, s')"
  shows "justified (waterCall e req wts) s1 s' \<and> (err = None \<longrightarrow> allDeployed e req wts s1 s')"
proof -
  let ?J = "waterCall e req wts" and ?cs = "makeLocalCoordinates (w_Coordinates (w_Spec wts))"
  from assms(4) g obtain e2 s2 where c: "updateCleanOldDeployment e wts s1 = Some (e2, s2)"
    by (auto simp: ReconcileWater_def split: option.splits)
  note c1 = updateCleanOldDeployment_spec [OF c, of req]
  show ?thesis
  proof (cases e2)
    case (Some er)
    with assms(4) g c c1 show ?thesis by (auto simp: ReconcileWater_def)
  next
    case None
    with assms(4) g c obtain e3 s3 where d: "forEach (deployCoordinator e req wts) ?cs s2 = Some (e3, s3)"
      by (auto simp: ReconcileWater_def split: option.splits)
    note d1 = deployLoop_spec [OF assms(1,2) d]
    show ?thesis
    proof (cases e3)
      case (Some er)
      with assms(4) g c None d justified_trans [OF c1 d1(1)] show ?thesis by (auto simp: ReconcileWater_def)
    next
      case n3: None
      with assms(4) g c None d obtain e4 s4 where v: "createService e req wts s3 = Some (e4, s4)"
        by (auto simp: ReconcileWater_def split: option.splits)
      note v1 = createService_spec [OF assms(1) v]
      have "justified ?J s4 s'" if "e4 = None"
      proof -
        from assms(4) g c None d n3 v that obtain e5 w5 s5 where a: "annotationWater e wts s4 = Some (e5, w5, s5)"
          by (auto simp: ReconcileWater_def split: option.splits)
        with assms(4) g c None d n3 v that annotationWater_spec [OF a, of req] justified_trans [of ?J s4 s5 s']
          updateWater_spec [of e w5 s5 err s' wts req] show ?thesis
          by (cases e5) (auto simp: ReconcileWater_def)
      qed
      moreover from assms(4) g c None d n3 v have "e4 \<noteq> None \<Longrightarrow> s' = s4" by (auto simp: ReconcileWater_def)
      ultimately have "justified ?J s4 s'" by (cases e4) auto
      from justified_trans [OF v1 this] have j: "justified ?J s3 s'" .
      have "justified ?J s1 s'" by (rule justified_trans [OF c1 justified_trans [OF d1(1) j]])
      with allDeployed_extend [OF c1 d1(2) j] n3 show ?thesis by blast
    qed
  qed
qed

section \<open>Properties\<close>

text \<open>
  C29. Whatever the API server answers, a reconciliation of a Water writes only what the Water asks for: it creates a
  deployment only under the name, with the size and with the affinity of one of its coordinates, and only right after
  a read that did not find it; it changes nothing of a deployment but its replicas, and only when they differ; it
  deletes only deployments of coordinates that the recorded spec has and the spec does not; it creates only the
  Water's service; and it updates only the Water itself: first the Water that was read, with nothing changed but its spec
  in the annotation, and after that was accepted and the deployment of each of its coordinates was read, the Water
  the server answered, with nothing changed but its status, which is the count of the deployments read.
\<close>

theorem water_writes_justified:
  assumes "retries_conflicts (core e)" and "owner_errors (core e)"
    and "getAs asWater e WaterK req s = (Inr wts, s1)" and "ReconcileWater e req s = Some (err, s')"
  shows "justified (waterCall e req wts) s1 s'"
  using ReconcileWater_spec [OF assms] by simp

definition sampleCoordinate :: "string \<Rightarrow> string \<Rightarrow> string \<Rightarrow> int32 \<Rightarrow> coordinate" where
  "sampleCoordinate z r h n = \<lparr>Zone = z, Rack = r, Host = h, co_Replicas = n\<rparr>"

definition sampleWater :: "strategyType \<Rightarrow> coordinates \<Rightarrow> water" where
  "sampleWater strategy cs = \<lparr>w_Meta = emptyMeta\<lparr>Name := ''web'', Namespace := ''ns'', Annotations := Some [''spec'' \<mapsto> ''old'']\<rparr>,
     w_Spec = \<lparr>w_Template = Template (set_Spec (sampleSet 1 0 [])), w_Strategy = strategy, w_Coordinates = cs,
       w_Service = \<lparr>Ports = [], svc_Selector = None, svc_rest = []\<rparr>\<rparr>,
     w_Status = \<lparr>DesiredReplicas = 0, AlreadyReplicas = 0, DesiredDeployment = 0, AlreadyDeployment = 0\<rparr>\<rparr>"

definition sampleDeployment :: "string \<Rightarrow> int32 \<Rightarrow> deployment" where
  "sampleDeployment name n = \<lparr>d_Meta = emptyMeta\<lparr>Name := name, Namespace := ''ns''\<rparr>, d_Replicas = Some n, d_Selector = None,
     d_Template = Template (set_Spec (sampleSet 1 0 [])), d_rest = []\<rparr>"

text \<open>A cluster with this Water, whose recorded spec has the coordinates \<open>old\<close>, and with these deployments.\<close>

definition waterDb :: "water \<Rightarrow> deployment list \<Rightarrow> kind \<Rightarrow> objectKey \<Rightarrow> obj option" where
  "waterDb wts ds k key =
     (if k = WaterK \<and> key = metaKey (w_Meta wts) then Some (WaterObj wts)
      else if k = DeployK then map_option DeployObj (find (\<lambda>d. metaKey (d_Meta d) = key) ds) else None)"

definition waterEnv :: "water \<Rightarrow> coordinates \<Rightarrow> deployment list \<Rightarrow> nat k8s" where
  "waterEnv wts old ds = (serverEnv (serving (waterDb wts ds) nothing))
     \<lparr>codec := (sampleCodec (sampleSet 1 0 []))\<lparr>lib_UnmarshalWaterSpec := (\<lambda>t. Inr ((w_Spec wts)\<lparr>w_Coordinates := old\<rparr>))\<rparr>\<rparr>"

lemma waterEnv_simps [simp]:
  "core (waterEnv wts old ds) = sampleCore" "api (waterEnv wts old ds) = serving (waterDb wts ds) nothing"
  by (simp_all add: waterEnv_def)

lemma waterEnv_named: "gets_named (waterEnv wts old ds)"
  by (auto simp: gets_named_def serving_def waterDb_def find_Some_iff split: option.splits if_splits)

lemma waterEnv_get:
  "\<exists>s1. getAs asWater (waterEnv wts old ds) WaterK (metaKey (w_Meta wts)) s = (Inr wts, s1)"
  by (simp add: getAs_def clientGet_def request_def serving_def waterDb_def)

abbreviation "zoneA \<equiv> sampleCoordinate ''zone-a'' ''r1'' [] 2"
abbreviation "zoneB \<equiv> sampleCoordinate ''zone-b'' ''r1'' [] 3"
abbreviation "hostB \<equiv> sampleCoordinate ''zone-b'' ''r1'' ''h7'' 3"
abbreviation "sampleRequest \<equiv> \<lparr>key_Namespace = ''ns'', key_Name = ''web''\<rparr>"
abbreviation "releaseWater \<equiv> sampleWater Release [zoneA, hostB]"
abbreviation "releaseEnv \<equiv> waterEnv releaseWater [zoneB] [sampleDeployment ''web-zone-b-r1'' 3]"

lemma sampleWater_key [simp]: "metaKey (w_Meta (sampleWater strategy cs)) = sampleRequest"
  by (simp add: sampleWater_def metaKey_def)

definition waterRun :: "nat k8s \<Rightarrow> error option option" where
  "waterRun e = map_option fst (ReconcileWater e sampleRequest sampleSys)"

lemma sample_water: "waterRun releaseEnv = Some None"
  by code_simp

theorem water_writes_justified_witness:
  "\<exists>s1 s'. ReconcileWater releaseEnv sampleRequest sampleSys = Some (None, s') \<and> justified (waterCall releaseEnv sampleRequest releaseWater) s1 s'"
proof -
  from sample_water obtain s' where run: "ReconcileWater releaseEnv sampleRequest sampleSys = Some (None, s')"
    by (auto simp: waterRun_def)
  obtain s1 where g: "getAs asWater releaseEnv WaterK sampleRequest sampleSys = (Inr releaseWater, s1)"
    using waterEnv_get [of releaseWater "[zoneB]" _ sampleSys] by auto
  from water_writes_justified [OF _ _ g run] run show ?thesis by auto
qed

text \<open>
  C30. When a reconciliation succeeds, every deployment the Water asks for under its strategy is there with the size it
  asks for: it was read under its name with that size, or a creation or an update of the deployment of that name with
  that size was accepted.
\<close>

theorem water_all_deployed:
  assumes "retries_conflicts (core e)" and "owner_errors (core e)"
    and "getAs asWater e WaterK req s = (Inr wts, s1)" and "ReconcileWater e req s = Some (None, s')"
    and "gets_named e" and "wants req wts key n na"
  shows "emits (deployed key n) s1 s'"
  using ReconcileWater_spec [OF assms(1-4)] assms(5,6) unfolding allDeployed_def by (simp, blast)

theorem water_all_deployed_witness:
  "\<exists>s1 s'. ReconcileWater releaseEnv sampleRequest sampleSys = Some (None, s')
    \<and> emits (deployed \<lparr>key_Namespace = ''ns'', key_Name = ''web-zone-a-r1''\<rparr> 2) s1 s'"
proof -
  from sample_water obtain s' where run: "ReconcileWater releaseEnv sampleRequest sampleSys = Some (None, s')"
    by (auto simp: waterRun_def)
  obtain s1 where g: "getAs asWater releaseEnv WaterK sampleRequest sampleSys = (Inr releaseWater, s1)"
    using waterEnv_get [of releaseWater "[zoneB]" _ sampleSys] by auto
  have "deployKey ''ns'' (coordinateName zoneA) releaseWater = \<lparr>key_Namespace = ''ns'', key_Name = ''web-zone-a-r1''\<rparr>" by code_simp
  moreover have "newLocalCoordinate 0 zoneA \<in> set (makeLocalCoordinates (w_Coordinates (w_Spec releaseWater)))"
    by (simp add: sampleWater_def makeLocalCoordinates_def)
  ultimately have "wants sampleRequest releaseWater \<lparr>key_Namespace = ''ns'', key_Name = ''web-zone-a-r1''\<rparr> 2
      (organizationNodeAffinity zoneA)"
    unfolding wants_def by (intro bexI [of _ "newLocalCoordinate 0 zoneA"])
      (simp_all add: newLocalCoordinate_def waterSize_def sampleWater_def sampleCoordinate_def strategy_defs)
  from water_all_deployed [OF _ _ g run waterEnv_named this] run show ?thesis by auto
qed

text \<open>The deployment of a key is gone: a read did not find it, or its deletion was accepted.\<close>

definition goneNow :: "objectKey \<Rightarrow> call \<times> reply \<Rightarrow> bool" where
  "goneNow key en \<longleftrightarrow> en = (GetCall DeployK key, Fail NotFound)
     \<or> (\<exists>d r. en = (DeleteCall (DeployObj d), r) \<and> (\<forall>x. r \<noteq> Fail x) \<and> metaKey (d_Meta d) = key)"

lemma cleanCoordinate_gone:
  assumes "gets_named e" and "cleanCoordinate e wts old (w_Coordinates (w_Spec wts)) c s = Some (None, s')"
    and "c \<in> set old" and "place c \<notin> place ` set (w_Coordinates (w_Spec wts))"
  shows "emits (goneNow (droppedKey wts c)) s s'"
proof -
  obtain x s1 where g: "getAs asDeploy e DeployK (droppedKey wts c) s = (x, s1)" by fastforce
  show ?thesis
  proof (cases x)
    case (Inl y)
    with assms(2-4) g have "y = NotFound" "s' = s1" by (auto simp: cleanCoordinate_def IsNotFound_def split: if_splits)
    with g Inl getAs_notFound [of asDeploy e DeployK _ s s1 DeployObj] show ?thesis
      by (auto intro!: emits_single simp: goneNow_def)
  next
    case (Inr d)
    obtain werr y s2 where w: "clientWrite e (DeleteCall (DeployObj d)) s1 = (werr, y, s2)" by (metis prod_cases3)
    with assms(2-4) g Inr have "werr = None" "s' = s2"
      by (auto simp: cleanCoordinate_def split: if_splits option.splits)
    with w getAs_named [OF assms(1) g [unfolded Inr], of DeployObj] show ?thesis
      by (intro getAs_then_emits [OF g] clientWrite_emits [of e _ s1 y]) (auto simp: goneNow_def)
  qed
qed

lemma cleanAttempt_gone:
  assumes "gets_named e" and "droppedCoordinate (codec e) wts c" and "cleanAttempt e wts s = Some (None, s')"
  shows "emits (goneNow (droppedKey wts c)) s s'"
proof -
  from assms(2) obtain bs old where old: "mapLookup (Annotations (w_Meta wts)) ''spec'' = Some bs"
    "lib_UnmarshalWaterSpec (codec e) bs = Inr old" "c \<in> set (w_Coordinates old)"
    "place c \<notin> place ` set (w_Coordinates (w_Spec wts))" by (auto simp: droppedCoordinate_def)
  then have "c \<in> set (Difference (w_Coordinates old) (w_Coordinates (w_Spec wts)))" by (simp add: Difference_filter)
  with assms(3) old have run: "forEach (cleanCoordinate e wts (w_Coordinates old) (w_Coordinates (w_Spec wts)))
      (w_Coordinates old) s = Some (None, s')" by (auto simp: cleanAttempt_def Let_def split: if_splits)
  have step: "justified (waterCall e \<lparr>key_Namespace = [], key_Name = []\<rparr> wts) a b"
    if "d \<in> set (w_Coordinates old)" "cleanCoordinate e wts (w_Coordinates old) (w_Coordinates (w_Spec wts)) d a = Some (er, b)"
    for d a er b
    by (rule cleanCoordinate_spec [OF that(2)]) (use old that(1) in \<open>auto simp: droppedCoordinate_def\<close>)
  have "\<forall>d \<in> set (w_Coordinates old). place d \<notin> place ` set (w_Coordinates (w_Spec wts))
      \<longrightarrow> emits (goneNow (droppedKey wts d)) s s'"
    by (rule forEach_all [OF run step]) (use cleanCoordinate_gone [OF assms(1)] in auto)
  with old(3,4) show ?thesis by blast
qed

lemma updateCleanOldDeployment_gone:
  assumes "gets_named e" and "droppedCoordinate (codec e) wts c" and "updateCleanOldDeployment e wts s = Some (None, s')"
  shows "emits (goneNow (droppedKey wts c)) s s'"
proof -
  from assms(2) have "Annotations (w_Meta wts) \<noteq> None" by (auto simp: droppedCoordinate_def mapLookup_def)
  with assms(3) have run: "RetryOnConflict (core e) (lib_DefaultBackoffSteps (core e)) (cleanAttempt e wts) s = Some (None, s')"
    by (simp add: updateCleanOldDeployment_def)
  from RetryOnConflict_justified0 [OF run, of "waterCall e \<lparr>key_Namespace = [], key_Name = []\<rparr> wts"] cleanAttempt_spec
  obtain t where "justified (waterCall e \<lparr>key_Namespace = [], key_Name = []\<rparr> wts) s t"
    "cleanAttempt e wts t = Some (None, s')" by blast
  with cleanAttempt_gone [OF assms(1,2)] justified_then_emits show ?thesis by blast
qed

text \<open>
  C31. Cleaning up removes what the spec no longer has: when it succeeds, the deployment of every coordinate of the
  recorded spec whose zone, rack and host the new spec does not name is gone.
\<close>

theorem dropped_deployments_gone:
  assumes "gets_named e" and "droppedCoordinate (codec e) wts c" and "updateCleanOldDeployment e wts s = Some (None, s')"
  shows "emits (goneNow (droppedKey wts c)) s s'"
  using assms by (rule updateCleanOldDeployment_gone)

lemma sample_clean: "map_option fst (updateCleanOldDeployment releaseEnv releaseWater sampleSys) = Some None"
  by code_simp

lemma sample_dropped: "droppedCoordinate (codec releaseEnv) releaseWater zoneB"
  by (simp add: droppedCoordinate_def waterEnv_def sampleWater_def mapLookup_def place_def sampleCoordinate_def)

theorem dropped_deployments_gone_witness:
  "\<exists>s'. updateCleanOldDeployment releaseEnv releaseWater sampleSys = Some (None, s')
    \<and> emits (goneNow (droppedKey releaseWater zoneB)) sampleSys s'"
proof -
  from sample_clean obtain s' where run: "updateCleanOldDeployment releaseEnv releaseWater sampleSys = Some (None, s')" by auto
  from dropped_deployments_gone [OF waterEnv_named sample_dropped run] run show ?thesis by blast
qed

text \<open>
  The name of a deployment does not have the coordinate's host, but the comparison of coordinates does: when only
  the host of a coordinate changes, cleaning up deletes the very deployment that the new coordinate is deployed as.
\<close>

theorem host_change_deletes_kept:
  assumes "gets_named e" and "droppedCoordinate (codec e) wts c" and "updateCleanOldDeployment e wts s = Some (None, s')"
    and "d \<in> set (w_Coordinates (w_Spec wts))" and "Zone d = Zone c" and "Rack d = Rack c"
  shows "emits (goneNow (droppedKey wts d)) s s' \<and> Host d \<noteq> Host c"
proof -
  have "droppedKey wts d = droppedKey wts c" using assms(5,6) by (simp add: coordinateName_def)
  moreover have "place d \<noteq> place c" using assms(2,4) by (auto simp: droppedCoordinate_def image_iff)
  then have "Host d \<noteq> Host c" using assms(5,6) by (simp add: place_def)
  ultimately show ?thesis using updateCleanOldDeployment_gone [OF assms(1-3)] by simp
qed

theorem host_change_deletes_kept_witness:
  "\<exists>s'. updateCleanOldDeployment releaseEnv releaseWater sampleSys = Some (None, s')
    \<and> emits (goneNow (droppedKey releaseWater hostB)) sampleSys s'"
proof -
  from sample_clean obtain s' where run: "updateCleanOldDeployment releaseEnv releaseWater sampleSys = Some (None, s')" by auto
  have "hostB \<in> set (w_Coordinates (w_Spec releaseWater))" "Zone hostB = Zone zoneB" "Rack hostB = Rack zoneB"
    by (simp_all add: sampleWater_def sampleCoordinate_def)
  from host_change_deletes_kept [OF waterEnv_named sample_dropped run this] run show ?thesis by blast
qed

lemma sample_tally: "fst (tallyDeployments (waterEnv releaseWater [] [sampleDeployment ''web-zone-a-r1'' 2]) releaseWater
    [newLocalCoordinate 0 zoneA] (w_Status releaseWater) sampleSys)
  = Tally \<lparr>DesiredReplicas = 2, AlreadyReplicas = 2, DesiredDeployment = 0, AlreadyDeployment = 1\<rparr>"
  by code_simp

theorem tally_counts_witness:
  "\<exists>d s'. issues sampleSys [(GetCall DeployK (deployKey ''ns'' (coordinateName zoneA) releaseWater), Got (DeployObj d))] s'
     \<and> the (d_Replicas d) = 2"
proof -
  obtain s' where run: "tallyDeployments (waterEnv releaseWater [] [sampleDeployment ''web-zone-a-r1'' 2]) releaseWater
    [newLocalCoordinate 0 zoneA] (w_Status releaseWater) sampleSys
      = (Tally \<lparr>DesiredReplicas = 2, AlreadyReplicas = 2, DesiredDeployment = 0, AlreadyDeployment = 1\<rparr>, s')"
    using sample_tally by (metis fst_conv surj_pair)
  have n: "Namespace (w_Meta releaseWater) = ''ns''" "co_Name (newLocalCoordinate 0 zoneA) = coordinateName zoneA"
    "AlreadyReplicas (w_Status releaseWater) = 0" by (simp_all add: sampleWater_def newLocalCoordinate_def)
  from tally_counts [OF run] obtain ds where ds: "length ds = length [newLocalCoordinate 0 zoneA]"
    "issues sampleSys (map2 (\<lambda>c d. (GetCall DeployK (deployKey (Namespace (w_Meta releaseWater)) (co_Name c) releaseWater),
       Got (DeployObj d))) [newLocalCoordinate 0 zoneA] ds) s'"
    and eq: "\<lparr>DesiredReplicas = 2, AlreadyReplicas = 2, DesiredDeployment = 0, AlreadyDeployment = 1\<rparr> = (w_Status releaseWater)
      \<lparr>DesiredReplicas := DesiredReplicas (w_Status releaseWater) + sum_list (map (\<lambda>c. co_Replicas (Coordinate c)) [newLocalCoordinate 0 zoneA]),
       AlreadyReplicas := AlreadyReplicas (w_Status releaseWater) + sum_list (map (\<lambda>d. the (d_Replicas d)) ds),
       AlreadyDeployment := AlreadyDeployment (w_Status releaseWater) + of_nat (length [newLocalCoordinate 0 zoneA])\<rparr>" by blast
  from arg_cong [OF eq, of AlreadyReplicas] have "sum_list (map (\<lambda>d. the (d_Replicas d)) ds) = 2" by (simp add: n)
  moreover from ds(1) obtain d where "ds = [d]" by (auto simp: length_Suc_conv)
  ultimately show ?thesis using ds(2) by (intro exI [of _ d] exI [of _ s']) (simp add: n)
qed

end
