(* ===== verification/Injector.thy ===== *)
theory Injector
  imports Cluster
begin

text \<open>
  \<^verbatim>\<open>controllers/injector_controller.go\<close>: the reconciler of an Injector. It makes the Water or Stone it names its
  owner, and updates every selected pod once ("bounces" it), with an annotation that records that it did.
\<close>

section \<open>Operations\<close>

definition annotationPrefix :: string where "annotationPrefix = ''injector.admission.nuwav1.io''"

text \<open>The result is an error, or the delay in seconds after which to come again, if any.\<close>

type_synonym ctrlResult = "error + int option"

definition bouncedKey :: "injector \<Rightarrow> string" where
  "bouncedKey inst = annotationPrefix @ ''/bounced-'' @ Name (inj_Meta inst)"

definition adoptBy ::
  "coreLib \<Rightarrow> injector \<Rightarrow> string \<Rightarrow> objectMeta \<Rightarrow> error + injector" where
  \<comment> \<open>the body of \<open>if len(OwnerReferences) == 0\<close>, for an owner of the given kind\<close>
  "adoptBy L inst kindName owner =
     (if OwnerReferences (inj_Meta inst) \<noteq> [] then Inr inst
      else if Namespace (inj_Meta inst) \<noteq> Namespace owner
      then Inl (Errorf ''cross-namespace owner references are disallowed'')
      else
        let inst = inst\<lparr>inj_Meta := (inj_Meta inst)\<lparr>OwnerReferences :=
              OwnerReferences (inj_Meta inst) @ ownerReference_of L owner kindName\<rparr>\<rparr>
        in (case lib_SetControllerReference L (inj_Meta inst) owner of
              Inl err \<Rightarrow> Inl err
            | Inr _ \<Rightarrow> Inr inst))"

datatype adoption = Adopted injector | Finish ctrlResult

definition adoptStep ::
  "coreLib \<Rightarrow> injector \<Rightarrow> string \<Rightarrow> error + objectMeta \<Rightarrow> adoption" where
  \<comment> \<open>after the read of the owner: an error other than NotFound goes on with the zero object\<close>
  "adoptStep L inst kindName got =
     (case got of
        Inl err \<Rightarrow>
          if IsNotFound (Some err) then Finish (Inr (Some 5))
          else (case adoptBy L inst kindName emptyMeta of Inl err \<Rightarrow> Finish (Inl err) | Inr inst \<Rightarrow> Adopted inst)
      | Inr owner \<Rightarrow> (case adoptBy L inst kindName owner of Inl err \<Rightarrow> Finish (Inl err) | Inr inst \<Rightarrow> Adopted inst))"

definition adoptInjector :: "'w k8s \<Rightarrow> injector \<Rightarrow> 'w sys \<Rightarrow> adoption \<times> 'w sys" where
  \<comment> \<open>the \<open>switch\<close> on the resource type\<close>
  "adoptInjector e inst s =
     (let key = \<lparr>key_Namespace = inj_NameSpace (inj_Spec inst), key_Name = inj_Name (inj_Spec inst)\<rparr>
      in if ResourceType (inj_Spec inst) = ''Water'' then
           (case getAs asWater e WaterK key s of
              (got, s) \<Rightarrow> (adoptStep (core e) inst ''Water'' (map_sum id w_Meta got), s))
         else if ResourceType (inj_Spec inst) = ''Stone'' then
           (case getAs asStone e StoneK key s of
              (got, s) \<Rightarrow> (adoptStep (core e) inst ''Stone'' (map_sum id sn_Meta got), s))
         else (Adopted inst, s))"

fun podItems :: "obj list \<Rightarrow> pod list" where
  "podItems [] = []"
| "podItems (PodObj p # ys) = p # podItems ys"
| "podItems (_ # ys) = podItems ys"

definition bouncePod :: "'w k8s \<Rightarrow> injector \<Rightarrow> pod \<Rightarrow> 'w sys \<Rightarrow> (error option \<times> 'w sys) option" where
  \<comment> \<open>the body of the loop over the pods\<close>
  "bouncePod e inst p s =
     (case mapLookup (Annotations (p_Meta p)) (bouncedKey inst) of
        Some _ \<Rightarrow> Some (None, s)
      | None \<Rightarrow>
          let p = p\<lparr>p_Meta := (p_Meta p)\<lparr>Annotations :=
                mapPut (Annotations (p_Meta p)) (bouncedKey inst) (ResourceVersion (inj_Meta inst))\<rparr>\<rparr>
          in (case writeAs asPod e (UpdateCall (PodObj p)) p s of (err, _, s) \<Rightarrow> Some (err, s)))"

definition ReconcileInjector :: "'w k8s \<Rightarrow> objectKey \<Rightarrow> 'w sys \<Rightarrow> (ctrlResult \<times> 'w sys) option" where
  "ReconcileInjector e req s =
     (case getAs asInj e InjK req s of
        (Inl err, s) \<Rightarrow> Some (if IsNotFound (Some err) then Inr None else Inl err, s)
      | (Inr inst, s) \<Rightarrow>
          if inj_Name (inj_Spec inst) = [] then Some (Inl (Errorf ''required name is not defined''), s)
          else
            (case adoptInjector e inst s of
               (Finish res, s) \<Rightarrow> Some (res, s)
             | (Adopted inst, s) \<Rightarrow>
                 (case lib_SelectorError (core e) (Some (inj_Selector (inj_Spec inst))) of
                    Some err \<Rightarrow> Some (Inl err, s)
                  | None \<Rightarrow>
                      (case clientList e PodK (Namespace (inj_Meta inst)) (Some (Some (inj_Selector (inj_Spec inst)))) s of
                         (Inl err, s) \<Rightarrow> Some (Inl err, s)
                       | (Inr items, s) \<Rightarrow>
                           (case forEach (bouncePod e inst) (podItems items) s of
                              None \<Rightarrow> None
                            | Some (Some err, s) \<Rightarrow> Some (Inl err, s)
                            | Some (None, s) \<Rightarrow>
                                (case writeAs asInj e (UpdateCall (InjObj inst)) inst s of
                                   (Some err, _, s) \<Rightarrow> Some (Inl err, s)
                                 | (None, _, s) \<Rightarrow> Some (Inr None, s)))))))"

section \<open>Facts\<close>

text \<open>
  The calls of a reconciliation. A pod that is written was listed without the annotation, and is sent as it was
  listed but for that annotation; the Injector is written with an owner of its own namespace, or the owners it had.
\<close>

definition bounced :: "injector \<Rightarrow> pod \<Rightarrow> pod" where
  "bounced inst p = p\<lparr>p_Meta := (p_Meta p)\<lparr>Annotations :=
     mapPut (Annotations (p_Meta p)) (bouncedKey inst) (ResourceVersion (inj_Meta inst))\<rparr>\<rparr>"

definition adoptedFrom :: "coreLib \<Rightarrow> injector \<Rightarrow> injector \<Rightarrow> bool" where
  "adoptedFrom L inst inst' \<longleftrightarrow> inst' = inst \<or> OwnerReferences (inj_Meta inst) = [] \<and>
     (\<exists>owner kindName. Namespace owner = Namespace (inj_Meta inst)
        \<and> inst' = inst\<lparr>inj_Meta := (inj_Meta inst)\<lparr>OwnerReferences := ownerReference_of L owner kindName\<rparr>\<rparr>)"

fun injectorCall :: "'w k8s \<Rightarrow> injector \<Rightarrow> (call \<times> reply) list \<Rightarrow> call \<Rightarrow> bool" where
  "injectorCall e inst h (GetCall k key) \<longleftrightarrow> True"
| "injectorCall e inst h (ListCall k ns sel) \<longleftrightarrow>
     k = PodK \<and> ns = Namespace (inj_Meta inst) \<and> sel = Some (Some (inj_Selector (inj_Spec inst)))"
| "injectorCall e inst h (UpdateCall (PodObj q)) \<longleftrightarrow>
     (\<exists>p items. q = bounced inst p \<and> mapLookup (Annotations (p_Meta p)) (bouncedKey inst) = None \<and> PodObj p \<in> set items
        \<and> (ListCall PodK (Namespace (inj_Meta inst)) (Some (Some (inj_Selector (inj_Spec inst)))), Listed items) \<in> set h)"
| "injectorCall e inst h (UpdateCall (InjObj x)) \<longleftrightarrow> adoptedFrom (core e) inst x"
| "injectorCall e inst h _ \<longleftrightarrow> False"

lemma adoptInjector_spec:
  assumes "adoptInjector e inst s = (a, s')"
  shows "justified (injectorCall e inst) s s'" and "a = Adopted inst' \<Longrightarrow> adoptedFrom (core e) inst inst'"
  using assms
  by (auto simp: adoptInjector_def adoptStep_def adoptBy_def adoptedFrom_def Let_def
      split: prod.splits if_splits sum.splits intro: justified_getAs [where J = "injectorCall e inst"])

lemma adoptedFrom_simps:
  "adoptedFrom L inst inst' \<Longrightarrow> inj_Spec inst' = inj_Spec inst \<and> Namespace (inj_Meta inst') = Namespace (inj_Meta inst)
     \<and> ResourceVersion (inj_Meta inst') = ResourceVersion (inj_Meta inst)
     \<and> bouncedKey inst' = bouncedKey inst \<and> bounced inst' = bounced inst"
  by (auto simp: adoptedFrom_def bouncedKey_def bounced_def fun_eq_iff)

lemma podItems_set: "p \<in> set (podItems items) \<longleftrightarrow> PodObj p \<in> set items"
  by (induction items rule: podItems.induct) auto

lemma clientList_listed:
  "clientList e k ns sel s = (Inr items, s') \<Longrightarrow> issues s [(ListCall k ns sel, Listed items)] s'"
  by (auto simp: clientList_def split: prod.splits reply.splits dest: request_issues)

lemma bouncePod_spec:
  assumes "bouncePod e inst' p s = Some (err, s')" and "adoptedFrom (core e) inst inst'" and "PodObj p \<in> set items"
    and "(ListCall PodK (Namespace (inj_Meta inst)) (Some (Some (inj_Selector (inj_Spec inst)))), Listed items) \<in> set (trace s)"
  shows "justified (injectorCall e inst) s s'"
proof -
  note k = adoptedFrom_simps [OF assms(2)]
  obtain werr y s1 where w: "writeAs asPod e (UpdateCall (PodObj (bounced inst p))) (bounced inst p) s = (werr, y, s1)"
    by (metis prod_cases3)
  have run: "mapLookup (Annotations (p_Meta p)) (bouncedKey inst) = None \<Longrightarrow> err = werr \<and> s' = s1"
    using assms(1) w k by (auto simp: bouncePod_def bounced_def Let_def)
  show "justified (injectorCall e inst) s s'"
  proof (cases "mapLookup (Annotations (p_Meta p)) (bouncedKey inst) = None")
    case True
    with assms(3,4) have "injectorCall e inst (trace s) (UpdateCall (PodObj (bounced inst p)))" by auto
    from justified_writeAs [OF w, of "injectorCall e inst", OF this] run True show ?thesis by simp
  next
    case False
    with assms(1) k show ?thesis by (auto simp: bouncePod_def)
  qed
qed

lemma bounceLoop_spec:
  assumes "forEach (bouncePod e inst') (podItems items) s = Some (err, s')" and "adoptedFrom (core e) inst inst'"
    and "(ListCall PodK (Namespace (inj_Meta inst)) (Some (Some (inj_Selector (inj_Spec inst)))), Listed items) \<in> set (trace s)"
  shows "justified (injectorCall e inst) s s'"
proof -
  let ?R = "\<lambda>a b. (ListCall PodK (Namespace (inj_Meta inst)) (Some (Some (inj_Selector (inj_Spec inst)))), Listed items)
      \<in> set (trace a) \<longrightarrow> justified (injectorCall e inst) a b"
  have "?R s s'"
  proof (rule forEach_rel [OF _ _ _ assms(1), of ?R])
    fix a b c :: "'a sys"
    assume "?R a b" "?R b c"
    then show "?R a c" using justified_history [of "injectorCall e inst" a b] justified_trans [of "injectorCall e inst" a b c] by blast
  next
    fix p a er b
    assume "p \<in> set (podItems items)" "bouncePod e inst' p a = Some (er, b)"
    then show "?R a b" using bouncePod_spec [OF _ assms(2)] by (auto simp: podItems_set)
  qed simp
  with assms(3) show ?thesis by blast
qed

lemma ReconcileInjector_calls:
  assumes "getAs asInj e InjK req s = (Inr inst, s1)" and "ReconcileInjector e req s = Some (res, s')"
  shows "justified (injectorCall e inst) s1 s'"
proof -
  let ?J = "injectorCall e inst" and ?sel = "Some (inj_Selector (inj_Spec inst))"
  obtain a s2 where ad: "adoptInjector e inst s1 = (a, s2)" by fastforce
  note a1 = adoptInjector_spec [OF ad]
  show ?thesis
  proof (cases "inj_Name (inj_Spec inst) = [] \<or> (\<exists>r. a = Finish r) \<or> lib_SelectorError (core e) ?sel \<noteq> None")
    case True
    with assms ad a1 adoptedFrom_simps show ?thesis
      by (cases a) (fastforce simp: ReconcileInjector_def split: if_splits)+
  next
    case False
    then obtain inst' where a: "a = Adopted inst'" by (cases a) auto
    note ad' = a1(2) [OF a] and k = adoptedFrom_simps [OF a1(2) [OF a]]
    obtain r s3 where l: "clientList e PodK (Namespace (inj_Meta inst)) (Some ?sel) s2 = (r, s3)" by fastforce
    have j3: "justified ?J s1 s3" by (rule justified_trans [OF a1(1) justified_clientList [OF l]]) simp
    show ?thesis
    proof (cases r)
      case (Inl er)
      with assms ad a False k l j3 show ?thesis by (auto simp: ReconcileInjector_def)
    next
      case (Inr items)
      have listed: "(ListCall PodK (Namespace (inj_Meta inst)) (Some ?sel), Listed items) \<in> set (trace s3)"
        using clientList_listed [OF l [unfolded Inr]] by (simp add: issues_def)
      from assms ad a False k l Inr obtain er s4 where
        f: "forEach (bouncePod e inst') (podItems items) s3 = Some (er, s4)"
        by (auto simp: ReconcileInjector_def split: option.splits)
      have j4: "justified ?J s1 s4" by (rule justified_trans [OF j3 bounceLoop_spec [OF f ad' listed]])
      obtain werr y s5 where w: "writeAs asInj e (UpdateCall (InjObj inst')) inst' s4 = (werr, y, s5)" by (metis prod_cases3)
      have "justified ?J s1 s5" by (rule justified_trans [OF j4 justified_writeAs [OF w]]) (use ad' in simp)
      with assms ad a False k l Inr f j4 w show ?thesis by (auto simp: ReconcileInjector_def split: option.splits)
    qed
  qed
qed

text \<open>After a success every selected pod has the annotation: it was listed with it, or an update added it.\<close>

definition bouncedNow :: "injector \<Rightarrow> pod \<Rightarrow> call \<times> reply \<Rightarrow> bool" where
  "bouncedNow inst p en \<longleftrightarrow> (\<exists>r. en = (UpdateCall (PodObj (bounced inst p)), r) \<and> (\<forall>x. r \<noteq> Fail x))"

lemma bounceLoop_all:
  assumes "forEach (bouncePod e inst') (podItems items) s = Some (None, s')" and "adoptedFrom (core e) inst inst'"
    and "PodObj p \<in> set items" and "mapLookup (Annotations (p_Meta p)) (bouncedKey inst) = None"
  shows "emits (bouncedNow inst p) s s'"
proof -
  have anyCall: "justified (\<lambda>h c. True) a b" if "bouncePod e inst' q a = Some (er, b)" for q a er b
    using that by (auto simp: bouncePod_def Let_def split: option.splits prod.splits intro: justified_writeAs)
  have step: "emits (bouncedNow inst q) a b"
    if "bouncePod e inst' q a = Some (None, b)" "mapLookup (Annotations (p_Meta q)) (bouncedKey inst) = None" for q a b
  proof -
    note k = adoptedFrom_simps [OF assms(2)]
    obtain werr y s1 where w: "writeAs asPod e (UpdateCall (PodObj (bounced inst q))) (bounced inst q) a = (werr, y, s1)"
      by (metis prod_cases3)
    with that k have "werr = None" "b = s1" by (auto simp: bouncePod_def bounced_def Let_def)
    with w show ?thesis by (intro writeAs_emits [of asPod e _ "bounced inst q" a y]) (auto simp: bouncedNow_def)
  qed
  have "\<forall>q \<in> set (podItems items). mapLookup (Annotations (p_Meta q)) (bouncedKey inst) = None \<longrightarrow> emits (bouncedNow inst q) s s'"
    by (rule forEach_all [OF assms(1) anyCall step])
  with assms(3,4) show ?thesis by (simp add: podItems_set)
qed

lemma bouncePod_again: "mapLookup (Annotations (p_Meta (bounced inst p))) (bouncedKey inst) \<noteq> None"
  by (simp add: bounced_def)

section \<open>Properties\<close>

text \<open>
  C37. Whatever the API server answers, a reconciliation of an Injector writes only pods that its selector listed in
  its namespace and that did not carry its annotation yet, and changes nothing of them but that annotation; and it
  writes the Injector only to give it an owner of its own namespace when it had none.
\<close>

theorem injector_writes_justified:
  assumes "getAs asInj e InjK req s = (Inr inst, s1)" and "ReconcileInjector e req s = Some (res, s')"
  shows "justified (injectorCall e inst) s1 s'"
  using assms by (rule ReconcileInjector_calls)

definition sampleInjector :: injector where
  "sampleInjector = \<lparr>inj_Meta = emptyMeta\<lparr>Name := ''side'', Namespace := ''ns'', ResourceVersion := ''42''\<rparr>,
     inj_Spec = \<lparr>PreContainers = Some [\<lparr>c_Name = ''log'', c_Image = ''log:1'', c_rest = []\<rparr>], PostContainers = None,
       ResourceType = ''Water'', inj_NameSpace = ''ns'', inj_Name = ''web'', inj_Volumes = None,
       inj_Selector = sampleSelector\<rparr>\<rparr>"

definition sideWater :: water where
  "sideWater = \<lparr>w_Meta = emptyMeta\<lparr>Name := ''web'', Namespace := ''ns''\<rparr>,
     w_Spec = \<lparr>w_Template = Template (set_Spec (sampleSet 1 0 [])), w_Strategy = Alpha, w_Coordinates = [],
       w_Service = \<lparr>Ports = [], svc_Selector = None, svc_rest = []\<rparr>\<rparr>,
     w_Status = \<lparr>DesiredReplicas = 0, AlreadyReplicas = 0, DesiredDeployment = 0, AlreadyDeployment = 0\<rparr>\<rparr>"

definition injectorEnv :: "nat k8s" where
  "injectorEnv = serverEnv (serving (\<lambda>k key. if k = InjK \<and> key = \<lparr>key_Namespace = ''ns'', key_Name = ''side''\<rparr>
      then Some (InjObj sampleInjector)
      else if k = WaterK \<and> key = \<lparr>key_Namespace = ''ns'', key_Name = ''web''\<rparr> then Some (WaterObj sideWater) else None) (\<lambda>k. if k = PodK then [PodObj (samplePod ''web-0'' ''r1'' PodRunning)] else []))"

lemma sample_injector: "map_option (\<lambda>(res, s). (isl res, length (trace s)))
    (ReconcileInjector injectorEnv \<lparr>key_Namespace = ''ns'', key_Name = ''side''\<rparr> sampleSys) = Some (False, 5)"
  by code_simp

theorem injector_writes_justified_witness:
  "\<exists>(s1 :: nat sys) s'. justified (injectorCall injectorEnv sampleInjector) s1 s' \<and> length (trace s') = 5"
proof -
  let ?req = "\<lparr>key_Namespace = ''ns'', key_Name = ''side''\<rparr>"
  from sample_injector obtain res s' where run: "ReconcileInjector injectorEnv ?req sampleSys = Some (res, s')"
    and n: "length (trace s') = 5" by auto
  obtain s1 where g: "getAs asInj injectorEnv InjK ?req sampleSys = (Inr sampleInjector, s1)"
    by (simp add: getAs_def clientGet_def request_def injectorEnv_def serving_def)
  from injector_writes_justified [OF g run] n show ?thesis by blast
qed

text \<open>
  When the loop over the listed pods ends without an error, the update of every pod that did not carry the
  annotation was accepted, with the annotation set to the Injector's version; such a pod is not written again.
\<close>

theorem pods_bounced_once:
  assumes "forEach (bouncePod e inst) (podItems items) s = Some (None, s')" and "PodObj p \<in> set items"
    and "mapLookup (Annotations (p_Meta p)) (bouncedKey inst) = None"
  shows "emits (bouncedNow inst p) s s' \<and> bouncePod e inst (bounced inst p) s' = Some (None, s')"
proof -
  have "adoptedFrom (core e) inst inst" by (simp add: adoptedFrom_def)
  from bounceLoop_all [OF assms(1) this assms(2,3)] show ?thesis by (auto simp: bouncePod_def bounced_def)
qed

lemma sample_bounce: "map_option fst (forEach (bouncePod injectorEnv sampleInjector)
    (podItems [PodObj (samplePod ''web-0'' ''r1'' PodRunning)]) sampleSys) = Some None"
  by code_simp

theorem pods_bounced_once_witness:
  "\<exists>s'. emits (bouncedNow sampleInjector (samplePod ''web-0'' ''r1'' PodRunning)) sampleSys s'"
proof -
  from sample_bounce obtain s' where run: "forEach (bouncePod injectorEnv sampleInjector)
    (podItems [PodObj (samplePod ''web-0'' ''r1'' PodRunning)]) sampleSys = Some (None, s')" by auto
  have "mapLookup (Annotations (p_Meta (samplePod ''web-0'' ''r1'' PodRunning))) (bouncedKey sampleInjector) = None"
    by (simp add: samplePod_def emptyMeta_def mapLookup_def)
  from pods_bounced_once [OF run _ this] show ?thesis by auto
qed

end
