(* ===== verification/Webhook.thy ===== *)
theory Webhook
  imports Coordinate Cluster
begin

text \<open>
  \<^verbatim>\<open>api/v1/webhook.go\<close>: the admission webhook. One endpoint gives the pods of a workload the node affinity of
  the namespace it is created in; the other adds the containers and volumes of an Injector to a new pod.
  Decoding, encoding, patch computation and the random source are parameters.
\<close>

section \<open>Admission reviews\<close>

record groupVersionResource =
  gvr_Group :: string
  gvr_Version :: string
  gvr_Resource :: string

record admissionRequest =
  req_UID :: string
  req_Kind :: string
  req_Resource :: groupVersionResource
  req_Namespace :: string
  req_Raw :: bytes

record admissionResponse =
  rsp_UID :: string
  Allowed :: bool
  Message :: "string option"
  Patch :: "bytes option"
  PatchType :: "string option"

record admissionReview =
  ar_APIVersion :: string
  ar_Kind :: string
  Request :: "admissionRequest option"
  Response :: "admissionResponse option"

text \<open>The objects with a pod template; that of a ReplicationController is a pointer.\<close>

datatype workload =
    DeploymentW objectMeta podTemplate string
  | StatefulSetW objectMeta podTemplate string
  | ReplicationControllerW objectMeta "podTemplate option" string
  | ReplicaSetW objectMeta podTemplate string
  | JobW objectMeta podTemplate string
  | CronJobW objectMeta podTemplate string

fun workloadOwners :: "workload \<Rightarrow> ownerReference list" where
  "workloadOwners (DeploymentW m t r) = OwnerReferences m"
| "workloadOwners (StatefulSetW m t r) = OwnerReferences m"
| "workloadOwners (ReplicationControllerW m t r) = OwnerReferences m"
| "workloadOwners (ReplicaSetW m t r) = OwnerReferences m"
| "workloadOwners (JobW m t r) = OwnerReferences m"
| "workloadOwners (CronJobW m t r) = OwnerReferences m"

record webhookLib =
  lib_DecodeReview :: "bytes \<Rightarrow> error option \<times> admissionReview"
    \<comment> \<open>the error, and the review as the decoder leaves it\<close>
  lib_DecodeWorkload :: "string \<Rightarrow> bytes \<Rightarrow> error + workload"
    \<comment> \<open>decoding into an object of the kind\<close>
  lib_DecodePod :: "bytes \<Rightarrow> error + pod"
  lib_EncodeWorkload :: "workload \<Rightarrow> error + bytes"
  lib_EncodePod :: "pod \<Rightarrow> error + bytes"
  lib_EncodeReview :: "admissionReview \<Rightarrow> error + bytes"
  lib_RandRead :: "nat \<Rightarrow> error + nat list"
    \<comment> \<open>the eight bytes of the \<open>k\<close>-th read\<close>

section \<open>Small functions\<close>

definition ingoredList :: "string list" where
  "ingoredList = [''kube-system'', ''default'', ''kube-public'']"

definition toAdmissionResponse :: "coreLib \<Rightarrow> error \<Rightarrow> admissionResponse" where
  "toAdmissionResponse L err =
     \<lparr>rsp_UID = [], Allowed = False, Message = Some (lib_ErrorString L err), Patch = None, PatchType = None\<rparr>"

fun ignoredRequired_in :: "string list \<Rightarrow> string \<Rightarrow> bool" where
  "ignoredRequired_in [] ns = True"
| "ignoredRequired_in (x # xs) ns = (if ns = x then False else ignoredRequired_in xs ns)"

definition ignoredRequired :: "string \<Rightarrow> bool" where
  "ignoredRequired ns = ignoredRequired_in ingoredList ns"

definition podGvr :: groupVersionResource where
  "podGvr = \<lparr>gvr_Group = [], gvr_Version = ''v1'', gvr_Resource = ''pods''\<rparr>"

fun repeats :: "string \<Rightarrow> string list \<Rightarrow> bool" where
  \<comment> \<open>the inner loop: does the element occur again further on?\<close>
  "repeats x [] = False"
| "repeats x (y # ys) = (if x = y then True else repeats x ys)"

fun removeRepeatedElement_into :: "string list \<Rightarrow> string list \<Rightarrow> string list" where
  "removeRepeatedElement_into [] newArr = newArr"
| "removeRepeatedElement_into (x # xs) newArr =
     removeRepeatedElement_into xs (if \<not> repeats x xs then newArr @ [x] else newArr)"

definition removeRepeatedElement :: "string list \<Rightarrow> string list" where
  "removeRepeatedElement arr = removeRepeatedElement_into arr []"

definition convertToNodeSelectorAffinity :: "coordinates \<Rightarrow> nodeAffinity" where
  "convertToNodeSelectorAffinity coords =
     (let zones = map Zone coords; racks = map Rack coords; hosts = map Host coords
      in \<lparr>RequiredTerms = Some [[requirement NuwaZoneFlag (removeRepeatedElement zones), requirement NuwaRackFlag racks]],
          PreferredTerms = [\<lparr>Weight = 100, Preference = [requirement NuwaHostFlag hosts]\<rparr>]\<rparr>)"

definition hexDigit :: "nat \<Rightarrow> char" where
  "hexDigit d = (if d < 10 then digitChar d else char_of (87 + d))"

definition random :: "webhookLib \<Rightarrow> nat \<Rightarrow> string \<times> error option" where
  "random W k =
     (case lib_RandRead W k of
        Inl err \<Rightarrow> ([], Some err)
      | Inr bs \<Rightarrow> (concat (map (\<lambda>b. [hexDigit (b div 16), hexDigit (b mod 16)]) bs), None))"

section \<open>The affinity of a namespace\<close>

definition limitTemplate :: "coordinates \<Rightarrow> podTemplate \<Rightarrow> podTemplate" where
  "limitTemplate coords t =
     (if Affinity (t_Spec t) = None
      then t\<lparr>t_Spec := (t_Spec t)\<lparr>Affinity :=
             Some \<lparr>NodeAffinity = Some (convertToNodeSelectorAffinity coords), aff_rest = []\<rparr>\<rparr>\<rparr>
      else t)"

fun limitWorkload :: "coordinates \<Rightarrow> workload \<Rightarrow> workload option" where
  \<comment> \<open>the type switch; \<open>None\<close> is the nil template of a ReplicationController\<close>
  "limitWorkload coords (DeploymentW m t r) = Some (DeploymentW m (limitTemplate coords t) r)"
| "limitWorkload coords (StatefulSetW m t r) = Some (StatefulSetW m (limitTemplate coords t) r)"
| "limitWorkload coords (ReplicationControllerW m t r) =
     (case t of None \<Rightarrow> None | Some t \<Rightarrow> Some (ReplicationControllerW m (Some (limitTemplate coords t)) r))"
| "limitWorkload coords (ReplicaSetW m t r) = Some (ReplicaSetW m (limitTemplate coords t) r)"
| "limitWorkload coords (JobW m t r) = Some (JobW m (limitTemplate coords t) r)"
| "limitWorkload coords (CronJobW m t r) = Some (CronJobW m (limitTemplate coords t) r)"

definition updateNamespaceForResourceLimitRange ::
  "'w k8s \<Rightarrow> string \<Rightarrow> workload \<Rightarrow> 'w sys \<Rightarrow> ((error + workload) \<times> 'w sys) option" where
  "updateNamespaceForResourceLimitRange e namespaceName obj s =
     (case getAs asNs e NsK \<lparr>key_Namespace = [], key_Name = namespaceName\<rparr> s of
        (Inl err, s) \<Rightarrow> Some (Inl err, s)
      | (Inr ns, s) \<Rightarrow>
          (case mapLookup (Annotations (ns_Meta ns)) NuwaLimitFlag of
             None \<Rightarrow> Some (Inr obj, s)
           | Some limitContent \<Rightarrow>
               (case lib_UnmarshalCoordinates (codec e) limitContent of
                  Inl err \<Rightarrow> Some (Inl err, s)
                | Inr coords \<Rightarrow>
                    (case limitWorkload coords obj of None \<Rightarrow> None | Some obj \<Rightarrow> Some (Inr obj, s)))))"

definition patchResponse :: "'w k8s \<Rightarrow> error + bytes \<Rightarrow> error + bytes \<Rightarrow> admissionResponse" where
  \<comment> \<open>the ends of both handlers: marshal two objects, in this order, and answer with the patch between them\<close>
  "patchResponse e first second =
     (case first of
        Inl err \<Rightarrow> toAdmissionResponse (core e) err
      | Inr a \<Rightarrow>
          (case second of
             Inl err \<Rightarrow> toAdmissionResponse (core e) err
           | Inr b \<Rightarrow>
               (case lib_CreatePatch (codec e) a b of
                  Inl err \<Rightarrow> toAdmissionResponse (core e) err
                | Inr ops \<Rightarrow> \<lparr>rsp_UID = [], Allowed = True, Message = None,
                    Patch = Some (lib_MarshalPatches (codec e) ops), PatchType = Some ''JSONPatch''\<rparr>)))"

definition mutatedKinds :: "string list" where
  "mutatedKinds = [''Deployment'', ''StatefulSet'', ''ReplicationController'', ''ReplicaSet'', ''Job'', ''CronJob'']"

definition namespaceMutateResource ::
  "'w k8s \<Rightarrow> webhookLib \<Rightarrow> admissionReview \<Rightarrow> 'w sys \<Rightarrow> (admissionResponse option \<times> 'w sys) option" where
  "namespaceMutateResource e W ar s =
     (case Request ar of
        None \<Rightarrow> None
      | Some areq \<Rightarrow>
          if req_Kind areq \<notin> set mutatedKinds then Some (Response ar, s)
          else
            (case lib_DecodeWorkload W (req_Kind areq) (req_Raw areq) of
               Inl err \<Rightarrow> Some (Some (toAdmissionResponse (core e) err), s)
             | Inr src \<Rightarrow>
                 if workloadOwners src \<noteq> [] then Some (Response ar, s)
                 else
                   (case updateNamespaceForResourceLimitRange e (req_Namespace areq) src s of
                      None \<Rightarrow> None
                    | Some (Inl err, s) \<Rightarrow> Some (Some (toAdmissionResponse (core e) err), s)
                    | Some (Inr dest, s) \<Rightarrow>
                        Some (Some (patchResponse e (lib_EncodeWorkload W src) (lib_EncodeWorkload W dest)), s))))"

section \<open>The injection into a pod\<close>

fun filterInjectorPod :: "coreLib \<Rightarrow> injector list \<Rightarrow> pod \<Rightarrow> error + injector list" where
  "filterInjectorPod L [] pod = Inr []"
| "filterInjectorPod L (sp # sps) pod =
     (case lib_SelectorError L (Some (inj_Selector (inj_Spec sp))) of
        Some err \<Rightarrow> Inl (Errorf (''label selector conversion failed: '' @ lib_ErrorString L err))
      | None \<Rightarrow>
          (case filterInjectorPod L sps pod of
             Inl err \<Rightarrow> Inl err
           | Inr rest \<Rightarrow>
               Inr (if lib_SelectorMatches L (Some (inj_Selector (inj_Spec sp))) (podLabels pod) then sp # rest else rest)))"

text \<open>The nested loops; the number counts the calls of \<open>random\<close> so far, whose error is ignored.\<close>

fun injectBeside :: "webhookLib \<Rightarrow> container \<Rightarrow> container list \<Rightarrow> nat \<Rightarrow> container list \<times> nat" where
  "injectBeside W c [] k = ([], k)"
| "injectBeside W c (m # ms) k =
     (if c_Name c = c_Name m
      then (case injectBeside W c ms (Suc k) of
              (rest, k') \<Rightarrow> (m\<lparr>c_Name := c_Name m @ ''-'' @ fst (random W k)\<rparr> # rest, k'))
      else (case injectBeside W c ms k of (rest, k') \<Rightarrow> (m # rest, k')))"

fun injectContainers :: "webhookLib \<Rightarrow> container list \<Rightarrow> container list \<Rightarrow> nat \<Rightarrow> container list \<times> nat" where
  "injectContainers W [] ms k = ([], k)"
| "injectContainers W (c # cs) ms k =
     (case injectBeside W c ms k of
        (here, k) \<Rightarrow> (case injectContainers W cs ms k of (rest, k) \<Rightarrow> (here @ rest, k)))"

definition injectedContainers :: "webhookLib \<Rightarrow> injectorSpec \<Rightarrow> container list \<Rightarrow> container list" where
  \<comment> \<open>the three \<open>if\<close> statements on which of the two slices is nil\<close>
  "injectedContainers W spec cs =
     (case (PreContainers spec, PostContainers spec) of
        (Some pre, None) \<Rightarrow> fst (injectContainers W cs pre 0) @ cs
      | (None, Some post) \<Rightarrow> cs @ fst (injectContainers W cs post 0)
      | (Some pre, Some post) \<Rightarrow>
          (case injectContainers W cs pre 0 of
             (before, k) \<Rightarrow> (before @ cs) @ fst (injectContainers W cs post k))
      | (None, None) \<Rightarrow> cs)"

fun volumesBeside :: "volume \<Rightarrow> volume list \<Rightarrow> volume list" where
  "volumesBeside v [] = []"
| "volumesBeside v (m # ms) = (if v_Name v = v_Name m then volumesBeside v ms else m # volumesBeside v ms)"

definition sliceOf :: "'a list \<Rightarrow> 'a list option" where
  \<comment> \<open>appending to the nil slice: nil if nothing was appended\<close>
  "sliceOf xs = (if xs = [] then None else Some xs)"

definition injectedVolumes :: "injectorSpec \<Rightarrow> volume list option \<Rightarrow> volume list option" where
  "injectedVolumes spec vols =
     (case inj_Volumes spec of
        None \<Rightarrow> None
      | Some ms \<Rightarrow>
          (case vols of
             None \<Rightarrow> sliceOf ms
           | Some vs \<Rightarrow> sliceOf (concat (map (\<lambda>v. volumesBeside v ms) vs))))"

definition injectPod :: "webhookLib \<Rightarrow> injector \<Rightarrow> pod \<Rightarrow> pod" where
  \<comment> \<open>\<open>podCopy\<close> after the changes\<close>
  "injectPod W sp pod =
     (let spec = p_Spec pod;
          spec = spec\<lparr>Containers := injectedContainers W (inj_Spec sp) (Containers spec)\<rparr>
      in pod\<lparr>p_Spec := spec\<lparr>Volumes := injectedVolumes (inj_Spec sp) (Volumes spec)\<rparr>\<rparr>)"

abbreviation "MirrorPodAnnotationKey \<equiv> ''kubernetes.io/config.mirror''"

fun injectorsOf :: "obj list \<Rightarrow> injector list" where
  "injectorsOf [] = []"
| "injectorsOf (InjObj x # ys) = x # injectorsOf ys"
| "injectorsOf (_ # ys) = injectorsOf ys"

definition allowedResponse :: admissionResponse where
  "allowedResponse = \<lparr>rsp_UID = [], Allowed = True, Message = None, Patch = None, PatchType = None\<rparr>"

definition injectorMutatePods ::
  "'w k8s \<Rightarrow> webhookLib \<Rightarrow> admissionReview \<Rightarrow> 'w sys \<Rightarrow> (admissionResponse option \<times> 'w sys) option" where
  "injectorMutatePods e W ar s =
     (case Request ar of
        None \<Rightarrow> None
      | Some areq \<Rightarrow>
          let reject = (\<lambda>err. Some (toAdmissionResponse (core e) err)) in
          if req_Resource areq \<noteq> podGvr then Some (reject (Errorf ''expect resource to be pods''), s)
          else
            (case lib_DecodePod W (req_Raw areq) of
               Inl err \<Rightarrow> Some (reject err, s)
             | Inr pod \<Rightarrow>
                 if \<not> ignoredRequired (req_Namespace areq) then Some (Some allowedResponse, s)
                 else if mapLookup (Annotations (p_Meta pod)) MirrorPodAnnotationKey \<noteq> None
                 then Some (Some allowedResponse, s)
                 else
                   (case clientList e InjK (Namespace (p_Meta pod)) None s of
                      (Inl err, s) \<Rightarrow> Some (reject err, s)
                    | (Inr items, s) \<Rightarrow>
                        if injectorsOf items = [] then Some (Some allowedResponse, s)
                        else
                          (case filterInjectorPod (core e) (injectorsOf items) pod of
                             Inl err \<Rightarrow> Some (reject err, s)
                           | Inr [] \<Rightarrow> Some (Some allowedResponse, s)
                           | Inr (sp # sps) \<Rightarrow>
                               let podCopy = lib_EncodePod W (injectPod W sp pod) in
                               Some (Some (case podCopy of
                                   Inl err \<Rightarrow> toAdmissionResponse (core e) err
                                 | Inr _ \<Rightarrow> patchResponse e (lib_EncodePod W pod) podCopy), s)))))"

section \<open>The HTTP handler\<close>

text \<open>
  The request body is the outcome of reading it, \<open>None\<close> for a nil body, whose deferred \<open>Close\<close> panics. The
  result is what is written, if anything is.
\<close>

definition serve ::
  "'w k8s \<Rightarrow> webhookLib \<Rightarrow> string \<Rightarrow> (error + bytes) option
     \<Rightarrow> (admissionReview \<Rightarrow> 'w sys \<Rightarrow> (admissionResponse option \<times> 'w sys) option) \<Rightarrow> 'w sys
     \<Rightarrow> (bytes option \<times> 'w sys) option" where
  "serve e W contentType body admit s =
     (case body of
        None \<Rightarrow> None
      | Some data \<Rightarrow>
          if contentType \<noteq> ''application/json'' then Some (None, s)
          else
            (case lib_DecodeReview W (case data of Inl _ \<Rightarrow> [] | Inr bs \<Rightarrow> bs) of
               (decodeErr, ar) \<Rightarrow>
                 (case (case decodeErr of
                          Some err \<Rightarrow> Some (Some (toAdmissionResponse (core e) err), s)
                        | None \<Rightarrow> admit ar s) of
                    None \<Rightarrow> None
                  | Some (reviewResponse, s) \<Rightarrow>
                      (case (case reviewResponse of
                               None \<Rightarrow> Some None
                             | Some r \<Rightarrow> map_option (\<lambda>areq. Some (r\<lparr>rsp_UID := req_UID areq\<rparr>)) (Request ar)) of
                         None \<Rightarrow> None
                       | Some response \<Rightarrow>
                           Some (Some (case lib_EncodeReview W \<lparr>ar_APIVersion = ''admission.k8s.io/v1'',
                                     ar_Kind = ''AdmissionReview'', Request = None, Response = response\<rparr> of
                                   Inl _ \<Rightarrow> []
                                 | Inr resp \<Rightarrow> resp), s)))))"

definition ServeInjectorMutatePods ::
  "'w k8s \<Rightarrow> webhookLib \<Rightarrow> string \<Rightarrow> (error + bytes) option \<Rightarrow> 'w sys \<Rightarrow> (bytes option \<times> 'w sys) option" where
  "ServeInjectorMutatePods e W contentType body s = serve e W contentType body (injectorMutatePods e W) s"

definition ServeNamespaceMutateResource ::
  "'w k8s \<Rightarrow> webhookLib \<Rightarrow> string \<Rightarrow> (error + bytes) option \<Rightarrow> 'w sys \<Rightarrow> (bytes option \<times> 'w sys) option" where
  "ServeNamespaceMutateResource e W contentType body s = serve e W contentType body (namespaceMutateResource e W) s"

section \<open>Facts\<close>

lemma repeats_iff [simp]: "repeats x ys \<longleftrightarrow> x \<in> set ys"
  by (induction ys) auto

lemma removeRepeatedElement_into_eq: "removeRepeatedElement_into xs acc = acc @ remdups xs"
  by (induction xs arbitrary: acc) auto

lemma ignoredRequired_in_iff: "ignoredRequired_in xs ns \<longleftrightarrow> ns \<notin> set xs"
  by (induction xs) auto

lemma ignoredRequired_iff: "ignoredRequired ns \<longleftrightarrow> ns \<notin> {''kube-system'', ''default'', ''kube-public''}"
  by (simp add: ignoredRequired_def ignoredRequired_in_iff ingoredList_def)

text \<open>What is injected, and how often.\<close>

lemma injectBeside_length: "injectBeside W c ms k = (xs, k') \<Longrightarrow> length xs = length ms"
  by (induction ms arbitrary: k xs k') (auto split: if_splits prod.splits)

lemma injectContainers_length: "injectContainers W cs ms k = (xs, k') \<Longrightarrow> length xs = length cs * length ms"
  by (induction cs arbitrary: k xs k') (auto split: prod.splits dest: injectBeside_length)

lemma injectBeside_keeps:
  "injectBeside W c ms k = (xs, k') \<Longrightarrow> m \<in> set ms \<Longrightarrow> c_Name c \<noteq> c_Name m \<Longrightarrow> m \<in> set xs"
  by (induction ms arbitrary: k xs k') (auto split: if_splits prod.splits)

lemma injectContainers_copies:
  "injectContainers W cs ms k = (xs, k') \<Longrightarrow> m \<in> set ms \<Longrightarrow> \<forall>c \<in> set cs. c_Name c \<noteq> c_Name m \<Longrightarrow>
     length cs \<le> count_list (map c_Name xs) (c_Name m)"
proof (induction cs arbitrary: k xs k')
  case Nil
  then show ?case by simp
next
  case (Cons c cs)
  obtain here k1 where h: "injectBeside W c ms k = (here, k1)" by fastforce
  obtain rest k2 where r: "injectContainers W cs ms k1 = (rest, k2)" by fastforce
  from injectBeside_keeps [OF h Cons.prems(2)] Cons.prems(3) have "m \<in> set here" by simp
  then have "c_Name m \<in> set (map c_Name here)" by simp
  then have "1 \<le> count_list (map c_Name here) (c_Name m)" by (metis One_nat_def count_list_0_iff gr0I Suc_leI)
  with Cons.IH [OF r Cons.prems(2)] Cons.prems(1,3) h r show ?case by (auto simp del: count_list_map_conv)
qed

lemma injectedContainers_split:
  obtains before after where "injectedContainers W spec cs = before @ cs @ after"
    "length before = length cs * length (slice (PreContainers spec))"
    "length after = length cs * length (slice (PostContainers spec))"
proof -
  obtain a k where a: "injectContainers W cs (slice (PreContainers spec)) 0 = (a, k)" by fastforce
  obtain b kb where b: "injectContainers W cs (slice (PostContainers spec)) 0 = (b, kb)" by fastforce
  obtain c kc where c: "injectContainers W cs (slice (PostContainers spec)) k = (c, kc)" by fastforce
  note lens = injectContainers_length [OF a] injectContainers_length [OF b] injectContainers_length [OF c]
  show ?thesis
  proof (cases "PreContainers spec"; cases "PostContainers spec")
    assume "PreContainers spec = None" "PostContainers spec = None"
    then show ?thesis by (intro that [of "[]" "[]"]) (simp_all add: injectedContainers_def)
  next
    fix post assume "PreContainers spec = None" "PostContainers spec = Some post"
    with b lens show ?thesis by (intro that [of "[]" b]) (simp_all add: injectedContainers_def)
  next
    fix pre assume "PreContainers spec = Some pre" "PostContainers spec = None"
    with a lens show ?thesis by (intro that [of a "[]"]) (simp_all add: injectedContainers_def)
  next
    fix pre post assume "PreContainers spec = Some pre" "PostContainers spec = Some post"
    with a c lens show ?thesis by (intro that [of a c]) (simp_all add: injectedContainers_def)
  qed
qed

lemma volumesBeside_eq: "volumesBeside v ms = filter (\<lambda>m. v_Name m \<noteq> v_Name v) ms"
  by (induction ms) auto

lemma slice_sliceOf [simp]: "slice (sliceOf xs) = xs"
  by (simp add: sliceOf_def)

lemma injectedVolumes_eq:
  "slice (injectedVolumes spec vols) = (case vols of
     None \<Rightarrow> slice (inj_Volumes spec)
   | Some vs \<Rightarrow> concat (map (\<lambda>v. filter (\<lambda>m. v_Name m \<noteq> v_Name v) (slice (inj_Volumes spec))) vs))"
proof -
  have "concat (map (\<lambda>v. []) vs) = []" for vs :: "volume list" by (induction vs) auto
  then show ?thesis by (auto simp: injectedVolumes_def volumesBeside_eq split: option.splits)
qed

text \<open>The namespace handler changes an affinity that is missing, and nothing else.\<close>

fun workloadTemplate :: "workload \<Rightarrow> podTemplate option" where
  "workloadTemplate (DeploymentW m t r) = Some t"
| "workloadTemplate (StatefulSetW m t r) = Some t"
| "workloadTemplate (ReplicationControllerW m t r) = t"
| "workloadTemplate (ReplicaSetW m t r) = Some t"
| "workloadTemplate (JobW m t r) = Some t"
| "workloadTemplate (CronJobW m t r) = Some t"

lemma limitWorkload_template:
  "limitWorkload coords w = Some w' \<Longrightarrow> workloadOwners w' = workloadOwners w
     \<and> (\<exists>t. workloadTemplate w = Some t \<and> workloadTemplate w' = Some (limitTemplate coords t))"
  by (cases "(coords, w)" rule: limitWorkload.cases) (auto split: option.splits)

lemma limitWorkload_same: "limitWorkload coords w = Some w' \<Longrightarrow> workloadTemplate w = Some t \<Longrightarrow>
    Affinity (t_Spec t) \<noteq> None \<Longrightarrow> w' = w"
  by (cases "(coords, w)" rule: limitWorkload.cases) (auto simp: limitTemplate_def split: option.splits)

text \<open>The affinity that the annotation of a namespace, as it was read, stands for.\<close>

definition limitedBy :: "'w k8s \<Rightarrow> (call \<times> reply) list \<Rightarrow> string \<Rightarrow> coordinates \<Rightarrow> bool" where
  "limitedBy e h name coords \<longleftrightarrow> (\<exists>ns content. (GetCall NsK \<lparr>key_Namespace = [], key_Name = name\<rparr>, Got (NsObj ns)) \<in> set h
     \<and> mapLookup (Annotations (ns_Meta ns)) NuwaLimitFlag = Some content
     \<and> lib_UnmarshalCoordinates (codec e) content = Inr coords)"

lemma updateNamespace_spec:
  assumes "updateNamespaceForResourceLimitRange e name obj s = Some (res, s')"
  shows "onlyCalls isRead s s'" and "res = Inr obj' \<Longrightarrow> obj' = obj
    \<or> (\<exists>coords. limitedBy e (trace s') name coords \<and> limitWorkload coords obj = Some obj')"
proof -
  obtain x s1 where g: "getAs asNs e NsK \<lparr>key_Namespace = [], key_Name = name\<rparr> s = (x, s1)" by fastforce
  from assms g have s1: "s' = s1"
    by (auto simp: updateNamespaceForResourceLimitRange_def split: sum.splits option.splits)
  with getAs_onlyCalls [OF g, of isRead] show "onlyCalls isRead s s'" by simp
  show "obj' = obj \<or> (\<exists>coords. limitedBy e (trace s') name coords \<and> limitWorkload coords obj = Some obj')" if "res = Inr obj'"
  proof (cases x)
    case (Inl err)
    with assms g that show ?thesis by (simp add: updateNamespaceForResourceLimitRange_def)
  next
    case (Inr ns)
    from getAs_found [OF g [unfolded Inr], of NsObj] have
      "(GetCall NsK \<lparr>key_Namespace = [], key_Name = name\<rparr>, Got (NsObj ns)) \<in> set (trace s1)" by (simp add: issues_def)
    with assms g that Inr s1 show ?thesis
      by (auto simp: updateNamespaceForResourceLimitRange_def limitedBy_def split: sum.splits option.splits)
  qed
qed

section \<open>The handlers behind the server\<close>

text \<open>What \<open>serve\<close> asks of the function it is handed: it reads from the cluster, and never writes.\<close>

locale admission =
  fixes admit :: "admissionReview \<Rightarrow> 'w sys \<Rightarrow> (admissionResponse option \<times> 'w sys) option"
  assumes admit_reads: "admit ar s = Some (r, s') \<Longrightarrow> onlyCalls isRead s s'"
begin

lemma serve_reads: "serve e W contentType body admit s = Some (w, s') \<Longrightarrow> onlyCalls isRead s s'"
  by (auto simp: serve_def split: option.splits if_splits prod.splits dest: admit_reads)

end

lemma patchResponse_Patch:
  "Patch (patchResponse e a b) = Some p \<Longrightarrow> \<exists>x y ops. a = Inr x \<and> b = Inr y \<and> lib_CreatePatch (codec e) x y = Inr ops
     \<and> p = lib_MarshalPatches (codec e) ops \<and> Allowed (patchResponse e a b)"
  by (auto simp: patchResponse_def toAdmissionResponse_def split: sum.splits)

interpretation namespaces: admission "namespaceMutateResource e W" for e :: "'w k8s" and W
  by unfold_locales (auto simp: namespaceMutateResource_def split: option.splits if_splits sum.splits
      dest: updateNamespace_spec(1))

interpretation injection: admission "injectorMutatePods e W" for e :: "'w k8s" and W
  by unfold_locales (auto simp: injectorMutatePods_def Let_def split: option.splits if_splits sum.splits list.splits prod.splits
      dest: clientList_onlyCalls [where P = isRead])

section \<open>Properties\<close>

definition sampleWorkload :: workload where
  "sampleWorkload = DeploymentW emptyMeta (Template (set_Spec (sampleSet 1 0 []))) []"

definition sampleWebhookLib :: webhookLib where
  "sampleWebhookLib = \<lparr>lib_DecodeReview = (\<lambda>b. (Some (Errorf ''bad''), \<lparr>ar_APIVersion = [], ar_Kind = [], Request = None, Response = None\<rparr>)),
     lib_DecodeWorkload = (\<lambda>k b. Inr sampleWorkload), lib_DecodePod = (\<lambda>b. Inr (samplePod b [] [])),
     lib_EncodeWorkload = (\<lambda>w. Inr ''w''), lib_EncodePod = (\<lambda>p. Inr (podName p)), lib_EncodeReview = (\<lambda>r. Inr ''r''),
     lib_RandRead = (\<lambda>k. Inr [k, 1, 2, 3, 4, 5, 6, 7])\<rparr>"

definition deploymentReview :: admissionReview where
  "deploymentReview = \<lparr>ar_APIVersion = [], ar_Kind = [], Request = Some \<lparr>req_UID = ''7'', req_Kind = ''Deployment'',
     req_Resource = podGvr, req_Namespace = ''team'', req_Raw = ''w''\<rparr>, Response = None\<rparr>"

text \<open>
  C38. The patch with which the namespace handler answers is the difference between the workload and either itself or
  the workload with the affinity that the namespace's annotation, as read, stands for; it patches only the six kinds,
  only workloads without an owner, and never a workload whose template has an affinity already.
\<close>

theorem namespace_patch:
  assumes "namespaceMutateResource e W ar s = Some (Some r, s')" and "Response ar = None" and "Patch r = Some patch"
  shows "\<exists>areq src dest a b ops. Request ar = Some areq \<and> req_Kind areq \<in> set mutatedKinds
    \<and> lib_DecodeWorkload W (req_Kind areq) (req_Raw areq) = Inr src \<and> workloadOwners src = []
    \<and> lib_EncodeWorkload W src = Inr a \<and> lib_EncodeWorkload W dest = Inr b
    \<and> lib_CreatePatch (codec e) a b = Inr ops \<and> patch = lib_MarshalPatches (codec e) ops \<and> Allowed r
    \<and> (dest = src \<or> (\<exists>coords t. limitedBy e (trace s') (req_Namespace areq) coords \<and> limitWorkload coords src = Some dest
          \<and> workloadTemplate src = Some t \<and> Affinity (t_Spec t) = None
          \<and> workloadTemplate dest = Some (t\<lparr>t_Spec := (t_Spec t)\<lparr>Affinity :=
                Some \<lparr>NodeAffinity = Some (convertToNodeSelectorAffinity coords), aff_rest = []\<rparr>\<rparr>\<rparr>)))"
proof -
  from assms(1,2) obtain areq where areq: "Request ar = Some areq" "req_Kind areq \<in> set mutatedKinds"
    by (auto simp: namespaceMutateResource_def split: option.splits if_splits)
  have noPatch: "Patch (toAdmissionResponse (core e) err) = None" for err by (simp add: toAdmissionResponse_def)
  from assms areq noPatch obtain src where src: "lib_DecodeWorkload W (req_Kind areq) (req_Raw areq) = Inr src"
    "workloadOwners src = []"
    by (auto simp: namespaceMutateResource_def split: sum.splits if_splits)
  from assms areq src noPatch obtain dest where
    u: "updateNamespaceForResourceLimitRange e (req_Namespace areq) src s = Some (Inr dest, s')"
    and r: "r = patchResponse e (lib_EncodeWorkload W src) (lib_EncodeWorkload W dest)"
    by (auto simp: namespaceMutateResource_def split: option.splits sum.splits)
  from patchResponse_Patch [of e _ _ patch] assms(3) r obtain a b ops where p: "lib_EncodeWorkload W src = Inr a"
    "lib_EncodeWorkload W dest = Inr b" "lib_CreatePatch (codec e) a b = Inr ops" "patch = lib_MarshalPatches (codec e) ops"
    "Allowed r" by blast
  have "\<exists>t. workloadTemplate src = Some t \<and> Affinity (t_Spec t) = None \<and> workloadTemplate dest = Some (t\<lparr>t_Spec :=
      (t_Spec t)\<lparr>Affinity := Some \<lparr>NodeAffinity = Some (convertToNodeSelectorAffinity coords), aff_rest = []\<rparr>\<rparr>\<rparr>)"
    if "limitWorkload coords src = Some dest" "dest \<noteq> src" for coords
    using limitWorkload_template [OF that(1)] limitWorkload_same [OF that(1)] that(2) by (auto simp: limitTemplate_def)
  with updateNamespace_spec(2) [OF u refl] have "dest = src \<or> (\<exists>coords t. limitedBy e (trace s') (req_Namespace areq) coords
      \<and> limitWorkload coords src = Some dest \<and> workloadTemplate src = Some t \<and> Affinity (t_Spec t) = None
      \<and> workloadTemplate dest = Some (t\<lparr>t_Spec := (t_Spec t)\<lparr>Affinity :=
          Some \<lparr>NodeAffinity = Some (convertToNodeSelectorAffinity coords), aff_rest = []\<rparr>\<rparr>\<rparr>))"
    by meson
  with areq src p show ?thesis by blast
qed

definition teamEnv :: "nat k8s" where
  "teamEnv = serverEnv (serving (\<lambda>k key. if k = NsK then Some (NsObj \<lparr>ns_Meta = emptyMeta\<rparr>) else None) nothing)"

lemma sample_namespace: "map_option (\<lambda>(r, s). map_option Patch r)
    (namespaceMutateResource teamEnv sampleWebhookLib deploymentReview sampleSys) = Some (Some (Some ''patches''))"
  by code_simp

theorem namespace_patch_witness:
  "\<exists>src. lib_DecodeWorkload sampleWebhookLib ''Deployment'' ''w'' = Inr src \<and> workloadOwners src = []"
proof -
  from sample_namespace obtain r s' where run: "namespaceMutateResource teamEnv sampleWebhookLib deploymentReview sampleSys
      = Some (Some r, s')" and p: "Patch r = Some ''patches''" by (auto simp: map_option_case split: option.splits)
  from namespace_patch [OF run _ p] show ?thesis by (auto simp: deploymentReview_def)
qed

lemma distinct_at_most_one: "distinct xs \<Longrightarrow> count_list xs x \<le> 1"
  by (induction xs) (auto simp: count_notin)

text \<open>
  C39. The containers of a pod after the injection are its own, in order, with the injector's before and after them;
  but the whole of the injector's list is repeated for every container of the pod, so a pod with two containers gets
  two containers of the same name, which the API server rejects.
\<close>

theorem injected_containers:
  assumes "m \<in> set (slice (PreContainers spec))" and "c_Name m \<notin> c_Name ` set cs" and "2 \<le> length cs"
  shows "(\<exists>before after. injectedContainers W spec cs = before @ cs @ after
      \<and> length before = length cs * length (slice (PreContainers spec))
      \<and> length after = length cs * length (slice (PostContainers spec)))
    \<and> \<not> distinct (map c_Name (injectedContainers W spec cs))"
proof
  show "\<exists>before after. injectedContainers W spec cs = before @ cs @ after
      \<and> length before = length cs * length (slice (PreContainers spec))
      \<and> length after = length cs * length (slice (PostContainers spec))"
    by (rule injectedContainers_split [of W spec cs]) blast
  from assms(1) obtain pre where pre: "PreContainers spec = Some pre" "m \<in> set pre" by (cases "PreContainers spec") auto
  obtain before k where b: "injectContainers W cs pre 0 = (before, k)" by fastforce
  have "\<forall>c \<in> set cs. c_Name c \<noteq> c_Name m" using assms(2) by (metis imageI)
  with injectContainers_copies [OF b pre(2)] assms(3) have "2 \<le> count_list (map c_Name before) (c_Name m)" by simp
  then have "\<not> distinct (map c_Name before)" by (auto dest: distinct_at_most_one [of _ "c_Name m"])
  with pre(1) b show "\<not> distinct (map c_Name (injectedContainers W spec cs))"
    by (auto simp: injectedContainers_def split: option.splits prod.splits)
qed

theorem injected_containers_witness:
  "\<not> distinct (map c_Name (injectedContainers sampleWebhookLib
     \<lparr>PreContainers = Some [\<lparr>c_Name = ''log'', c_Image = ''log:1'', c_rest = []\<rparr>], PostContainers = None, ResourceType = [],
       inj_NameSpace = [], inj_Name = [], inj_Volumes = None, inj_Selector = sampleSelector\<rparr>
     [\<lparr>c_Name = ''a'', c_Image = ''a:1'', c_rest = []\<rparr>, \<lparr>c_Name = ''b'', c_Image = ''b:1'', c_rest = []\<rparr>]))"
  using injected_containers [of "\<lparr>c_Name = ''log'', c_Image = ''log:1'', c_rest = []\<rparr>"
      "\<lparr>PreContainers = Some [\<lparr>c_Name = ''log'', c_Image = ''log:1'', c_rest = []\<rparr>], PostContainers = None, ResourceType = [],
       inj_NameSpace = [], inj_Name = [], inj_Volumes = None, inj_Selector = sampleSelector\<rparr>"
      "[\<lparr>c_Name = ''a'', c_Image = ''a:1'', c_rest = []\<rparr>, \<lparr>c_Name = ''b'', c_Image = ''b:1'', c_rest = []\<rparr>]" sampleWebhookLib]
  by simp

text \<open>
  An injection changes the containers and the volumes of a pod only, and of its own volumes it keeps none: those
  it leaves are volumes of the injector, and there are none when the injector has none.
\<close>

theorem injection_drops_volumes:
  "injectPod W sp p = p\<lparr>p_Spec := (p_Spec p)\<lparr>Containers := Containers (p_Spec (injectPod W sp p)),
     Volumes := Volumes (p_Spec (injectPod W sp p))\<rparr>\<rparr>
   \<and> set (slice (Volumes (p_Spec (injectPod W sp p)))) \<subseteq> set (slice (inj_Volumes (inj_Spec sp)))"
  by (auto simp: injectPod_def Let_def injectedVolumes_eq split: option.splits)

text \<open>
  The webhook never writes to the cluster: whatever a request holds, the calls that serving it issues are reads.
\<close>

theorem webhook_only_reads:
  "(case ServeInjectorMutatePods e W contentType body s of None \<Rightarrow> True | Some (w, s') \<Rightarrow> onlyCalls isRead s s')
   \<and> (case ServeNamespaceMutateResource e W contentType body s of None \<Rightarrow> True | Some (w, s') \<Rightarrow> onlyCalls isRead s s')"
  using injection.serve_reads namespaces.serve_reads
  by (fastforce simp: ServeInjectorMutatePods_def ServeNamespaceMutateResource_def split: option.splits prod.splits)

text \<open>A review that does not decode, and so has no request, makes the handler dereference nil.\<close>

theorem serve_panics:
  assumes "lib_DecodeReview W bs = (Some err, ar)" and "Request ar = None"
  shows "serve e W ''application/json'' (Some (Inr bs)) admit s = None"
  using assms by (simp add: serve_def toAdmissionResponse_def)

end
