(* ===== verification/Manager.thy ===== *)
theory Manager
  imports SetReconciler Water Stone Injector Webhook
begin

text \<open>
  \<^verbatim>\<open>main.go\<close> and the \<^verbatim>\<open>SetupWithManager\<close> functions of the four controllers: starting the process, and which
  events of the cluster each controller is called for. The manager of \<^verbatim>\<open>controller-runtime\<close> is a parameter: a function
  that answers each call on it and moves to a next state of an arbitrary type \<open>'m\<close>, what the builder makes of its
  calls, and the requests an event handler enqueues.
\<close>

section \<open>The manager's interface\<close>

datatype eventHandler = EnqueueRequestForObject | EnqueueRequestForOwner kind

datatype builderCall = For kind | Owns kind | Watches kind eventHandler

datatype controller = WaterReconciler | StoneReconciler | InjectorReconciler | StatefulSetReconciler

datatype endpoint = InjectorMutatePods | NamespaceMutateResource

record managerOptions =
  MetricsBindAddress :: string
  Port :: int
  LeaderElection :: bool
  LeaderElectionID :: string
  CertDir :: string

datatype mgrCall =
    NewManager managerOptions
  | Complete controller "builderCall list"
  | IndexField kind string
  | ListenAndServeTLS string string string "(string \<times> endpoint) list"
  | Start

text \<open>
  A call begins and later returns: \<open>Start\<close> and \<open>ListenAndServeTLS\<close> block, in two goroutines, so what the one does may
  come between the two events of the other.
\<close>

datatype mgrEvent = Begins mgrCall | Returns mgrCall "error option"

record 'm manager =
  mgr_world :: 'm
  mgr_events :: "mgrEvent list"

record 'm managerLib =
  lib_Manager :: "mgrCall \<Rightarrow> 'm \<Rightarrow> error option \<times> 'm"
  lib_Sources :: "builderCall list \<Rightarrow> (kind \<times> eventHandler) list"
  lib_Enqueue :: "eventHandler \<Rightarrow> objectMeta \<Rightarrow> objectKey list"
  lib_RESTMapping :: "kind \<Rightarrow> string \<Rightarrow> bool option"  \<comment> \<open>whether the kind is namespaced, if it is served at that version\<close>

definition callBegins :: "mgrCall \<Rightarrow> 'm manager \<Rightarrow> 'm manager" where
  "callBegins c s = s\<lparr>mgr_events := mgr_events s @ [Begins c]\<rparr>"

definition callReturns :: "'m managerLib \<Rightarrow> mgrCall \<Rightarrow> 'm manager \<Rightarrow> error option \<times> 'm manager" where
  "callReturns L c s =
     (let (err, w) = lib_Manager L c (mgr_world s)
      in (err, s\<lparr>mgr_world := w, mgr_events := mgr_events s @ [Returns c err]\<rparr>))"

definition perform :: "'m managerLib \<Rightarrow> mgrCall \<Rightarrow> 'm manager \<Rightarrow> error option \<times> 'm manager" where
  "perform L c s = callReturns L c (callBegins c s)"

section \<open>Registering the controllers\<close>

definition jobOwnerKey :: string where "jobOwnerKey = ''.metadata.controller''"

definition SetupWater :: "'m managerLib \<Rightarrow> 'm manager \<Rightarrow> error option \<times> 'm manager" where
  "SetupWater L s = perform L (Complete WaterReconciler [For WaterK, Owns DeployK]) s"

definition SetupStone :: "'m managerLib \<Rightarrow> 'm manager \<Rightarrow> error option \<times> 'm manager" where
  "SetupStone L s = perform L (Complete StoneReconciler [For StoneK, Owns SetK]) s"

definition SetupInjector :: "'m managerLib \<Rightarrow> 'm manager \<Rightarrow> error option \<times> 'm manager" where
  "SetupInjector L s = perform L (Complete InjectorReconciler [For InjK, Owns WaterK, Owns StoneK]) s"

definition SetupStatefulSet :: "'m managerLib \<Rightarrow> 'm manager \<Rightarrow> error option \<times> 'm manager" where
  "SetupStatefulSet L s =
     (case perform L (IndexField SetK jobOwnerKey) s of
        (Some err, s) \<Rightarrow> (Some err, s)
      | (None, s) \<Rightarrow> perform L (Complete StatefulSetReconciler [For SetK, Watches PodK EnqueueRequestForObject]) s)"

section \<open>The process\<close>

record mainFlags =
  metricsAddr :: string
  enableLeaderElection :: bool
  sslDir :: string

definition defaultFlags :: mainFlags where
  "defaultFlags = \<lparr>metricsAddr = '':8080'', enableLeaderElection = False, sslDir = ''/ssl''\<rparr>"

definition managerOptionsOf :: "mainFlags \<Rightarrow> managerOptions" where
  "managerOptionsOf f = \<lparr>MetricsBindAddress = metricsAddr f, Port = 9443, LeaderElection = enableLeaderElection f,
     LeaderElectionID = ''e931e6e2.nuwa.nip.io'', CertDir = sslDir f\<rparr>"

text \<open>How the process ends, and the exit code of that: a panic in any goroutine ends it with code 2.\<close>

datatype ending = Returned | OsExit int | Panicked error

fun exitCode :: "ending \<Rightarrow> int" where
  "exitCode Returned = 0"
| "exitCode (OsExit n) = n"
| "exitCode (Panicked err) = 2"

text \<open>Where a goroutine is that makes one blocking call.\<close>

datatype stage = Ready | Blocked | Finished

definition serveCall :: "string \<Rightarrow> mgrCall" where
  "serveCall ssl = ListenAndServeTLS '':1443'' (ssl @ ''/tls.crt'') (ssl @ ''/tls.key'')
     [(''/injector-mutating-pods'', InjectorMutatePods), (''/namespace-mutating-resource'', NamespaceMutateResource)]"

fun podMutatingServe :: "'m managerLib \<Rightarrow> string \<Rightarrow> stage \<Rightarrow> 'm manager \<Rightarrow> (error + stage) \<times> 'm manager" where
  \<comment> \<open>one step of the goroutine's body; \<open>Inl\<close> is \<open>panic(err)\<close>\<close>
  "podMutatingServe L ssl Ready s = (Inr Blocked, callBegins (serveCall ssl) s)"
| "podMutatingServe L ssl Blocked s =
     (case callReturns L (serveCall ssl) s of (Some err, s) \<Rightarrow> (Inl err, s) | (None, s) \<Rightarrow> (Inr Finished, s))"
| "podMutatingServe L ssl Finished s = (Inr Finished, s)"

fun startManager :: "'m managerLib \<Rightarrow> stage \<Rightarrow> 'm manager \<Rightarrow> (ending + stage) \<times> 'm manager" where
  \<comment> \<open>one step of the end of \<open>main\<close>, from \<open>mgr.Start\<close> on; \<open>Inl\<close> is the end of the process\<close>
  "startManager L Ready s = (Inr Blocked, callBegins Start s)"
| "startManager L _ s =
     (case callReturns L Start s of (Some err, s) \<Rightarrow> (Inl (OsExit 1), s) | (None, s) \<Rightarrow> (Inl Returned, s))"

datatype goroutine = Main | Webhooks

fun runGoroutines ::
  "'m managerLib \<Rightarrow> string \<Rightarrow> goroutine list \<Rightarrow> stage \<Rightarrow> stage \<Rightarrow> 'm manager \<Rightarrow> ending option \<times> 'm manager" where
  \<comment> \<open>the two goroutines take steps in the order of the schedule; \<open>None\<close>: the process still runs\<close>
  "runGoroutines L ssl [] mst wst s = (None, s)"
| "runGoroutines L ssl (Main # sched) mst wst s =
     (case startManager L mst s of
        (Inl x, s) \<Rightarrow> (Some x, s)
      | (Inr mst, s) \<Rightarrow> runGoroutines L ssl sched mst wst s)"
| "runGoroutines L ssl (Webhooks # sched) mst wst s =
     (case podMutatingServe L ssl wst s of
        (Inl err, s) \<Rightarrow> (Some (Panicked err), s)
      | (Inr wst, s) \<Rightarrow> runGoroutines L ssl sched mst wst s)"

definition main :: "'m managerLib \<Rightarrow> mainFlags \<Rightarrow> goroutine list \<Rightarrow> 'm manager \<Rightarrow> ending option \<times> 'm manager" where
  \<comment> \<open>the flags are those after \<open>flag.Parse\<close>; \<open>go podMutatingServe\<close> makes the second goroutine\<close>
  "main L f sched s =
     (case perform L (NewManager (managerOptionsOf f)) s of
        (Some err, s) \<Rightarrow> (Some (OsExit 1), s)
      | (None, s) \<Rightarrow>
     (case SetupWater L s of
        (Some err, s) \<Rightarrow> (Some (OsExit 1), s)
      | (None, s) \<Rightarrow>
     (case SetupStone L s of
        (Some err, s) \<Rightarrow> (Some (OsExit 1), s)
      | (None, s) \<Rightarrow>
     (case SetupInjector L s of
        (Some err, s) \<Rightarrow> (Some (OsExit 1), s)
      | (None, s) \<Rightarrow>
     (case SetupStatefulSet L s of
        (Some err, s) \<Rightarrow> (Some (OsExit 1), s)
      | (None, s) \<Rightarrow> runGoroutines L (sslDir f) sched Ready Ready s)))))"

section \<open>The requests of an event\<close>

definition watchesOf :: "controller \<Rightarrow> builderCall list" where
  \<comment> \<open>what each controller is registered with above\<close>
  "watchesOf c = (case c of WaterReconciler \<Rightarrow> [For WaterK, Owns DeployK] | StoneReconciler \<Rightarrow> [For StoneK, Owns SetK]
     | InjectorReconciler \<Rightarrow> [For InjK, Owns WaterK, Owns StoneK]
     | StatefulSetReconciler \<Rightarrow> [For SetK, Watches PodK EnqueueRequestForObject])"

definition requestsOf :: "'m managerLib \<Rightarrow> controller \<Rightarrow> kind \<Rightarrow> objectMeta \<Rightarrow> objectKey list" where
  "requestsOf L c k m = concat (map (\<lambda>(j, h). if j = k then lib_Enqueue L h m else []) (lib_Sources L (watchesOf c)))"

fun kindName :: "kind \<Rightarrow> string" where
  "kindName WaterK = ''Water''"
| "kindName StoneK = ''Stone''"
| "kindName InjK = ''Injector''"
| "kindName SetK = ''StatefulSet''"
| "kindName DeployK = ''Deployment''"
| "kindName PodK = ''Pod''"
| "kindName PvcK = ''PersistentVolumeClaim''"
| "kindName RevK = ''ControllerRevision''"
| "kindName SvcK = ''Service''"
| "kindName NsK = ''Namespace''"

fun kindGroup :: "kind \<Rightarrow> string" where
  "kindGroup WaterK = GroupVersion_Group"
| "kindGroup StoneK = GroupVersion_Group"
| "kindGroup InjK = GroupVersion_Group"
| "kindGroup SetK = GroupVersion_Group"
| "kindGroup DeployK = ''apps''"
| "kindGroup RevK = ''apps''"
| "kindGroup _ = []"

definition parseGroupVersion :: "string \<Rightarrow> (string \<times> string) option" where
  \<comment> \<open>\<open>schema.ParseGroupVersion\<close>: group and version, \<open>None\<close> if there are too many slashes\<close>
  "parseGroupVersion gv =
     (if gv = [] \<or> gv = ''/'' then Some ([], [])
      else (case splitSlash gv of [v] \<Rightarrow> Some ([], v) | [g, v] \<Rightarrow> Some (g, v) | _ \<Rightarrow> None))"

text \<open>
  Documented behaviour: the builder watches the controller's own kind, the kinds it owns through their controller
  reference, and what it was told to; a controller reference names its owner; an event leads to a request for the
  object, or for its controller if that has the name and the group of the owner's kind, at any version that is
  served. The kinds of Nuwa are namespaced and served at the version of the API package.
\<close>

definition builds_sources :: "'m managerLib \<Rightarrow> bool" where
  "builds_sources L \<longleftrightarrow> (\<forall>cs. List.set (lib_Sources L cs) = {(k, EnqueueRequestForObject) |k. For k \<in> List.set cs}
     \<union> {(j, EnqueueRequestForOwner k) |j k. For k \<in> List.set cs \<and> Owns j \<in> List.set cs} \<union> {(j, h) |j h. Watches j h \<in> List.set cs})"

definition names_owners :: "coreLib \<Rightarrow> bool" where
  "names_owners C \<longleftrightarrow> (\<forall>m k. let r = lib_NewControllerRef C m k in or_Name r = Name m \<and> or_Kind r = gvk_Kind k
       \<and> or_APIVersion r = groupVersionString k \<and> or_Controller r = Some True)
     \<and> (\<forall>m. lib_GetControllerOf C m = find (\<lambda>r. or_Controller r = Some True) (OwnerReferences m))"

definition enqueues :: "'m managerLib \<Rightarrow> coreLib \<Rightarrow> bool" where
  "enqueues L C \<longleftrightarrow> (\<forall>m. lib_Enqueue L EnqueueRequestForObject m = [metaKey m])
     \<and> (\<forall>k m. lib_Enqueue L (EnqueueRequestForOwner k) m = (case lib_GetControllerOf C m of None \<Rightarrow> []
          | Some r \<Rightarrow> (case parseGroupVersion (or_APIVersion r) of None \<Rightarrow> []
              | Some (grp, version) \<Rightarrow> if or_Kind r = kindName k \<and> grp = kindGroup k
                  then (case lib_RESTMapping L k version of None \<Rightarrow> []
                    | Some namespaced \<Rightarrow> [\<lparr>key_Namespace = (if namespaced then Namespace m else []), key_Name = or_Name r\<rparr>])
                  else [])))"

definition serves_nuwa :: "'m managerLib \<Rightarrow> bool" where
  "serves_nuwa L \<longleftrightarrow> (\<forall>k. kindGroup k = GroupVersion_Group \<longrightarrow> lib_RESTMapping L k GroupVersion_Version = Some True)"

section \<open>Facts\<close>

definition registrations :: "mainFlags \<Rightarrow> mgrCall list" where
  "registrations f = [NewManager (managerOptionsOf f), Complete WaterReconciler (watchesOf WaterReconciler),
     Complete StoneReconciler (watchesOf StoneReconciler), Complete InjectorReconciler (watchesOf InjectorReconciler),
     IndexField SetK jobOwnerKey, Complete StatefulSetReconciler (watchesOf StatefulSetReconciler)]"

text \<open>Calls in a row, up to the first error, and the events of calls that succeed.\<close>

fun performAll :: "'m managerLib \<Rightarrow> mgrCall list \<Rightarrow> 'm manager \<Rightarrow> error option \<times> 'm manager" where
  "performAll L [] s = (None, s)"
| "performAll L (c # cs) s = (case perform L c s of (Some err, s) \<Rightarrow> (Some err, s) | (None, s) \<Rightarrow> performAll L cs s)"

definition succeed :: "mgrCall list \<Rightarrow> mgrEvent list" where
  "succeed cs = concat (map (\<lambda>c. [Begins c, Returns c None]) cs)"

lemma succeed_simps [simp]:
  "succeed [] = []" "succeed (c # cs) = Begins c # Returns c None # succeed cs"
  by (simp_all add: succeed_def)

lemma callBegins_events [simp]: "mgr_events (callBegins c s) = mgr_events s @ [Begins c]"
  by (simp add: callBegins_def)

lemma callReturns_events: "callReturns L c s = (err, s') \<Longrightarrow> mgr_events s' = mgr_events s @ [Returns c err]"
  by (auto simp: callReturns_def split: prod.splits)

lemma perform_events: "perform L c s = (err, s') \<Longrightarrow> mgr_events s' = mgr_events s @ [Begins c, Returns c err]"
  by (auto simp: perform_def dest: callReturns_events)

text \<open>Which of the calls in a row were made: all without an error, or those up to the first error.\<close>

lemma performAll_events:
  assumes "performAll L cs s = (err, s')"
  shows "if err = None then mgr_events s' = mgr_events s @ succeed cs
    else \<exists>k < length cs. mgr_events s' = mgr_events s @ succeed (take k cs) @ [Begins (cs ! k), Returns (cs ! k) err]"
  using assms
proof (induction cs arbitrary: s)
  case Nil
  then show ?case by simp
next
  case (Cons c cs)
  obtain er s1 where p: "perform L c s = (er, s1)" by fastforce
  note p1 = perform_events [OF p]
  show ?case
  proof (cases er)
    case (Some x)
    with Cons.prems p p1 show ?thesis by (auto intro!: exI [of _ 0])
  next
    case None
    with Cons.prems p have "performAll L cs s1 = (err, s')" by simp
    note ih = Cons.IH [OF this]
    show ?thesis
    proof (cases "err = None")
      case True
      with ih p1 None show ?thesis by simp
    next
      case False
      with ih obtain k where "k < length cs"
        "mgr_events s' = mgr_events s1 @ succeed (take k cs) @ [Begins (cs ! k), Returns (cs ! k) err]" by auto
      with p1 None False show ?thesis by (auto intro!: exI [of _ "Suc k"])
    qed
  qed
qed

lemmas setup_defs = SetupWater_def SetupStone_def SetupInjector_def SetupStatefulSet_def watchesOf_def

lemma main_eq:
  "main L f sched s = (case performAll L (registrations f) s of
     (Some err, s) \<Rightarrow> (Some (OsExit 1), s)
   | (None, s) \<Rightarrow> runGoroutines L (sslDir f) sched Ready Ready s)"
  by (simp add: main_def registrations_def setup_defs split: prod.split option.split)

text \<open>
  What may happen once the controllers are registered: the two blocking calls begin and return in any order, each at
  most once, and the process has ended exactly when \<open>Start\<close> has returned or the webhook server has failed; that is
  then the last event.
\<close>

fun eventCall :: "mgrEvent \<Rightarrow> mgrCall" where
  "eventCall (Begins c) = c"
| "eventCall (Returns c err) = c"

definition eventsOf :: "mgrCall \<Rightarrow> mgrEvent list \<Rightarrow> mgrEvent list" where
  "eventsOf c es = filter (\<lambda>ev. eventCall ev = c) es"

fun endedBy :: "mgrEvent \<Rightarrow> ending option" where
  "endedBy (Begins c) = None"
| "endedBy (Returns c err) = (if c = Start then Some (case err of None \<Rightarrow> Returned | Some x \<Rightarrow> OsExit 1)
     else map_option Panicked err)"

definition endOf :: "mgrEvent list \<Rightarrow> ending option" where
  "endOf es = (if es = [] then None else endedBy (last es))"

fun remaining :: "stage \<Rightarrow> mgrCall \<Rightarrow> error option \<Rightarrow> mgrEvent list" where
  "remaining Ready c err = [Begins c, Returns c err]"
| "remaining Blocked c err = [Returns c err]"
| "remaining Finished c err = []"

definition behaves :: "string \<Rightarrow> stage \<Rightarrow> stage \<Rightarrow> goroutine list \<Rightarrow> mgrEvent list \<Rightarrow> ending option \<Rightarrow> bool" where
  "behaves ssl mst wst sched es en \<longleftrightarrow> (\<forall>ev \<in> List.set es. eventCall ev \<in> {Start, serveCall ssl})
     \<and> (\<exists>r. prefix (eventsOf Start es) (remaining mst Start r))
     \<and> (\<exists>r. prefix (eventsOf (serveCall ssl) es) (remaining wst (serveCall ssl) r))
     \<and> (\<forall>ev \<in> List.set (butlast es). endedBy ev = None) \<and> en = endOf es
     \<and> (length (remaining mst Start None) \<le> count_list sched Main \<longrightarrow> en \<noteq> None)"

lemma serve_not_start [simp]: "serveCall ssl \<noteq> Start" "Start \<noteq> serveCall ssl"
  by (simp_all add: serveCall_def)

lemma eventsOf_simps [simp]:
  "eventsOf c [] = []" "eventsOf c (ev # es) = (if eventCall ev = c then ev # eventsOf c es else eventsOf c es)"
  by (simp_all add: eventsOf_def)

lemma endOf_simps [simp]: "endOf [] = None" "endOf (ev # es) = (if es = [] then endedBy ev else endOf es)"
  by (simp_all add: endOf_def)

lemma runGoroutines_events:
  assumes "runGoroutines L ssl sched mst wst s = (en, s')" and "mst \<noteq> Finished"
  shows "\<exists>es. mgr_events s' = mgr_events s @ es \<and> behaves ssl mst wst sched es en"
  using assms
proof (induction sched arbitrary: mst wst s)
  case Nil
  then show ?case by (cases mst) (auto simp: behaves_def)
next
  case (Cons g sched)
  have more: ?case if "runGoroutines L ssl sched mst' wst' s1 = (en, s')" "mst' \<noteq> Finished" "mgr_events s1 = mgr_events s @ [ev]"
    "\<And>es. behaves ssl mst' wst' sched es en \<Longrightarrow> behaves ssl mst wst (g # sched) (ev # es) en" for mst' wst' s1 ev
  proof -
    from Cons.IH [OF that(1,2)] obtain es where "mgr_events s' = mgr_events s1 @ es" "behaves ssl mst' wst' sched es en" by blast
    with that(3,4) show ?thesis by (intro exI [of _ "ev # es"]) simp
  qed
  show ?case
  proof (cases g)
    case Main
    show ?thesis
    proof (cases mst)
      case Ready
      with Cons.prems Main have "runGoroutines L ssl sched Blocked wst (callBegins Start s) = (en, s')" by simp
      then show ?thesis
        by (rule more [where ev = "Begins Start"]) (use Main Ready in \<open>auto simp: behaves_def split: if_splits\<close>)
    next
      case Blocked
      obtain err s1 where r: "callReturns L Start s = (err, s1)" by fastforce
      with Cons.prems Main Blocked have "s' = s1" "en = endedBy (Returns Start err)" by (auto split: option.splits)
      with callReturns_events [OF r] Blocked show ?thesis
        by (intro exI [of _ "[Returns Start err]"]) (auto simp: behaves_def)
    qed (use Cons.prems in simp)
  next
    case Webhooks
    show ?thesis
    proof (cases wst)
      case Ready
      with Cons.prems Webhooks have "runGoroutines L ssl sched mst Blocked (callBegins (serveCall ssl) s) = (en, s')" by simp
      then show ?thesis
        by (rule more [where ev = "Begins (serveCall ssl)"])
          (use Webhooks Ready Cons.prems(2) in \<open>auto simp: behaves_def split: if_splits\<close>)
    next
      case Blocked
      obtain err s1 where r: "callReturns L (serveCall ssl) s = (err, s1)" by fastforce
      show ?thesis
      proof (cases err)
        case None
        with r Cons.prems Webhooks Blocked have "runGoroutines L ssl sched mst Finished s1 = (en, s')" by simp
        then show ?thesis
          by (rule more [where ev = "Returns (serveCall ssl) None"])
            (use Webhooks Blocked None callReturns_events [OF r] Cons.prems(2) in \<open>auto simp: behaves_def split: if_splits\<close>)
      next
        case (Some x)
        with r Cons.prems Webhooks Blocked have "s' = s1" "en = Some (Panicked x)" by auto
        with callReturns_events [OF r] Blocked Some show ?thesis
          by (intro exI [of _ "[Returns (serveCall ssl) (Some x)]"]) (auto simp: behaves_def)
      qed
    next
      case Finished
      with Cons.prems Webhooks have "runGoroutines L ssl sched mst Finished s = (en, s')" by simp
      from Cons.IH [OF this Cons.prems(2)] Webhooks Finished show ?thesis by (auto simp: behaves_def)
    qed
  qed
qed

lemma behaves_end:
  assumes "behaves ssl mst wst sched es en"
  shows "(en = Some Returned) = (es \<noteq> [] \<and> last es = Returns Start None)"
    and "(en = Some (OsExit 1)) = (es \<noteq> [] \<and> (\<exists>err. last es = Returns Start (Some err)))"
    and "(en = Some (Panicked err)) = (es \<noteq> [] \<and> last es = Returns (serveCall ssl) (Some err))"
proof -
  have "eventCall (last es) \<in> {Start, serveCall ssl}" if "es \<noteq> []"
    using assms last_in_set [OF that] unfolding behaves_def by blast
  moreover have "en = endOf es" using assms by (simp add: behaves_def)
  ultimately show "(en = Some Returned) = (es \<noteq> [] \<and> last es = Returns Start None)"
    and "(en = Some (OsExit 1)) = (es \<noteq> [] \<and> (\<exists>err. last es = Returns Start (Some err)))"
    and "(en = Some (Panicked err)) = (es \<noteq> [] \<and> last es = Returns (serveCall ssl) (Some err))"
    by (cases "last es"; auto simp: endOf_def split: option.splits)+
qed

text \<open>A pod's request names its set.\<close>

lemma realReconcileName_pod:
  assumes "validName (setName sts)" and "validOrdinal i"
  shows "realReconcileName \<lparr>key_Namespace = ns, key_Name = getPodName sts i\<rparr> = \<lparr>key_Namespace = ns, key_Name = setName sts\<rparr>"
  using statefulPodRegex_show [OF assms(1), of "nat i"] assms(2)
  by (simp add: realReconcileName_def getPodName_def showInt_def ParseInt32_showNat nat_le_iff validOrdinal_def)

lemma requests_source:
  "(k, h) \<in> List.set (lib_Sources L (watchesOf c)) \<Longrightarrow> x \<in> List.set (lib_Enqueue L h m) \<Longrightarrow> x \<in> List.set (requestsOf L c k m)"
  by (force simp: requestsOf_def)

lemma nuwaGroupVersion:
  "parseGroupVersion (GroupVersion_Group @ ''/'' @ GroupVersion_Version) = Some (GroupVersion_Group, GroupVersion_Version)"
  "GroupVersion_Group \<noteq> []"
  by code_simp+

lemma requests_for_owner:
  assumes "builds_sources L" and "enqueues L C" and "serves_nuwa L" and "names_owners C" and "kindGroup k = GroupVersion_Group"
    and "For k \<in> List.set (watchesOf c)" and "Owns j \<in> List.set (watchesOf c)"
    and "OwnerReferences m = ownerReference_of C owner (kindName k)" and "Namespace m = Namespace owner"
  shows "metaKey owner \<in> List.set (requestsOf L c j m)"
proof (rule requests_source)
  show "(j, EnqueueRequestForOwner k) \<in> List.set (lib_Sources L (watchesOf c))"
    using assms(1,6,7) unfolding builds_sources_def by blast
  show "metaKey owner \<in> List.set (lib_Enqueue L (EnqueueRequestForOwner k) m)"
    using assms(2-5,8,9) nuwaGroupVersion
    by (simp add: enqueues_def names_owners_def serves_nuwa_def ownerReference_of_def groupVersionString_def metaKey_def Let_def)
qed

section \<open>Properties\<close>

text \<open>
  C40. The process starts in order: the manager, the four controllers (the index before the controller of StatefulSets).
  At the first of these calls that fails it exits with code 1, and makes no other after it; in particular it does not
  serve the webhooks. Once all are registered, \<open>Start\<close> and the webhook server begin and return, each at most once, in
  any order that the scheduler chooses, and nothing else is called. The process then exits with code 0 exactly when
  \<open>Start\<close> has returned without an error, with code 1 exactly when it has returned one, and by a panic, with code 2,
  exactly when the webhook server has failed before; it has ended once \<open>main\<close> was scheduled twice.
\<close>

theorem startup_in_order:
  "case main L f sched s of (en, s') \<Rightarrow>
     (\<exists>k err. k < length (registrations f) \<and> en = Some (OsExit 1)
       \<and> mgr_events s' = mgr_events s @ succeed (take k (registrations f))
           @ [Begins (registrations f ! k), Returns (registrations f ! k) (Some err)])
     \<or> (\<exists>es. mgr_events s' = mgr_events s @ succeed (registrations f) @ es \<and> behaves (sslDir f) Ready Ready sched es en
         \<and> (map_option exitCode en = Some 0) = (es \<noteq> [] \<and> last es = Returns Start None)
         \<and> (map_option exitCode en = Some 1) = (es \<noteq> [] \<and> (\<exists>err. last es = Returns Start (Some err)))
         \<and> (map_option exitCode en = Some 2) = (es \<noteq> [] \<and> (\<exists>err. last es = Returns (serveCall (sslDir f)) (Some err))))"
proof -
  obtain err s1 where p: "performAll L (registrations f) s = (err, s1)" by fastforce
  note calls = performAll_events [OF p]
  show ?thesis
  proof (cases err)
    case (Some er)
    with calls obtain k where "k < length (registrations f)" "mgr_events s1 = mgr_events s
      @ succeed (take k (registrations f)) @ [Begins (registrations f ! k), Returns (registrations f ! k) (Some er)]" by auto
    with p Some show ?thesis by (auto simp: main_eq)
  next
    case None
    obtain en s' where r: "runGoroutines L (sslDir f) sched Ready Ready s1 = (en, s')" by fastforce
    from runGoroutines_events [OF r] obtain es where es: "mgr_events s' = mgr_events s1 @ es"
      "behaves (sslDir f) Ready Ready sched es en" by auto
    have "en \<in> {None, Some Returned, Some (OsExit 1)} \<or> (\<exists>err. en = Some (Panicked err))"
      using es(2) by (cases "last es") (auto simp: behaves_def endOf_def split: option.splits)
    then have "(map_option exitCode en = Some 0) = (en = Some Returned)"
      "(map_option exitCode en = Some 1) = (en = Some (OsExit 1))"
      "(map_option exitCode en = Some 2) = (\<exists>err. en = Some (Panicked err))" by auto
    then have "(map_option exitCode en = Some 0) = (es \<noteq> [] \<and> last es = Returns Start None)"
      "(map_option exitCode en = Some 1) = (es \<noteq> [] \<and> (\<exists>err. last es = Returns Start (Some err)))"
      "(map_option exitCode en = Some 2) = (es \<noteq> [] \<and> (\<exists>err. last es = Returns (serveCall (sslDir f)) (Some err)))"
      unfolding behaves_end [OF es(2)] by simp_all
    with es calls None p r show ?thesis by (auto simp: main_eq)
  qed
qed

text \<open>
  C14. Events reach the reconciler that has to act on them: an event on a Deployment that a Water's reconciliation
  created makes a request for that Water, one on a StatefulSet that a Stone's reconciliation created makes a request
  for that Stone (the library compares the kind and the group of the owner), and one on a pod that the control built for a StatefulSet makes a request that \<open>Reconcile\<close> reads as
  one for that StatefulSet.
\<close>

theorem events_reach_owners:
  assumes "builds_sources L" and "enqueues L (core e)" and "serves_nuwa L" and "names_owners (core e)"
    and "fresh_pods (core e)" and "ranges_all (core e)" and "validName (setName sts)" and "validOrdinal i" and "newStatefulSetPod e sts i = Some p"
  shows "metaKey (w_Meta wts) \<in> List.set (requestsOf L WaterReconciler DeployK
      (d_Meta (newDeployment (core e) (deployKey (Namespace (w_Meta wts)) c wts) wts sz na)))
    \<and> metaKey (sn_Meta ste) \<in> List.set (requestsOf L StoneReconciler SetK
      (set_Meta (newStoneSet e ste cg (key_Name (stoneSetKey ste j cg)))))
    \<and> metaKey (set_Meta sts) \<in> realReconcileName ` List.set (requestsOf L StatefulSetReconciler PodK (p_Meta p))"
proof (intro conjI)
  show "metaKey (w_Meta wts) \<in> List.set (requestsOf L WaterReconciler DeployK
      (d_Meta (newDeployment (core e) (deployKey (Namespace (w_Meta wts)) c wts) wts sz na)))"
    by (rule requests_for_owner [OF assms(1-4), of WaterK])
      (simp_all add: watchesOf_def newDeployment_def deployKey_def Let_def)
  show "metaKey (sn_Meta ste) \<in> List.set (requestsOf L StoneReconciler SetK
      (set_Meta (newStoneSet e ste cg (key_Name (stoneSetKey ste j cg)))))"
    by (rule requests_for_owner [OF assms(1-4), of StoneK]) (simp_all add: watchesOf_def newStoneSet_def)
  from newStatefulSetPod_spec(1,3) [OF assms(5-9)]
  have key: "podKey p = \<lparr>key_Namespace = setNamespace sts, key_Name = getPodName sts i\<rparr>"
    by (auto simp: identityMatches_def metaKey_def Let_def split: prod.splits)
  have "podKey p \<in> List.set (requestsOf L StatefulSetReconciler PodK (p_Meta p))"
  proof (rule requests_source)
    show "(PodK, EnqueueRequestForObject) \<in> List.set (lib_Sources L (watchesOf StatefulSetReconciler))"
      using assms(1) unfolding builds_sources_def watchesOf_def by auto
    show "podKey p \<in> List.set (lib_Enqueue L EnqueueRequestForObject (p_Meta p))"
      using assms(2) by (simp add: enqueues_def)
  qed
  moreover have "realReconcileName (podKey p) = metaKey (set_Meta sts)"
    unfolding key by (simp add: realReconcileName_pod [OF assms(7,8)] metaKey_def)
  ultimately show "metaKey (set_Meta sts) \<in> realReconcileName ` List.set (requestsOf L StatefulSetReconciler PodK (p_Meta p))"
    by (metis image_eqI)
qed

definition ownedKinds :: "builderCall list \<Rightarrow> kind list" where
  "ownedKinds cs = concat (map (\<lambda>c. case c of Owns j \<Rightarrow> [j] | _ \<Rightarrow> []) cs)"

definition sampleSources :: "builderCall list \<Rightarrow> (kind \<times> eventHandler) list" where
  "sampleSources cs = concat (map (\<lambda>c. case c of
      For k \<Rightarrow> (k, EnqueueRequestForObject) # map (\<lambda>j. (j, EnqueueRequestForOwner k)) (ownedKinds cs)
    | Owns j \<Rightarrow> [] | Watches j h \<Rightarrow> [(j, h)]) cs)"

fun sampleEnqueue :: "eventHandler \<Rightarrow> objectMeta \<Rightarrow> objectKey list" where
  "sampleEnqueue EnqueueRequestForObject m = [metaKey m]"
| "sampleEnqueue (EnqueueRequestForOwner k) m = (case sampleController (OwnerReferences m) of None \<Rightarrow> []
     | Some r \<Rightarrow> (case parseGroupVersion (or_APIVersion r) of None \<Rightarrow> []
         | Some (grp, version) \<Rightarrow> if or_Kind r = kindName k \<and> grp = kindGroup k
             then [\<lparr>key_Namespace = (if k \<noteq> NsK then Namespace m else []), key_Name = or_Name r\<rparr>] else []))"

definition sampleManager :: "nat managerLib" where
  "sampleManager = \<lparr>lib_Manager = (\<lambda>c n. (None, Suc n)), lib_Sources = sampleSources, lib_Enqueue = sampleEnqueue,
     lib_RESTMapping = (\<lambda>k version. Some (k \<noteq> NsK))\<rparr>"

lemma sample_owned: "List.set (ownedKinds cs) = {j. Owns j \<in> List.set cs}"
  by (induction cs) (auto simp: ownedKinds_def split: builderCall.splits)

lemma sample_sources: "builds_sources sampleManager"
proof -
  have "List.set (concat (map (\<lambda>c. case c of
        For k \<Rightarrow> (k, EnqueueRequestForObject) # map (\<lambda>j. (j, EnqueueRequestForOwner k)) js
      | Owns j \<Rightarrow> [] | Watches j h \<Rightarrow> [(j, h)]) cs))
    = {(k, EnqueueRequestForObject) |k. For k \<in> List.set cs}
      \<union> {(j, EnqueueRequestForOwner k) |j k. For k \<in> List.set cs \<and> j \<in> List.set js} \<union> {(j, h) |j h. Watches j h \<in> List.set cs}"
    for cs js by (induction cs) (auto split: builderCall.splits)
  then show ?thesis by (simp add: builds_sources_def sampleManager_def sampleSources_def sample_owned)
qed

lemma sampleController_find: "sampleController rs = find (\<lambda>r. or_Controller r = Some True) rs"
  by (induction rs) auto

lemma sample_names_owners: "names_owners sampleCore"
  by (simp add: names_owners_def sampleCore_def sampleRef_def sampleController_find)

lemma sample_enqueues: "enqueues sampleManager sampleCore"
  unfolding enqueues_def sampleManager_def sampleCore_def managerLib.select_convs coreLib.select_convs sampleEnqueue.simps
    option.case by (intro conjI allI refl)

lemma sample_serves: "serves_nuwa sampleManager"
  using nuwaGroupVersion(2) by (auto simp: serves_nuwa_def sampleManager_def)

theorem events_reach_owners_witness:
  "\<lparr>key_Namespace = ''ns'', key_Name = ''web''\<rparr> \<in> realReconcileName ` List.set (requestsOf sampleManager StatefulSetReconciler PodK
     (p_Meta (the (newStatefulSetPod (sampleEnv webSet) webSet 3))))"
proof -
  have "newStatefulSetPod (sampleEnv webSet) webSet 3 \<noteq> None" by code_simp
  then obtain p where p: "newStatefulSetPod (sampleEnv webSet) webSet 3 = Some p" by blast
  have v: "validName (setName webSet)" "validOrdinal 3" by code_simp+
  have c: "core (sampleEnv webSet) = sampleCore" by (simp add: sampleEnv_def)
  have key: "metaKey (set_Meta webSet) = \<lparr>key_Namespace = ''ns'', key_Name = ''web''\<rparr>" by code_simp
  from events_reach_owners [of sampleManager "sampleEnv webSet", OF sample_sources _ sample_serves _ sample_fresh_pods sample_ranges_all v p]
    sample_names_owners sample_enqueues show ?thesis
    unfolding c p option.sel key by blast
qed

text \<open>
  An Injector's controller asks to be called for the Waters and Stones that an Injector controls. It is the Injector
  that is given an owner reference to its workload, so no Water or Stone has such a controller, and no event on one of
  them leads to a request for an Injector.
\<close>

lemma injector_misses_workloads:
  assumes "builds_sources L" and "enqueues L C" and "k \<in> {WaterK, StoneK}"
    and "\<And>r. lib_GetControllerOf C m = Some r \<Longrightarrow> or_Kind r \<noteq> ''Injector''"
  shows "requestsOf L InjectorReconciler k m = []"
proof -
  have "lib_Enqueue L h m = []" if "(k, h) \<in> List.set (lib_Sources L (watchesOf InjectorReconciler))" for h
  proof -
    from that assms(1,3) have "h = EnqueueRequestForOwner InjK" unfolding builds_sources_def watchesOf_def by auto
    with assms(2,4) show ?thesis by (auto simp: enqueues_def split: option.split)
  qed
  then show ?thesis by (auto simp: requestsOf_def)
qed

end
