(* ===== verification/Spec2Isabelle.thy ===== *)
theory Spec2Isabelle
  imports SetProgress StoneSets Manager
begin

text \<open>
  Nuwa is a Kubernetes operator written in Go. It declares four resources (Water, Stone, StatefulSet and Injector),
  reconciles each with a controller, and serves an admission webhook. This development translates its controllers,
  the webhook and the data they work on, and proves what they may write to the cluster, in which order, and what a
  successful run has achieved.

  \<^bold>\<open>The parts and how they interact.\<close> A Water becomes one Deployment per coordinate and a Service. A Stone becomes
  one nuwa StatefulSet per group of coordinates and a Service per StatefulSet. A nuwa StatefulSet becomes pods with
  a stable identity, storage and a revision history, created, updated (by recreation or in place) and deleted in an
  order. An Injector is tied to a Water or a Stone, and makes the webhook add containers to the pods it selects. The
  webhook also gives the workloads of an annotated namespace its node affinity. The parts share the API server, the
  global \<^verbatim>\<open>updateExpectations\<close> and the naming scheme of child objects, and nothing else.

  \<^bold>\<open>How the code is modelled.\<close> All effects go through \<^verbatim>\<open>client.Client\<close>. A definition takes the environment
  \<open>e :: 'w k8s\<close> and the state \<open>s :: 'w sys\<close> (theory \<open>Client\<close>). The environment holds the API server, an arbitrary
  function \<open>api e\<close> that answers a call and moves to any next state of the outside world \<open>'w\<close>, so that whatever other
  actors do between two calls is covered; the clock; and the third-party functions. The state holds the world, the
  trace of calls with their replies, the recorded events, and \<^verbatim>\<open>updateExpectations\<close>. A panic is \<open>None\<close>, a Go error
  is a value. Integers have their Go width: \<open>int32\<close> and \<open>int64\<close> are words. A record has the fields of the struct
  that the code reads or writes, and a \<open>rest\<close> field for what it only carries along.

  Third-party code (\<^verbatim>\<open>k8s.io/...\<close>, \<^verbatim>\<open>controller-runtime\<close>, the JSON packages) is not part of the repository. Its pure
  functions are the fields \<open>lib_...\<close> of the records of theory \<open>Libraries\<close>, of which nothing is assumed. A property
  that needs documented behaviour of one of them has it as a named hypothesis: \<open>ranges_all\<close>, \<open>sorts_pods\<close>,
  \<open>sorts_revisions\<close>, \<open>finds_equal\<close>, \<open>fresh_pods\<close>, \<open>retries_conflicts\<close>, \<open>owner_errors\<close> (\<open>Libraries\<close>), \<open>gets_named\<close> (a
  read gives the object asked for, \<open>Client\<close>), \<open>readsBack\<close> (JSON coding of coordinates, \<open>StoneSets\<close>), \<open>builds_sources\<close>,
  \<open>enqueues\<close> and \<open>names_owners\<close> (the manager and owner references, \<open>Manager\<close>), \<open>status_keeps_identity\<close> (writing a pod's status leaves its metadata),
  \<open>claims_through_callbacks\<close> and \<open>claims_members\<close> (\<open>SetReconciler\<close>). Theory \<open>Cluster\<close> gives concrete functions that
  have this behaviour and a concrete API server; the witness theorems run the code on them.

  \<^bold>\<open>The theories.\<close>
  \<^item> \<open>Prelude\<close>, \<open>Api_Types\<close>, \<open>Libraries\<close>: Go's maps, slices, errors and number printing; the data of \<^verbatim>\<open>api/v1\<close>; the
    parameters.
  \<^item> \<open>Util\<close> (\<^verbatim>\<open>controllers/util.go\<close>): update expectations, with the locale \<open>update_expectations\<close>; child names.
  \<^item> \<open>Client\<close>: the client's methods, retries, and the vocabulary of the properties. \<open>issues s cs s'\<close> says which calls a
    run makes, \<open>podSteps s ops s'\<close> which of them write pods, \<open>onlyCalls\<close> and \<open>justified\<close> that each call satisfies a
    predicate (of the calls before it), \<open>emits\<close> that some call is made.
  \<^item> \<open>Coordinate\<close> (\<^verbatim>\<open>api/v1/coordinate.go\<close>, \<^verbatim>\<open>controllers/coordinator.go\<close>): coordinates, their difference, affinities.
  \<^item> \<open>Identity\<close>, \<open>Revisions\<close>, \<open>SetStatus\<close> (\<^verbatim>\<open>stateful_set_utils.go\<close>, \<^verbatim>\<open>revision_control.go\<close>,
    \<^verbatim>\<open>stateful_set_status_updater.go\<close>), \<open>InPlace\<close> (\<^verbatim>\<open>stateful_inplace_utils.go\<close>), \<open>PodControl\<close>
    (\<^verbatim>\<open>stateful_pod_control.go\<close>): the pieces of the StatefulSet control. Their Go interfaces are the locales
    \<open>controller_history\<close>, \<open>status_updater\<close> and \<open>stateful_pod_control\<close>, interpreted on the model of the code.
  \<^item> \<open>SetControl\<close> (\<^verbatim>\<open>stateful_set_control.go\<close>): \<^verbatim>\<open>updateStatefulSet\<close>, phase by phase, and \<^verbatim>\<open>UpdateStatefulSet\<close>.
    \<open>ReplicaSafety\<close> and \<open>UpdateSafety\<close> say what its loops write, \<open>SetSafety\<close> states the ordering specification
    \<open>orderly\<close> and proves the control to refine it (locale \<open>stateful_set_control\<close>), \<open>SetRounds\<close> has what a round is
    sure to do and when it returns, \<open>SetProgress\<close> the reference \<open>plan\<close> of a round and the convergence of rounds.
  \<^item> \<open>RealPodControl\<close> (\<^verbatim>\<open>realpod_control.go\<close>) and \<open>SetReconciler\<close> (\<^verbatim>\<open>statefulset_controller.go\<close>): one reconciliation of
    a StatefulSet, over the locale \<open>control_interface\<close>.
  \<^item> \<open>Water\<close>, \<open>Stone\<close>, \<open>Injector\<close> (\<^verbatim>\<open>water_controller.go\<close>, \<^verbatim>\<open>stone_controller.go\<close>, \<^verbatim>\<open>injector_controller.go\<close>): the
    other three reconcilers, each with the predicate of the calls its resource justifies. \<open>StoneSets\<close> follows the
    StatefulSets of a Stone into the StatefulSet control.
  \<^item> \<open>Webhook\<close> (\<^verbatim>\<open>api/v1/webhook.go\<close>): both admission handlers behind the HTTP handler (locale \<open>admission\<close>).
  \<^item> \<open>Manager\<close> (\<^verbatim>\<open>main.go\<close>, the four \<^verbatim>\<open>SetupWithManager\<close>): starting the process, and the requests that an event of the
    cluster makes of each controller.
  \<^item> \<open>Cluster\<close>, \<open>Sample\<close>: the concrete cluster of the witnesses.

  \<^bold>\<open>What is proved.\<close> This theory has the properties that span components: the control of a StatefulSet refines the
  documented ordering guarantee, for every API server; creations and deletions are justified; a set under deletion,
  paused, with OnDelete or with an awaited update is left alone; a successful round makes progress or, in steady
  state, does nothing; a round returns; a reconciliation inherits all that and reports errors only from before it
  touches pods. The component theories end with their own properties: names read back, identity and storage are
  restored, the update revision stands for the set's template, history is truncated safely, in-place updates change images only, claims come before pods, conditions
  are unique, the reconcilers of Water, Stone and Injector write only what their resource justifies and have it
  realised when they succeed, and the webhook only reads and patches only what it should. \<open>SetProgress\<close> proves the
  loops of a round equivalent to the plan when every listed pod is as it should be, and that rounds which the cluster
  carries out reach a finished set within the number of rounds that the measure \<open>work\<close> gives. \<open>StoneSets\<close> proves the sets
  of a Stone well formed, so that the control does not panic on them, and their pods evenly spread; \<open>Manager\<close> proves that
  the events of the objects a controller creates come back to it as requests for their owner.

  \<^bold>\<open>Loops and bounds.\<close> Loops over lists are structural recursion. \<^verbatim>\<open>retry.RetryOnConflict\<close> runs a closure at most as
  often as its backoff has steps (\<open>lib_DefaultRetrySteps\<close>, \<open>lib_DefaultBackoffSteps\<close>), which is the recursion measure of
  \<open>retrying\<close>, so no fuel is involved. The loop of \<^verbatim>\<open>CreateControllerRevision\<close>, which a server may keep going for ever
  with hash collisions, is the \<open>partial_function\<close> \<open>createRevisionLoop\<close>; its not returning is \<open>None\<close>, which counts as
  a panic, and the properties hold for every run that returns; \<open>revision_creation_returns\<close> says when it does. The rounds
  of \<open>rounds_converge\<close> are counted by the inductive relation \<open>rounds\<close>: missing pods and pods beyond the replicas take one
  round each, an outdated pod at most two. Overflow is kept: \<open>nextRevision_above\<close> and
  \<open>tally_counts\<close> are about the wrapping numbers.

  \<^bold>\<open>Not modelled.\<close> Deep copies (\<^verbatim>\<open>zz_generated.deepcopy.go\<close>), since values are immutable here; parsing the command
  line (\<open>main\<close> takes the parsed flags) and filling the scheme; the queue, the workers and the caches of the manager, so
  a reconciliation is one sequential run; logging; the mutex of the update expectations, of which each operation is one
  step; HTTP transport and the encoding of objects, which are parameters.
\<close>

section \<open>The control of a StatefulSet\<close>

text \<open>
  C1. Refinement of the documented ordering guarantee: for every behaviour of the API server, whatever an
  \<open>UpdateStatefulSet\<close> of a set with the default pod management policy writes to pods is nothing, or is allowed
  by the specification \<open>orderly\<close> on the replicas and condemned pods the listed pods determine, for the revisions and
  the expectations that this run found.
\<close>

theorem UpdateStatefulSet_refines_orderly:
  assumes "fresh_pods (core e)" and "status_keeps_identity e" and "\<not> allowsBurst sts"
    and "UpdateStatefulSet e (NewRealStatefulPodControl e) (UpdateStatefulSetStatus e) (realHistory e) sts pods s
      = Some (err, s')" and "podSteps s ops s'"
  shows "ops = [] \<or> DeletionTimestamp (set_Meta sts) = None \<and> orderlyRound e sts pods s ops"
  using assms by (rule monotonic_round)

abbreviation "web0 \<equiv> samplePod ''web-0'' ''web-h0'' PodRunning"
abbreviation "web2 \<equiv> sampleSet 2 0 ''OrderedReady''"
abbreviation "web1Key \<equiv> \<lparr>key_Namespace = ''ns'', key_Name = ''web-1''\<rparr>"

lemma sample_scale_up: "sampleOps web2 [web0] = Some (None, [PodCreate web1Key])"
  by code_simp

theorem UpdateStatefulSet_refines_orderly_witness:
  "orderlyRound (sampleEnv web2) web2 [web0] sampleSys [PodCreate web1Key]"
proof -
  obtain s' where run: "sampleRun web2 [web0] = Some (None, s')" "podSteps sampleSys [PodCreate web1Key] s'"
    by (rule sampleRunE [OF sample_scale_up])
  from UpdateStatefulSet_refines_orderly [OF sample_fresh_pods sample_status_keeps_identity sample_not_burst run]
  show ?thesis by simp
qed

text \<open>
  C2. Scale-up is monotonic: such a round creates at most one pod, as its last write to a pod, and only when for
  every lower ordinal there is a listed pod that is created, not failed, not terminating, and running and ready
  (or has just completed an in-place update).
\<close>

theorem monotonic_creates_one_pod:
  assumes "fresh_pods (core e)" and "status_keeps_identity e" and "\<not> allowsBurst sts"
    and "UpdateStatefulSet e (NewRealStatefulPodControl e) (UpdateStatefulSetStatus e) (realHistory e) sts pods s
      = Some (err, s')" and "podSteps s ops s'"
  shows "length (creates ops) \<le> 1 \<and> (\<forall>k \<in> List.set (creates ops). last ops = PodCreate k
    \<and> (\<exists>i. (\<forall>j < i. \<exists>p \<in> List.set pods. getOrdinal p = int j \<and> settled e p)
        \<and> ((\<exists>p \<in> List.set pods. getOrdinal p = int i \<and> k = podKey p) \<or> (\<exists>u cache q. startsRound e sts pods s u cache \<and> rolloutOf e sts u \<and> newPod e u i = Some q \<and> k = podKey q))))"
proof -
  from monotonic_round [OF assms] consider "ops = []" | "orderlyRound e sts pods s ops" by blast
  then show ?thesis
  proof cases
    case 1
    then show ?thesis by simp
  next
    case 2
    then obtain u rs cache and n :: int32 where o: "replicasOf e u pods rs" "startsRound e sts pods s u cache" "orderly e u rs (condemnedOf e (sint n) pods) cache ops"
      by (auto simp: orderlyRound_def)
    have "last ops = PodCreate k \<and> (\<exists>i. (\<forall>j < i. \<exists>p \<in> List.set pods. getOrdinal p = int j \<and> settled e p)
        \<and> ((\<exists>p \<in> List.set pods. getOrdinal p = int i \<and> k = podKey p) \<or> (\<exists>u cache q. startsRound e sts pods s u cache \<and> rolloutOf e sts u \<and> newPod e u i = Some q \<and> k = podKey q)))"
      if k: "k \<in> List.set (creates ops)" for k
    proof -
      from orderly_creates(2) [OF o(3) k] obtain i where i: "last ops = PodCreate k" "i < length rs"
        "\<forall>j < i. settled e (rs ! j)" "k = podKey (rs ! i) \<or> (\<exists>q. newPod e u i = Some q \<and> k = podKey q)" by blast
      from i(2,3) settled_listed [OF assms(1) o(1)] have "\<forall>j < i. \<exists>p \<in> List.set pods. getOrdinal p = int j \<and> settled e p"
        by simp
      moreover from o(1) i(2) have "(\<exists>p \<in> List.set pods. getOrdinal p = int i \<and> rs ! i = p) \<or> newPod e u i = Some (rs ! i)"
        unfolding replicasOf_def by (auto dest: podAt_Some)
      ultimately show ?thesis using i(1,4) o(2) startsRound_rollout [OF o(2)] by blast
    qed
    with orderly_creates(1) [OF o(3)] show ?thesis by blast
  qed
qed

theorem monotonic_creates_one_pod_witness:
  "\<exists>i. (\<forall>j < i. \<exists>p \<in> List.set [web0]. getOrdinal p = int j \<and> settled (sampleEnv web2) p)
    \<and> ((\<exists>p \<in> List.set [web0]. getOrdinal p = int i \<and> web1Key = podKey p)
       \<or> (\<exists>u cache q. startsRound (sampleEnv web2) web2 [web0] sampleSys u cache \<and> rolloutOf (sampleEnv web2) web2 u
         \<and> newPod (sampleEnv web2) u i = Some q \<and> web1Key = podKey q))"
proof -
  obtain s' where run: "sampleRun web2 [web0] = Some (None, s')" "podSteps sampleSys [PodCreate web1Key] s'"
    by (rule sampleRunE [OF sample_scale_up])
  from monotonic_creates_one_pod [OF sample_fresh_pods sample_status_keeps_identity sample_not_burst run]
  show ?thesis by simp
qed

text \<open>
  C3. In such a round a pod is deleted only for one of three reasons: it is a failed replica whose predecessors
  are settled; all replicas are settled and it is the condemned pod with the highest ordinal; or all replicas are
  settled, none is condemned, and it is a replica at an ordinal not below the partition that is not at the update
  revision that this run chose. More than one pod is deleted only in the last case, and then not more than \<open>maxUnavailable\<close>.
\<close>

theorem monotonic_deletes_justified:
  assumes "fresh_pods (core e)" and "status_keeps_identity e" and "\<not> allowsBurst sts"
    and "UpdateStatefulSet e (NewRealStatefulPodControl e) (UpdateStatefulSetStatus e) (realHistory e) sts pods s
      = Some (err, s')" and "podSteps s ops s'" and "deletes ops \<noteq> []"
  shows "\<exists>u n rs cache. startsRound e sts pods s u cache \<and> rolloutOf e sts u
    \<and> Replicas (set_Spec sts) = Some n \<and> int (length rs) = sint n \<and> replicasOf e u pods rs
    \<and> (\<forall>k \<in> List.set (deletes ops). deletable e u rs (condemnedOf e (sint n) pods) cache k)
    \<and> (length (deletes ops) = 1 \<or> (\<exists>updateMin maxUnavailable.
         updateBounds e u (sint n) cache = Some (UpdateFrom updateMin maxUnavailable)
         \<and> int (length (deletes ops)) \<le> maxUnavailable))"
proof -
  from monotonic_round [OF assms(1-5)] assms(6) have "orderlyRound e sts pods s ops" by auto
  then obtain u rs cache and n :: int32 where o: "startsRound e sts pods s u cache" "Replicas (set_Spec sts) = Some n"
    "int (length rs) = sint n" "replicasOf e u pods rs" "orderly e u rs (condemnedOf e (sint n) pods) cache ops"
    by (auto simp: orderlyRound_def)
  from assms(6) have pos: "0 < length (deletes ops)" by simp
  with o startsRound_rollout [OF o(1)] orderly_deletes [OF o(5)] orderly_few_deletes [OF o(5)] show ?thesis
    by (intro exI [of _ u] exI [of _ n] exI [of _ rs] exI [of _ cache]) (auto simp: le_Suc_eq)
qed

lemma sample_rolling: "sampleOps (sampleSet 1 0 ''OrderedReady'') [samplePod ''web-0'' ''old'' PodRunning]
    = Some (None, [PodDelete \<lparr>key_Namespace = ''ns'', key_Name = ''web-0''\<rparr>])"
  by code_simp

lemma sample_rolling_start: "map_option (\<lambda>(u, cc, s). updateName u) (roundStart (sampleEnv (sampleSet 1 0 ''OrderedReady''))
    (realHistory (sampleEnv (sampleSet 1 0 ''OrderedReady''))) (sampleSet 1 0 ''OrderedReady'')
    [samplePod ''web-0'' ''old'' PodRunning] sampleSys) = Some ''web-h0''"
  by code_simp

theorem monotonic_deletes_justified_witness:
  "\<exists>u n rs cache. startsRound (sampleEnv (sampleSet 1 0 ''OrderedReady'')) (sampleSet 1 0 ''OrderedReady'')
       [samplePod ''web-0'' ''old'' PodRunning] sampleSys u cache
    \<and> updateName u = ''web-h0'' \<and> Replicas (set_Spec (sampleSet 1 0 ''OrderedReady'')) = Some n
    \<and> deletable (sampleEnv (sampleSet 1 0 ''OrderedReady'')) u rs
         (condemnedOf (sampleEnv (sampleSet 1 0 ''OrderedReady'')) (sint n) [samplePod ''web-0'' ''old'' PodRunning]) cache
         \<lparr>key_Namespace = ''ns'', key_Name = ''web-0''\<rparr>"
proof -
  obtain s' where run: "sampleRun (sampleSet 1 0 ''OrderedReady'') [samplePod ''web-0'' ''old'' PodRunning] = Some (None, s')"
    "podSteps sampleSys [PodDelete \<lparr>key_Namespace = ''ns'', key_Name = ''web-0''\<rparr>] s'"
    by (rule sampleRunE [OF sample_rolling])
  have name: "updateName u = ''web-h0''" if "startsRound (sampleEnv (sampleSet 1 0 ''OrderedReady''))
      (sampleSet 1 0 ''OrderedReady'') [samplePod ''web-0'' ''old'' PodRunning] sampleSys u cache" for u cache
    using that sample_rolling_start by (auto simp: startsRound_def)
  from monotonic_deletes_justified [OF sample_fresh_pods sample_status_keeps_identity sample_not_burst run]
  show ?thesis using name by fastforce
qed

text \<open>
  C4. While a StatefulSet is being deleted the control writes no pod, whatever the policy and the API server's
  answers.
\<close>

theorem deleting_set_leaves_pods:
  assumes "DeletionTimestamp (set_Meta sts) = Some t"
    and "UpdateStatefulSet e (NewRealStatefulPodControl e) (UpdateStatefulSetStatus e) (realHistory e) sts pods s
      = Some (err, s')"
  shows "podSteps s [] s'"
  using assms(2)
proof (cases rule: rsc.UpdateStatefulSet_rounds)
  case (round u cc s1 err1 pods1 st1 s2)
  from round(5) have "s2 = s1" by (cases rule: updateReplicas_cases) (use assms(1) round(2) in auto)
  with round(1,6) show ?thesis by (auto intro: podSteps_trans0)
qed

definition deletedWeb :: statefulSet where
  "deletedWeb = web2\<lparr>set_Meta := (set_Meta web2)\<lparr>DeletionTimestamp := Some 7\<rparr>\<rparr>"

lemma sample_deleting: "sampleOps deletedWeb [web0] = Some (None, [])"
  by code_simp

theorem deleting_set_leaves_pods_witness: "\<exists>s'. sampleRun deletedWeb [web0] = Some (None, s') \<and> podSteps sampleSys [] s'"
proof -
  obtain s' where run: "sampleRun deletedWeb [web0] = Some (None, s')"
    by (rule sampleRunE [OF sample_deleting])
  have "DeletionTimestamp (set_Meta deletedWeb) = Some 7" by (simp add: deletedWeb_def sampleSet_def)
  from deleting_set_leaves_pods [OF this run] run show ?thesis by blast
qed

text \<open>
  C7. With the OnDelete strategy, or while the rolling update is paused, every pod the control deletes, in either
  policy, is a listed pod that failed, or a listed pod at an ordinal not below the replica count that is not yet
  terminating: no pod is deleted for the sake of an update.
\<close>

theorem no_rolling_update_deletes:
  assumes "fresh_pods (core e)" and "status_keeps_identity e" and "sorts_pods (core e)" and "noRollingUpdate sts"
    and "UpdateStatefulSet e (NewRealStatefulPodControl e) (UpdateStatefulSetStatus e) (realHistory e) sts pods s
      = Some (err, s')" and "podSteps s ops s'" and "k \<in> List.set (deletes ops)"
  shows "\<exists>p \<in> List.set pods. k = podKey p \<and> (isFailed p \<or> \<not> isTerminating p
    \<and> (\<exists>n. Replicas (set_Spec sts) = Some n \<and> sint n \<le> getOrdinal p))"
  using assms(5)
proof (cases rule: rsc.UpdateStatefulSet_rounds)
  case none
  with assms(6,7) show ?thesis by (auto dest: podSteps_det)
next
  case (round u cc s1 err1 pods1 st1 s2)
  have step: "podSteps s1 ops' s2 \<Longrightarrow> ops' = ops" for ops'
    using podSteps_trans0 [OF podSteps_trans [OF round(1)] round(6)] assms(6) by (auto dest: podSteps_det)
  from round(5) show ?thesis
  proof (cases rule: updateReplicas_cases)
    case (1 n st0 rs first)
    show ?thesis
    proof (cases "DeletionTimestamp (set_Meta sts) = None")
      case True
      with 1(7) round(2) obtain rs' where m: "managePods e (NewRealStatefulPodControl e) u rs
          (condemnedOf e (sint n) pods) first st0 s1 = Some (err1, rs', st1, s2)" by auto
      from assms(4) round(2) have "updateBounds e u n (expectations s1) \<noteq> Some (UpdateFrom m mu)" for n m mu
        by (simp add: noRollingUpdate_bounds)
      from rpc.managePods_deletes [OF assms(1) status_keeps_keepsIdentity [OF assms(2)] m this] step assms(7)
      have "scalingDelete e rs (condemnedOf e (sint n) pods) k" by blast
      then show ?thesis
        unfolding scalingDelete_def condemnedOf_def sorts_pods_set [OF assms(3)]
        using failed_listed [OF assms(1) 1(4)] 1(1) round(2) by auto
    next
      case False
      with 1(7) round(2) step [of "[]"] assms(7) show ?thesis by auto
    qed
  qed
qed

definition onDeleteWeb :: statefulSet where
  "onDeleteWeb = (let w = sampleSet 0 0 ''OrderedReady'' in w\<lparr>set_Spec := (set_Spec w)
     \<lparr>UpdateStrategy := Some \<lparr>us_Type = OnDeleteStatefulSetStrategyType, RollingUpdate = None\<rparr>\<rparr>\<rparr>)"

lemma sample_onDelete: "sampleOps onDeleteWeb [web0] = Some (None, [PodDelete \<lparr>key_Namespace = ''ns'', key_Name = ''web-0''\<rparr>])"
  by code_simp

theorem no_rolling_update_deletes_witness:
  "\<exists>p \<in> List.set [web0]. \<lparr>key_Namespace = ''ns'', key_Name = ''web-0''\<rparr> = podKey p \<and> (isFailed p \<or> \<not> isTerminating p
    \<and> (\<exists>n. Replicas (set_Spec onDeleteWeb) = Some n \<and> sint n \<le> getOrdinal p))"
proof -
  obtain s' where run: "sampleRun onDeleteWeb [web0] = Some (None, s')"
    "podSteps sampleSys [PodDelete \<lparr>key_Namespace = ''ns'', key_Name = ''web-0''\<rparr>] s'"
    by (rule sampleRunE [OF sample_onDelete])
  have "noRollingUpdate onDeleteWeb" by (simp add: noRollingUpdate_def onDeleteWeb_def Let_def)
  from no_rolling_update_deletes [OF sample_fresh_pods sample_status_keeps_identity sample_sorts_pods this run]
  show ?thesis by simp
qed

section \<open>Progress of a round\<close>

text \<open>
  Scale-up makes progress: when the default policy's round succeeds, the listed pods below an ordinal \<open>k\<close> of the
  set are all healthy and as they should be, and none is listed at \<open>k\<close>, then the round has written exactly one pod,
  the creation of the pod for ordinal \<open>k\<close>.
\<close>

theorem next_replica_created:
  assumes "fresh_pods (core e)" and "\<not> allowsBurst sts" and "DeletionTimestamp (set_Meta sts) = None"
    and "UpdateStatefulSet e (NewRealStatefulPodControl e) (UpdateStatefulSetStatus e) (realHistory e) sts pods s
      = Some (None, s')" and "podSteps s ops s'"
    and "\<And>j. j < k \<Longrightarrow> \<exists>p. podAt pods j = Some p \<and> steady e sts p"
    and "podAt pods k = None" and "Replicas (set_Spec sts) = Some n" and "int k < sint n"
  shows "\<exists>u cache q. startsRound e sts pods s u cache \<and> rolloutOf e sts u \<and> newPod e u k = Some q \<and> ops = [PodCreate (podKey q)]"
  using assms(4)
proof (cases rule: rsc.UpdateStatefulSet_rounds)
  case (round u cc s1 err1 pods1 st1 s2)
  have mono: "monotonic u" using assms(2) round(2) by (simp add: monotonic_iff)
  have step: "podSteps s1 ops' s2 \<Longrightarrow> ops' = ops" for ops'
    using podSteps_trans0 [OF podSteps_trans [OF round(1)] round(6)] assms(5) by (auto dest: podSteps_det)
  from round(5) show ?thesis
  proof (cases rule: updateReplicas_cases)
    case (1 m st0 rs first)
    from assms(8,9) 1(1-3) round(2) have k: "k < length rs" by simp
    with 1(4) assms(7) have q: "newPod e u k = Some (rs ! k)" by (auto simp: replicasOf_def)
    have "steady e (ro_set u) (rs ! j)" if "j < k" for j
    proof -
      from assms(6) [OF that] obtain p where "podAt pods j = Some p" "steady e sts p" by blast
      moreover from that k have "j < length rs" by simp
      ultimately show ?thesis using 1(4) round(2) unfolding replicasOf_def by auto
    qed
    moreover from newVersioned_fresh(1) [OF assms(1) q] have "\<not> isCreated (rs ! k)" .
    moreover from 1(7) assms(3) round(2,8) obtain rs' where m: "managePods e (NewRealStatefulPodControl e) u rs
        (condemnedOf e (sint m) pods) first st0 s1 = Some (None, rs', st1, s2)" by auto
    then obtain fl qs st2 s3 where l: "replicaLoop e (NewRealStatefulPodControl e) u [] rs st0 s1 = Some (fl, qs, st2, s3)"
      by (auto simp: managePods_def split: option.splits)
    ultimately obtain er where "fl = Return er" "er = None \<longrightarrow> does s1 [PodCreate (podKey (rs ! k))] s3"
      using rpc.replicaLoop_next [OF mono k _ _ l] by blast
    with m l have "podSteps s1 [PodCreate (podKey (rs ! k))] s2" by (simp add: managePods_def does_def)
    with step q startsRoundI [OF round(9)] startsRound_rollout [OF startsRoundI [OF round(9)]] show ?thesis by blast
  qed
qed simp

theorem next_replica_created_witness:
  "\<exists>u cache q. startsRound (sampleEnv web2) web2 [web0] sampleSys u cache \<and> newPod (sampleEnv web2) u 1 = Some q
     \<and> podKey q = web1Key"
proof -
  obtain s' where run: "sampleRun web2 [web0] = Some (None, s')" "podSteps sampleSys [PodCreate web1Key] s'"
    by (rule sampleRunE [OF sample_scale_up])
  have d: "DeletionTimestamp (set_Meta web2) = None" by (simp add: sampleSet_def emptyMeta_def)
  have "steady (sampleEnv web2) web2 web0" by code_simp
  moreover have "getOrdinal web0 = 0" by code_simp
  then have "podAt [web0] 0 = Some web0" "podAt [web0] 1 = None" by (simp_all add: podAt_def)
  ultimately show ?thesis
    using next_replica_created [OF sample_fresh_pods sample_not_burst d run, of 1 2] by (auto simp: sampleSet_def)
qed

text \<open>
  C9. A round of a set with the Parallel policy that reports no error has created every replica that was missing and
  deleted every pod at an ordinal beyond the replicas that was not terminating already.
\<close>

theorem burst_round_completes:
  assumes "status_keeps_identity e" and "sorts_pods (core e)" and "allowsBurst sts"
    and "DeletionTimestamp (set_Meta sts) = None"
    and "UpdateStatefulSet e (NewRealStatefulPodControl e) (UpdateStatefulSetStatus e) (realHistory e) sts pods s
      = Some (None, s')" and "podSteps s ops s'"
  shows "\<exists>u cache n rs. startsRound e sts pods s u cache \<and> rolloutOf e sts u \<and> Replicas (set_Spec sts) = Some n \<and> length rs = nat (sint n)
    \<and> replicasOf e u pods rs \<and> (\<forall>p \<in> List.set rs. isCreated p \<or> PodCreate (podKey p) \<in> List.set ops)
    \<and> (\<forall>p \<in> List.set pods. getOrdinal p < sint n \<or> isTerminating p \<or> PodDelete (podKey p) \<in> List.set ops)"
  using assms(5)
proof (cases rule: rsc.UpdateStatefulSet_rounds)
  case (round u cc s1 err1 pods1 st1 s2)
  have burst: "\<not> monotonic u" using assms(3) round(2) by (simp add: monotonic_iff)
  have step: "podSteps s1 ops' s2 \<Longrightarrow> ops' = ops" for ops'
    using podSteps_trans0 [OF podSteps_trans [OF round(1)] round(6)] assms(6) by (auto dest: podSteps_det)
  from round(5) show ?thesis
  proof (cases rule: updateReplicas_cases)
    case (1 m st0 rs first)
    from 1(7) assms(4) round(2,8) obtain rs' where m: "managePods e (NewRealStatefulPodControl e) u rs
        (condemnedOf e (sint m) pods) first st0 s1 = Some (None, rs', st1, s2)" by auto
    from rpc.managePods_burst [OF burst m status_keeps_keepsIdentity [OF assms(1)]] step
    have "(\<forall>p \<in> List.set rs. isCreated p \<or> PodCreate (podKey p) \<in> List.set ops)
      \<and> (\<forall>p \<in> List.set pods. getOrdinal p < sint m \<or> isTerminating p \<or> PodDelete (podKey p) \<in> List.set ops)"
      by (auto simp: condemnedOf_def sorts_pods_set [OF assms(2)] not_less)
    with 1(1,3,4) round(2) startsRoundI [OF round(9)] startsRound_rollout [OF startsRoundI [OF round(9)]] show ?thesis by blast
  qed
qed simp

definition burstSet :: statefulSet where
  "burstSet = sampleSet 1 0 ''Parallel''"

lemma sample_burst: "sampleOps burstSet [samplePod ''web-5'' ''web-h0'' PodRunning]
    = Some (None, [PodCreate \<lparr>key_Namespace = ''ns'', key_Name = ''web-0''\<rparr>, PodDelete \<lparr>key_Namespace = ''ns'', key_Name = ''web-5''\<rparr>])"
  by code_simp

theorem burst_round_completes_witness:
  "\<exists>u rs. replicasOf (sampleEnv burstSet) u [samplePod ''web-5'' ''web-h0'' PodRunning] rs \<and> length rs = 1"
proof -
  let ?pods = "[samplePod ''web-5'' ''web-h0'' PodRunning]"
  obtain s' where run: "sampleRun burstSet ?pods = Some (None, s')"
    "podSteps sampleSys [PodCreate \<lparr>key_Namespace = ''ns'', key_Name = ''web-0''\<rparr>,
       PodDelete \<lparr>key_Namespace = ''ns'', key_Name = ''web-5''\<rparr>] s'"
    by (rule sampleRunE [OF sample_burst])
  have b: "allowsBurst burstSet" "DeletionTimestamp (set_Meta burstSet) = None"
    by (simp_all add: burstSet_def sampleSet_def allowsBurst_def emptyMeta_def)
  have n: "Replicas (set_Spec burstSet) = Some 1" by (simp add: burstSet_def sampleSet_def)
  from burst_round_completes [OF sample_status_keeps_identity sample_sorts_pods b run] n show ?thesis by force
qed

text \<open>
  C10. Quiescence: when every listed pod is at an ordinal below the replicas, the replicas are all there, healthy and
  as they should be, and at the update revision, an update returns without a single request, and its status is the
  plain count of the pods.
\<close>

theorem quiescent_round:
  assumes "updateReplicas e (NewRealStatefulPodControl e) u cc pods s = Some (err, pods', st, s')"
    and "Replicas (set_Spec (ro_set u)) = Some n" and "sorts_pods (core e)"
    and "\<And>p. p \<in> List.set pods \<Longrightarrow> getOrdinal p < sint n"
    and "\<And>j. j < nat (sint n) \<Longrightarrow> \<exists>p. podAt pods j = Some p \<and> steady e (ro_set u) p \<and> getPodRevision p = updateName u"
  shows "s' = s \<and> st = fst (partitionPods (core e) (currentName u) (updateName u) (sint n) pods
    (initialStatus (ro_set u) (currentName u) (updateName u) cc) (replicate (nat (sint n)) None, []))"
  using assms(1)
proof (cases rule: updateReplicas_cases)
  case (1 m st0 rs first)
  have none: "condemnedOf e (sint m) pods = []"
    using 1(1) assms(2,4) sorts_pods_set [OF assms(3), of getOrdinal "filter (\<lambda>p. sint m \<le> getOrdinal p) pods"]
    by (auto simp: condemnedOf_def filter_empty_conv not_le)
  have at: "steady e (ro_set u) (rs ! j) \<and> getPodRevision (rs ! j) = updateName u" if j: "j < length rs" for j
  proof -
    from j 1(1,3) assms(2) have "j < nat (sint n)" by simp
    from assms(5) [OF this] obtain p where "podAt pods j = Some p" "steady e (ro_set u) p" "getPodRevision p = updateName u"
      by blast
    with 1(4) j show ?thesis unfolding replicasOf_def by auto
  qed
  have rs: "\<forall>p \<in> List.set rs. steady e (ro_set u) p \<and> getPodRevision p = updateName u"
  proof
    fix p assume "p \<in> List.set rs"
    then obtain j where "j < length rs" "p = rs ! j" by (auto simp: in_set_conv_nth)
    with at show "steady e (ro_set u) p \<and> getPodRevision p = updateName u" by simp
  qed
  from 1(7) none rpc.managePods_quiescent [OF rs] have "s' = s \<and> st = st0" by (auto split: if_splits)
  with 1(1,5) assms(2) show ?thesis by simp
qed

lemma sample_quiescent: "map_option (\<lambda>(err, pods, st, s). err) (updateReplicas (sampleEnv web2)
    (NewRealStatefulPodControl (sampleEnv web2)) steadyRollout 0 [samplePod ''web-0'' ''web-rev'' PodRunning] sampleSys) = Some None"
  by code_simp

theorem quiescent_round_witness:
  "\<exists>pods st. updateReplicas (sampleEnv web2) (NewRealStatefulPodControl (sampleEnv web2)) steadyRollout 0
     [samplePod ''web-0'' ''web-rev'' PodRunning] sampleSys = Some (None, pods, st, sampleSys)"
proof -
  from sample_quiescent obtain pods' st s' where run: "updateReplicas (sampleEnv web2)
    (NewRealStatefulPodControl (sampleEnv web2)) steadyRollout 0 [samplePod ''web-0'' ''web-rev'' PodRunning] sampleSys
      = Some (None, pods', st, s')" by auto
  have n: "Replicas (set_Spec (ro_set steadyRollout)) = Some 1" by (simp add: steadyRollout_def sampleSet_def)
  have at: "steady (sampleEnv web2) (ro_set steadyRollout) (samplePod ''web-0'' ''web-rev'' PodRunning)"
    "getPodRevision (samplePod ''web-0'' ''web-rev'' PodRunning) = updateName steadyRollout"
    "getOrdinal (samplePod ''web-0'' ''web-rev'' PodRunning) = 0" by code_simp+
  then have "podAt [samplePod ''web-0'' ''web-rev'' PodRunning] 0 = Some (samplePod ''web-0'' ''web-rev'' PodRunning)"
    by (simp add: podAt_def)
  with quiescent_round [OF run n sample_sorts_pods] at run show ?thesis by auto
qed

text \<open>
  C11. Updating the replicas does not panic, and returns, for every behaviour of the API server: with both templates and the
  strategy complete (what the code dereferences unchecked is there, and the partition is not negative), a policy that
  recreates pods, a number of replicas that is not negative, and no listed pod at the last 32-bit ordinal.
\<close>

theorem round_returns:
  assumes "fresh_pods (core e)" and "ranges_all (core e)" and "sorts_pods (core e)" and "rolloutSafe e u"
    and "Replicas (set_Spec (ro_set u)) = Some n" and "0 \<le> sint n"
    and "\<And>p. p \<in> List.set pods \<Longrightarrow> getOrdinal p < MaxInt32"
  shows "\<exists>err pods' st s'. updateReplicas e (NewRealStatefulPodControl e) u cc pods s = Some (err, pods', st, s')"
  using rpc.updateReplicas_returns [OF assms(1-6)] assms(7) by fast

theorem round_returns_witness:
  "\<exists>err pods' st s'. updateReplicas (sampleEnv web2) (NewRealStatefulPodControl (sampleEnv web2)) steadyRollout 0
     [web0] sampleSys = Some (err, pods', st, s')"
proof (rule round_returns [OF sample_fresh_pods sample_ranges_all sample_sorts_pods])
  show "rolloutSafe (sampleEnv web2) steadyRollout"
    by (simp add: rolloutSafe_def templateSafe_def strategySafe_def storageSafe_def coordinatesSafe_def recreatesPods_def
        steadyRollout_def sampleSet_def sampleStrategy_def validName_def emptyMeta_def mapLookup_def InPlaceIfPossiblePodUpdateStrategyType_def
        InPlaceOnlyPodUpdateStrategyType_def RecreatePodUpdateStrategyType_def)
  show "Replicas (set_Spec (ro_set steadyRollout)) = Some 1" by (simp add: steadyRollout_def sampleSet_def)
  have "getOrdinal web0 = 0" by code_simp
  then show "getOrdinal p < MaxInt32" if "p \<in> List.set [web0]" for p using that by (simp add: MaxInt32_def)
qed simp

text \<open>
  C8. While the in-place update of a pod to the update revision has not been observed, the control deletes no pod for
  the sake of the update: whatever a round deletes is a failed pod or a pod beyond the replicas, or all the objects
  awaited for the update revision are among the pods it was given, and carry that revision.
\<close>

theorem awaited_update_blocks_deletes:
  assumes "fresh_pods (core e)" and "status_keeps_identity e" and "sorts_pods (core e)"
    and "UpdateStatefulSet e (NewRealStatefulPodControl e) (UpdateStatefulSetStatus e) (realHistory e) sts pods s
      = Some (err, s')" and "podSteps s ops s'" and "k \<in> List.set (deletes ops)"
  shows "\<exists>u cache. startsRound e sts pods s u cache \<and> rolloutOf e sts u \<and> ((\<exists>p \<in> List.set pods. k = podKey p \<and> (isFailed p
        \<or> (\<exists>n. Replicas (set_Spec sts) = Some n \<and> sint n \<le> getOrdinal p)))
      \<or> awaited (expectations s) (getStatefulSetKey sts) (updateName u)
          \<subseteq> getKey ` {m \<in> p_Meta ` List.set pods. metaRevision m = updateName u})"
  using assms(4)
proof (cases rule: rsc.UpdateStatefulSet_rounds)
  case none
  with assms(5,6) show ?thesis by (auto dest: podSteps_det)
next
  case (round u cc s1 err1 pods1 st1 s2)
  have u: "startsRound e sts pods s u (expectations s1)" "rolloutOf e sts u"
    using startsRoundI [OF round(9)] startsRound_rollout [OF startsRoundI [OF round(9)]] .
  have step: "podSteps s1 ops' s2 \<Longrightarrow> ops' = ops" for ops'
    using podSteps_trans0 [OF podSteps_trans [OF round(1)] round(6)] assms(5) by (auto dest: podSteps_det)
  show ?thesis
  proof (cases "awaited (expectations s1) (getStatefulSetKey sts) (updateName u) = {}")
    case True
    then have "awaited (expectations s) (getStatefulSetKey sts) (updateName u)
        \<subseteq> getKey ` {m \<in> p_Meta ` List.set pods. metaRevision m = updateName u}"
      unfolding round(7) real.outstanding_observe_all by auto
    with u show ?thesis by blast
  next
    case False
    from round(5) show ?thesis
    proof (cases rule: updateReplicas_cases)
      case (1 n st0 rs first)
      show ?thesis
      proof (cases "DeletionTimestamp (set_Meta sts) = None")
        case True
        with 1(7) round(2) obtain rs' where m: "managePods e (NewRealStatefulPodControl e) u rs
            (condemnedOf e (sint n) pods) first st0 s1 = Some (err1, rs', st1, s2)" by auto
        from unsatisfied_bounds [of "expectations s1" u] False round(2)
          have "updateBounds e u n (expectations s1) \<noteq> Some (UpdateFrom mn mu)" for n mn mu by simp
        from rpc.managePods_deletes [OF assms(1) status_keeps_keepsIdentity [OF assms(2)] m this] step assms(6)
        have "scalingDelete e rs (condemnedOf e (sint n) pods) k" by blast
        then have "\<exists>p \<in> List.set pods. k = podKey p \<and> (isFailed p
            \<or> (\<exists>n. Replicas (set_Spec sts) = Some n \<and> sint n \<le> getOrdinal p))"
          unfolding scalingDelete_def condemnedOf_def sorts_pods_set [OF assms(3)]
          using failed_listed [OF assms(1) 1(4)] 1(1) round(2) by auto
        with u show ?thesis by blast
      next
        case del: False
        with 1(7) round(2) step [of "[]"] assms(6) show ?thesis by auto
      qed
    qed
  qed
qed

text \<open>
  A Parallel set with one replica, whose pod \<open>web-0\<close> is awaited at the new revision but still listed at an old one, and a
  pod beyond the replicas: only the latter is deleted.
\<close>

definition awaitingSys :: "nat sys" where
  "awaitingSys = sampleSys\<lparr>expectations :=
     ExpectUpdated (getStatefulSetKey burstSet) ''web-h0'' (p_Meta (samplePod ''web-0'' ''old'' PodRunning)) NewUpdateExpectations\<rparr>"

abbreviation "awaitingPods \<equiv> [samplePod ''web-0'' ''old'' PodRunning, samplePod ''web-5'' ''old'' PodRunning]"

lemma sample_awaiting:
  "map_option (\<lambda>(err, s). (err, podWrites (trace s))) (UpdateStatefulSet (sampleEnv burstSet)
     (NewRealStatefulPodControl (sampleEnv burstSet)) (UpdateStatefulSetStatus (sampleEnv burstSet))
     (realHistory (sampleEnv burstSet)) burstSet awaitingPods awaitingSys)
   = Some (None, [PodDelete \<lparr>key_Namespace = ''ns'', key_Name = ''web-5''\<rparr>])"
  by code_simp

lemma sample_awaiting_round:
  "map_option (\<lambda>(u, cc, s). updateName u) (roundStart (sampleEnv burstSet) (realHistory (sampleEnv burstSet)) burstSet
     awaitingPods awaitingSys) = Some ''web-h0''"
  by code_simp

lemma sample_awaiting_unlisted:
  "filter (\<lambda>p. metaRevision (p_Meta p) = ''web-h0'') awaitingPods = []"
  by code_simp

theorem awaited_update_blocks_deletes_witness:
  "\<exists>p \<in> List.set awaitingPods. \<lparr>key_Namespace = ''ns'', key_Name = ''web-5''\<rparr> = podKey p \<and> (isFailed p
     \<or> (\<exists>n. Replicas (set_Spec burstSet) = Some n \<and> sint n \<le> getOrdinal p))"
proof -
  from sample_awaiting obtain s' where run: "UpdateStatefulSet (sampleEnv burstSet)
      (NewRealStatefulPodControl (sampleEnv burstSet)) (UpdateStatefulSetStatus (sampleEnv burstSet))
      (realHistory (sampleEnv burstSet)) burstSet awaitingPods awaitingSys = Some (None, s')"
    "podWrites (trace s') = [PodDelete \<lparr>key_Namespace = ''ns'', key_Name = ''web-5''\<rparr>]" by auto
  then have steps: "podSteps awaitingSys [PodDelete \<lparr>key_Namespace = ''ns'', key_Name = ''web-5''\<rparr>] s'"
    by (auto simp: podSteps_def issues_def awaitingSys_def sampleSys_def)
  have k: "\<lparr>key_Namespace = ''ns'', key_Name = ''web-5''\<rparr>
      \<in> List.set (deletes [PodDelete \<lparr>key_Namespace = ''ns'', key_Name = ''web-5''\<rparr>])" by simp
  have name: "updateName u = ''web-h0''"
    if "startsRound (sampleEnv burstSet) burstSet awaitingPods awaitingSys u cache" for u cache
    using that sample_awaiting_round by (auto simp: startsRound_def)
  have "awaited (expectations awaitingSys) (getStatefulSetKey burstSet) ''web-h0'' \<noteq> {}"
    by (simp add: awaitingSys_def real.outstanding_expect)
  moreover have "{m \<in> p_Meta ` List.set awaitingPods. metaRevision m = ''web-h0''} = {}"
    using sample_awaiting_unlisted by (auto simp: filter_empty_conv split: if_splits)
  moreover have "\<not> A \<subseteq> getKey ` M" if "A \<noteq> {}" "M = {}" for A M using that by simp
  ultimately have awaits: "\<not> awaited (expectations awaitingSys) (getStatefulSetKey burstSet) ''web-h0''
      \<subseteq> getKey ` {m \<in> p_Meta ` List.set awaitingPods. metaRevision m = ''web-h0''}" by iprover
  from awaited_update_blocks_deletes [OF sample_fresh_pods sample_status_keeps_identity sample_sorts_pods run(1) steps k]
  obtain u cache where u: "startsRound (sampleEnv burstSet) burstSet awaitingPods awaitingSys u cache"
    and alternatives: "?thesis \<or> awaited (expectations awaitingSys) (getStatefulSetKey burstSet) (updateName u)
       \<subseteq> getKey ` {m \<in> p_Meta ` List.set awaitingPods. metaRevision m = updateName u}" by (elim exE conjE) (rule that)
  from alternatives show ?thesis unfolding name [OF u]
    by (rule disjE) (assumption, rule notE [OF awaits])
qed

section \<open>A reconciliation\<close>

text \<open>
  C12. A reconciliation of a set with the default policy refines the ordering specification: whatever it writes to
  pods is patches of metadata (adopting and releasing pods), followed by nothing or by what the specification allows
  on pods of the set, for the set the API server returned with its defaults filled in.
\<close>

theorem Reconcile_refines_orderly:
  assumes "fresh_pods (core e)" and "status_keeps_identity e" and "claims_through_callbacks lib" and "claims_members lib"
    and "ReconcileStatefulSet (newReconciler e lib) req s = Some (err, s')" and "podSteps s ops s'"
    and "getAs asSet e SetK (realReconcileName req) s = (Inr sts, s1)" and "\<not> allowsBurst sts"
  shows "\<exists>patches ops'. ops = patches @ ops' \<and> list_all isPatch patches
    \<and> (ops' = [] \<or> DeletionTimestamp (set_Meta sts) = None
        \<and> (\<exists>pods s2. preparesRound (newReconciler e lib) req s = Some (defaulted sts, pods, s2)
             \<and> (\<forall>p \<in> List.set pods. isMemberOf sts p) \<and> orderlyRound e (defaulted sts) pods s2 ops'))"
proof -
  have r: "sr_control (newReconciler e lib) = NewDefaultStatefulSetControl e (NewRealStatefulPodControl e)
      (UpdateStatefulSetStatus e) (realHistory e)" "sr_podControl (newReconciler e lib) = RealPodControl e"
    "sr_claims (newReconciler e lib) = lib" "sr_env (newReconciler e lib) = e" by (simp_all add: newReconciler_def)
  have patched: ?thesis if "writes isPatch s s'"
    using that assms(6) unfolding writes_def does_def by (metis append_Nil2 podSteps_det)
  have c: "claims_through_callbacks (sr_claims (newReconciler e lib))" "claims_members (sr_claims (newReconciler e lib))"
    using assms(3,4) r(3) by simp_all
  show ?thesis
    using r(1,2) c assms(5)
  proof (cases rule: rci.Reconcile_rounds)
    case (failed x)
    from podSteps_det [OF assms(6)] failed(2) show ?thesis by (auto simp: does_def)
  next
    case idle
    with patched show ?thesis by blast
  next
    case (round sts' pods s1' s2 uerr)
    from round(2) assms(7) r(4) have sts: "sts' = sts" by simp
    from round(3) obtain patches where p: "podSteps s patches s2" "list_all isPatch patches"
      unfolding writes_def does_def by blast
    from round(5) sts have run: "UpdateStatefulSet e (NewRealStatefulPodControl e) (UpdateStatefulSetStatus e) (realHistory e)
        (defaulted sts) pods s2 = Some (uerr, s')" by (simp add: NewDefaultStatefulSetControl_def)
    have nb: "\<not> allowsBurst (defaulted sts)" using assms(8) by simp
    from monotonic_steps [OF assms(1,2) nb run] obtain ops' where ops': "podSteps s2 ops' s'"
      "ops' = [] \<or> DeletionTimestamp (set_Meta (defaulted sts)) = None \<and> orderlyRound e (defaulted sts) pods s2 ops'" by blast
    from podSteps_det [OF assms(6) podSteps_trans [OF p(1) ops'(1)]] p(2) ops'(2) round(4,6) sts show ?thesis by auto
  qed
qed

text \<open>A claim library that claims nothing and asks nothing, as for a set without pods.\<close>

definition noClaims :: "nat claimLib" where
  "noClaims = \<lparr>lib_RecheckDeletionTimestamp = (\<lambda>get s. case get s of (Inl err, s) \<Rightarrow> (Some err, s) | (Inr sts, s) \<Rightarrow> (None, s)),
     lib_ClaimPods = (\<lambda>pc sts sel k adopt pods P s. (Inr (filter P pods), s))\<rparr>"

lemma noClaims_facts: "claims_members noClaims" "claims_through_callbacks noClaims"
  by (simp_all add: claims_members_def claims_through_callbacks_def noClaims_def)

definition webServer :: "pod list \<Rightarrow> nat k8s" where
  "webServer pods = serverEnv (serving
     (\<lambda>k key. if k = SetK \<and> key = \<lparr>key_Namespace = ''ns'', key_Name = ''web''\<rparr> then Some (SetObj (sampleSet 1 0 ''OrderedReady'')) else None)
     (\<lambda>k. if k = PodK then map PodObj pods else []))"

text \<open>With it the pod control is not used, so a reconciliation can be evaluated with one that does nothing.\<close>

definition idlePodControl :: "nat podControlInterface" where
  "idlePodControl = \<lparr>pc_CreatePods = (\<lambda>_ _ _ s. Some (None, s)), pc_CreatePodsOnNode = (\<lambda>_ _ _ _ _ s. Some (None, s)),
     pc_CreatePodsWithControllerRef = (\<lambda>_ _ _ _ s. Some (None, s)), pc_DeletePod = (\<lambda>_ _ s. Some (None, s)),
     pc_PatchPod = (\<lambda>_ _ _ s. (None, s))\<rparr>"

definition idleReconciler :: "nat k8s \<Rightarrow> nat reconciler" where
  "idleReconciler e = \<lparr>sr_env = e,
     sr_control = NewDefaultStatefulSetControl e (NewRealStatefulPodControl e) (UpdateStatefulSetStatus e) (realHistory e),
     sr_podControl = idlePodControl, sr_claims = noClaims\<rparr>"

lemma idle_simps:
  "sr_env (newReconciler e noClaims) = e" "sr_env (idleReconciler e) = e"
  "sr_control (newReconciler e noClaims) = sr_control (idleReconciler e)"
  "sr_claims (newReconciler e noClaims) = noClaims" "sr_claims (idleReconciler e) = noClaims"
  "lib_ClaimPods noClaims pc sts sel k adopt pods P s = (Inr (filter P pods), s)"
  by (simp_all add: newReconciler_def idleReconciler_def noClaims_def)

lemma Reconcile_idle: "ReconcileStatefulSet (newReconciler e noClaims) req s = ReconcileStatefulSet (idleReconciler e) req s"
  unfolding ReconcileStatefulSet_def adoptOrphanRevisions_def getPodsForStatefulSet_def syncStatefulSet_def idle_simps
  by (rule refl)

definition reconcileOps :: "nat k8s \<Rightarrow> objectKey \<Rightarrow> (error option \<times> podOp list) option" where
  "reconcileOps e req = map_option (\<lambda>(err, s). (err, podWrites (trace s))) (ReconcileStatefulSet (idleReconciler e) req sampleSys)"

abbreviation "oldPod \<equiv> samplePod ''web-0'' ''old'' PodRunning"

lemma sample_reconcile: "reconcileOps (webServer [oldPod]) \<lparr>key_Namespace = ''ns'', key_Name = ''web-3''\<rparr>
    = Some (None, [PodDelete \<lparr>key_Namespace = ''ns'', key_Name = ''web-0''\<rparr>])"
  by code_simp

theorem Reconcile_refines_orderly_witness:
  "\<exists>pods s2. orderlyRound (webServer [oldPod]) (defaulted (sampleSet 1 0 ''OrderedReady'')) pods s2
     [PodDelete \<lparr>key_Namespace = ''ns'', key_Name = ''web-0''\<rparr>]"
proof -
  let ?req = "\<lparr>key_Namespace = ''ns'', key_Name = ''web-3''\<rparr>" and ?ops = "[PodDelete \<lparr>key_Namespace = ''ns'', key_Name = ''web-0''\<rparr>]"
  have f: "fresh_pods (core (webServer [oldPod]))" "status_keeps_identity (webServer [oldPod])"
    by (simp_all add: webServer_def status_keeps_identity_def serving_def)
  from sample_reconcile obtain s' where run: "ReconcileStatefulSet (newReconciler (webServer [oldPod]) noClaims) ?req sampleSys = Some (None, s')"
    "podWrites (trace s') = ?ops" by (auto simp: reconcileOps_def Reconcile_idle)
  then have steps: "podSteps sampleSys ?ops s'" by (auto simp: podSteps_def issues_def sampleSys_def)
  have key: "realReconcileName ?req = \<lparr>key_Namespace = ''ns'', key_Name = ''web''\<rparr>" by code_simp
  obtain s1 where g: "getAs asSet (webServer [oldPod]) SetK (realReconcileName ?req) sampleSys = (Inr (sampleSet 1 0 ''OrderedReady''), s1)"
    by (simp add: key getAs_def clientGet_def request_def webServer_def serving_def)
  from Reconcile_refines_orderly [OF f noClaims_facts(2,1) run(1) steps g sample_not_burst] show ?thesis
    by (auto simp: Cons_eq_append_conv)
qed

text \<open>
  C13. A reconciliation returns an error only before it has touched any pod: the errors it reports come from reading
  the set and from its revisions. An error of the update itself is not returned.
\<close>

theorem Reconcile_error_before_pods:
  assumes "claims_through_callbacks lib" and "claims_members lib"
    and "ReconcileStatefulSet (newReconciler e lib) req s = Some (Some err, s')"
  shows "podSteps s [] s'"
proof -
  have r: "sr_control (newReconciler e lib) = NewDefaultStatefulSetControl e (NewRealStatefulPodControl e)
      (UpdateStatefulSetStatus e) (realHistory e)" "sr_podControl (newReconciler e lib) = RealPodControl e"
    "claims_through_callbacks (sr_claims (newReconciler e lib))" "claims_members (sr_claims (newReconciler e lib))"
    using assms(1,2) by (simp_all add: newReconciler_def)
  from r assms(3) show ?thesis by (cases rule: rci.Reconcile_rounds) (auto simp: does_def)
qed

fun forbidding :: "call \<Rightarrow> nat \<Rightarrow> reply \<times> nat" where
  "forbidding (GetCall k key) w = (Fail Invalid, Suc w)"
| "forbidding c w = sampleApi c w"

theorem Reconcile_error_before_pods_witness:
  "\<exists>s'. ReconcileStatefulSet (newReconciler (serverEnv forbidding) noClaims) web1Key sampleSys = Some (Some Invalid, s')
     \<and> podSteps sampleSys [] s'"
proof -
  have "map_option fst (ReconcileStatefulSet (idleReconciler (serverEnv forbidding)) web1Key sampleSys) = Some (Some Invalid)"
    by code_simp
  then obtain s' where run: "ReconcileStatefulSet (newReconciler (serverEnv forbidding) noClaims) web1Key sampleSys
      = Some (Some Invalid, s')" by (auto simp: Reconcile_idle)
  from Reconcile_error_before_pods [OF noClaims_facts(2,1) run] run show ?thesis by blast
qed

section \<open>Names across components\<close>

text \<open>
  C28. A request for a pod of a set is handled as a request for the set; but so is one for the set a Stone creates for
  a group whose name is a number: the key the Stone gives that set is read as a pod's, and the set is looked up under
  another name and never reconciled.
\<close>

theorem numeric_group_misread:
  assumes "validName (setName sts)" and "0 \<le> i" and "i \<le> 2147483647"
    and "validName (ToLower (Name (sn_Meta ste)))" and "Group cg = showNat g" and "g \<le> 2147483647"
  shows "realReconcileName \<lparr>key_Namespace = ns, key_Name = getPodName sts i\<rparr> = \<lparr>key_Namespace = ns, key_Name = setName sts\<rparr>
    \<and> realReconcileName (stoneSetKey ste index cg)
        = \<lparr>key_Namespace = key_Namespace (stoneSetKey ste index cg),
           key_Name = ToLower (Name (sn_Meta ste)) @ ''-'' @ showNat index\<rparr>"
proof -
  have nl: "validName (ToLower (Name (sn_Meta ste)) @ ''-'' @ showNat index)"
    using assms(4) showNat_digits [of "CHR 0x0A" index] by (auto simp: validName_def)
  have "realReconcileName \<lparr>key_Namespace = ns, key_Name = getPodName sts i\<rparr> = \<lparr>key_Namespace = ns, key_Name = setName sts\<rparr>"
    using realReconcileName_pod [OF assms(1)] assms(2,3) by (simp add: validOrdinal_def)
  moreover from statefulPodRegex_show [OF nl, of g] assms(5,6)
  have "realReconcileName (stoneSetKey ste index cg) = \<lparr>key_Namespace = key_Namespace (stoneSetKey ste index cg),
      key_Name = ToLower (Name (sn_Meta ste)) @ ''-'' @ showNat index\<rparr>"
    by (simp add: realReconcileName_def stoneSetKey_def statefulSetName_def showInt_def ParseInt32_showNat)
  ultimately show ?thesis by blast
qed

theorem numeric_group_misread_witness:
  "realReconcileName (stoneSetKey (sampleStone ''Shop'' Release [sampleGroup ''2020'' []]) 0 (sampleGroup ''2020'' []))
     = \<lparr>key_Namespace = ''ns'', key_Name = ''shop-0''\<rparr>"
proof -
  let ?ste = "sampleStone ''Shop'' Release [sampleGroup ''2020'' []]"
  have v: "validName (setName webSet)" "validName (ToLower (Name (sn_Meta ?ste)))" by code_simp+
  have g: "Group (sampleGroup ''2020'' []) = showNat 2020" by code_simp
  have n: "ToLower (Name (sn_Meta ?ste)) @ ''-'' @ showNat 0 = ''shop-0''" by code_simp
  have ns: "key_Namespace (stoneSetKey ?ste 0 (sampleGroup ''2020'' [])) = ''ns''" by (simp add: stoneSetKey_def sampleStone_def)
  have "realReconcileName (stoneSetKey ?ste 0 (sampleGroup ''2020'' []))
      = \<lparr>key_Namespace = key_Namespace (stoneSetKey ?ste 0 (sampleGroup ''2020'' [])),
         key_Name = ToLower (Name (sn_Meta ?ste)) @ ''-'' @ showNat 0\<rparr>"
    by (rule numeric_group_misread [OF v(1) _ _ v(2) g, of 0 "[]", THEN conjunct2]) simp_all
  then show ?thesis unfolding n ns .
qed

end
